(* ===== verification/Prelude.thy ===== *)
theory Prelude
  imports Main "HOL-Library.State_Monad" "HOL-Library.Char_ord" "HOL-Library.List_Lexorder" "HOL-Library.Multiset"
begin

text \<open>
  Shared vocabulary of the development.

  \<^item> Go values: a Go \<open>string\<close> or \<open>[]byte\<close> is a HOL \<^typ>\<open>string\<close>, one \<^typ>\<open>char\<close> per byte,
    ordered bytewise as Go's \<open><\<close> on strings is (\<open>List_Lexorder\<close> over \<open>Char_ord\<close>).
  \<^item> Go errors: \<open>error\<close> has one constructor per sentinel the agent compares against,
    \<open>Errorf\<close> for a leaf error and \<open>Wrapf\<close> for \<open>fmt.Errorf\<close> with one \<open>%w\<close> verb;
    \<open>errors_Is\<close> is \<open>errors.Is\<close> and \<open>error_msg\<close> is \<open>err.Error()\<close>.
  \<^item> Effects: every operation with side effects is a \<open>State_Monad\<close> computation. The rewrite
    \<open>run_bind\<close> below replaces the pattern match of the library by projections, so that the
    frame lemmas collected in \<open>frame\<close> fire on \<open>snd (run_state f w)\<close> without case splits.
\<close>

named_theorems frame \<open>components of the world that an operation leaves alone\<close>
named_theorems run_simps \<open>results of operations under given outcomes of the environment\<close>

section \<open>Running state computations\<close>

declare State_Monad.run_state_bind [simp del]

lemma run_bind [simp]:
  "run_state (State_Monad.bind f g) s = run_state (g (fst (run_state f s))) (snd (run_state f s))"
  by (simp add: State_Monad.run_state_bind split: prod.split)

section \<open>Go errors\<close>

datatype error =
    ErrQueued
  | ErrNotRegistered
  | ErrInvalidResponse
  | CtxCanceled
  | Errorf string
  | Wrapf string error string

fun error_msg :: "error \<Rightarrow> string" where
  "error_msg ErrQueued = ''payload queued for offline delivery''"
| "error_msg ErrNotRegistered = ''agent is not registered''"
| "error_msg ErrInvalidResponse = ''invalid Portal response''"
| "error_msg CtxCanceled = ''context canceled''"
| "error_msg (Errorf m) = m"
| "error_msg (Wrapf pre e post) = pre @ error_msg e @ post"

fun errors_Is :: "error \<Rightarrow> error \<Rightarrow> bool" where
  "errors_Is (Wrapf pre e post) target = (Wrapf pre e post = target \<or> errors_Is e target)"
| "errors_Is e target = (e = target)"

text \<open>A call that returns a value and an error, in Go's order, and one that only returns an error.\<close>

type_synonym 'a result = "error + 'a"

section \<open>Lists\<close>

lemma sorted_wrt_less_map_distinct:
  fixes f :: "'a \<Rightarrow> int"
  shows "sorted_wrt (<) (map f xs) \<Longrightarrow> distinct (map f xs)"
  by (simp add: strict_sorted_iff)

lemma filter_neq_map_id:
  "x \<notin> set (map f xs) \<Longrightarrow> filter (\<lambda>y. f y \<noteq> x) xs = xs"
  by (induction xs) auto

lemma strict_sorted_filter_map:
  fixes f :: "'a \<Rightarrow> int"
  shows "sorted_wrt (<) (map f xs) \<Longrightarrow> sorted_wrt (<) (map f (filter P xs))"
  by (induction xs) auto

lemma sort_key_strict_sorted:
  fixes f :: "'a \<Rightarrow> int"
  assumes "sorted_wrt (<) (map f xs)"
  shows "sort_key f xs = xs"
  using assms by (intro sort_key_id_if_sorted) (simp add: strict_sorted_iff)

lemma take_append_drop_length: "take k xs @ drop (length (take k xs)) xs = xs"
  by (cases "k \<le> length xs") simp_all

text \<open>Two lists sorted by a key that is injective on them are equal when they hold the same elements.\<close>

lemma sorted_key_unique:
  fixes f :: "'a \<Rightarrow> 'b::linorder"
  assumes "sorted (map f xs)" "sorted (map f ys)" "mset xs = mset ys" "inj_on f (set xs)"
  shows "xs = ys"
proof -
  have "mset (map f xs) = mset (map f ys)"
    using assms(3) by simp
  then have "map f xs = map f ys"
    using assms(1,2) by (metis properties_for_sort)
  moreover have "inj_on f (set xs \<union> set ys)"
    using assms(3,4) by (metis set_mset_mset Un_absorb)
  ultimately show ?thesis
    by (rule map_inj_on)
qed

end
