(* ===== verification/GoStrings.thy ===== *)
theory GoStrings
  imports Prelude
begin

text \<open>
  The parts of Go's packages \<open>strings\<close>, \<open>bytes\<close>, \<open>strconv\<close> and \<open>unicode/utf8\<close> that the agent
  calls, on byte strings. White space is recognised by the UTF-8 encodings of the runes for which
  \<open>unicode.IsSpace\<close> holds: their first bytes are never continuation bytes, so scanning byte by
  byte finds the same white space as scanning rune by rune. The tables of package \<open>unicode\<close> beyond ASCII
  (\<open>unicode.ToLower\<close>, \<open>unicode.ToUpper\<close>) are an argument of the operations that use them.
\<close>

section \<open>White space\<close>

definition space_encodings :: "string list" where
  "space_encodings =
    [[CHR 0x09], [CHR 0x0A], [CHR 0x0B], [CHR 0x0C], [CHR 0x0D], [CHR 0x20],
     [CHR 0xC2, CHR 0x85], [CHR 0xC2, CHR 0xA0], [CHR 0xE1, CHR 0x9A, CHR 0x80],
     [CHR 0xE2, CHR 0x80, CHR 0x80], [CHR 0xE2, CHR 0x80, CHR 0x81], [CHR 0xE2, CHR 0x80, CHR 0x82],
     [CHR 0xE2, CHR 0x80, CHR 0x83], [CHR 0xE2, CHR 0x80, CHR 0x84], [CHR 0xE2, CHR 0x80, CHR 0x85],
     [CHR 0xE2, CHR 0x80, CHR 0x86], [CHR 0xE2, CHR 0x80, CHR 0x87], [CHR 0xE2, CHR 0x80, CHR 0x88],
     [CHR 0xE2, CHR 0x80, CHR 0x89], [CHR 0xE2, CHR 0x80, CHR 0x8A], [CHR 0xE2, CHR 0x80, CHR 0xA8],
     [CHR 0xE2, CHR 0x80, CHR 0xA9], [CHR 0xE2, CHR 0x80, CHR 0xAF], [CHR 0xE2, CHR 0x81, CHR 0x9F],
     [CHR 0xE3, CHR 0x80, CHR 0x80]]"

text \<open>\<open>space_width s\<close> is the width of the white space rune \<open>s\<close> begins with, 0 if there is none.\<close>

definition space_width :: "string \<Rightarrow> nat" where
  "space_width s =
    (case find (\<lambda>e. take (length e) s = e) space_encodings of Some e \<Rightarrow> length e | None \<Rightarrow> 0)"

definition space_suffix_width :: "string \<Rightarrow> nat" where
  "space_suffix_width s =
    (case find (\<lambda>e. take (length e) (rev s) = rev e) space_encodings of Some e \<Rightarrow> length e | None \<Rightarrow> 0)"

lemma space_encoding_nonempty: "e \<in> set space_encodings \<Longrightarrow> e \<noteq> []"
  by (auto simp: space_encodings_def)

lemma space_encoding_tl: "e \<in> set space_encodings \<Longrightarrow> CHR 0x20 \<notin> set (tl e)"
  by (auto simp: space_encodings_def)

lemma space_encoding_blank: "CHR 0x20 # e \<in> set space_encodings \<Longrightarrow> e = []"
  by (auto simp: space_encodings_def)

lemma space_width_pos:
  "space_width s \<noteq> 0 \<longleftrightarrow> (\<exists>e\<in>set space_encodings. \<exists>r. s = e @ r)"
proof
  assume "space_width s \<noteq> 0"
  then obtain e where "find (\<lambda>e. take (length e) s = e) space_encodings = Some e"
    by (auto simp: space_width_def split: option.splits)
  then have "e \<in> set space_encodings" "take (length e) s = e"
    by (auto simp: find_Some_iff)
  then show "\<exists>e\<in>set space_encodings. \<exists>r. s = e @ r"
    by (metis append_take_drop_id)
next
  assume "\<exists>e\<in>set space_encodings. \<exists>r. s = e @ r"
  then obtain e r where e: "e \<in> set space_encodings" and s: "s = e @ r" by blast
  then have "find (\<lambda>e. take (length e) s = e) space_encodings \<noteq> None"
    by (auto simp: find_None_iff)
  then obtain e' where e': "find (\<lambda>e. take (length e) s = e) space_encodings = Some e'"
    by blast
  then have "e' \<in> set space_encodings" by (auto simp: find_Some_iff)
  then have "e' \<noteq> []" by (rule space_encoding_nonempty)
  with e' show "space_width s \<noteq> 0" by (simp add: space_width_def)
qed

lemma space_suffix_width_pos:
  "space_suffix_width s \<noteq> 0 \<Longrightarrow> \<exists>e\<in>set space_encodings. \<exists>r. s = r @ e"
proof -
  assume "space_suffix_width s \<noteq> 0"
  then obtain e where "find (\<lambda>e. take (length e) (rev s) = rev e) space_encodings = Some e"
    by (auto simp: space_suffix_width_def split: option.splits)
  then have "e \<in> set space_encodings" "take (length e) (rev s) = rev e"
    by (auto simp: find_Some_iff)
  then show ?thesis
    by (metis append_take_drop_id rev_append rev_rev_ident)
qed

lemma space_width_Nil [simp]: "space_width [] = 0"
  using space_width_pos [of "[]"] space_encoding_nonempty by auto

lemma space_width_append: "space_width r \<noteq> 0 \<Longrightarrow> space_width (r @ x) \<noteq> 0"
  unfolding space_width_pos by (metis append_assoc)

lemma space_width_blank [simp]: "space_width (CHR 0x20 # x) = Suc 0"
  by (simp add: space_width_def space_encodings_def)

function trim_left_space :: "string \<Rightarrow> string" where
  "trim_left_space s =
    (if space_width s = 0 then s else trim_left_space (drop (space_width s) s))"
  by pat_completeness auto
termination
proof (relation "measure length", goal_cases)
  case (2 s)
  then have "s \<noteq> []" by (auto simp del: length_0_conv)
  with 2 show ?case by simp
qed simp

declare trim_left_space.simps [simp del]

function trim_right_space :: "string \<Rightarrow> string" where
  "trim_right_space s =
    (if s = [] \<or> space_suffix_width s = 0 then s
     else trim_right_space (take (length s - space_suffix_width s) s))"
  by pat_completeness auto
termination
  by (relation "measure length") auto

declare trim_right_space.simps [simp del]

text \<open>\<open>strings.TrimSpace\<close> and \<open>bytes.TrimSpace\<close>.\<close>

definition TrimSpace :: "string \<Rightarrow> string" where
  "TrimSpace s = trim_right_space (trim_left_space s)"

lemma trim_left_space_length: "length (trim_left_space s) \<le> length s"
proof (induction s rule: trim_left_space.induct)
  case (1 s)
  then show ?case
    by (subst trim_left_space.simps) (auto intro: order_trans)
qed

lemma trim_left_space_stop: "space_width (trim_left_space s) = 0"
proof (induction s rule: trim_left_space.induct)
  case (1 s)
  then show ?case
    by (subst trim_left_space.simps) auto
qed

lemma trim_left_space_id: "space_width s = 0 \<Longrightarrow> trim_left_space s = s"
  by (subst trim_left_space.simps) simp

section \<open>strings.Fields and strings.Join\<close>

fun take_word :: "string \<Rightarrow> string \<times> string" where
  "take_word [] = ([], [])"
| "take_word (c # cs) =
    (if space_width (c # cs) = 0 then (c # fst (take_word cs), snd (take_word cs)) else ([], c # cs))"

lemma take_word_append: "fst (take_word s) @ snd (take_word s) = s"
  by (induction s) auto

lemma take_word_shrinks:
  assumes "s \<noteq> []" and "space_width s = 0"
  shows "length (snd (take_word s)) < length s"
proof -
  have "length (snd (take_word cs)) \<le> length cs" for cs
    using arg_cong [where f = length, OF take_word_append [of cs]] by simp
  with assms show ?thesis by (cases s) (auto simp: less_Suc_eq_le)
qed

function Fields :: "string \<Rightarrow> string list" where
  "Fields s =
    (let t = trim_left_space s
     in if t = [] then [] else fst (take_word t) # Fields (snd (take_word t)))"
  by pat_completeness auto
termination
proof (relation "measure length", goal_cases)
  case (2 s t)
  then show ?case
    using take_word_shrinks [of t] trim_left_space_stop [of s] trim_left_space_length [of s] by simp
qed simp

declare Fields.simps [simp del]

fun Join :: "string list \<Rightarrow> string \<Rightarrow> string" where
  "Join [] sep = []"
| "Join [a] sep = a"
| "Join (a # b # r) sep = a @ sep @ Join (b # r) sep"

text \<open>A word holds no white space at any of its positions.\<close>

definition space_free :: "string \<Rightarrow> bool" where
  "space_free t \<longleftrightarrow> (\<forall>k<length t. space_width (drop k t) = 0)"

lemma space_free_Cons: "space_free (c # t) \<longleftrightarrow> space_width (c # t) = 0 \<and> space_free t"
  unfolding space_free_def by (auto simp: All_less_Suc2)

lemma space_free_take_word: "space_free (fst (take_word s))"
proof (induction s)
  case Nil
  then show ?case by (simp add: space_free_def)
next
  case (Cons c cs)
  show ?case
  proof (cases "space_width (c # cs) = 0")
    case True
    have "space_width (c # fst (take_word cs)) = 0"
    proof (rule ccontr)
      assume "space_width (c # fst (take_word cs)) \<noteq> 0"
      from space_width_append [OF this, of "snd (take_word cs)"] True show False
        by (simp add: take_word_append)
    qed
    with True Cons show ?thesis by (simp add: space_free_Cons)
  next
    case False
    then show ?thesis by (simp add: space_free_def)
  qed
qed

lemma Fields_words: "t \<in> set (Fields s) \<Longrightarrow> t \<noteq> [] \<and> space_free t"
proof (induction s rule: Fields.induct)
  case (1 s)
  let ?t = "trim_left_space s"
  show ?case
  proof (cases "?t = []")
    case True
    with "1.prems" show ?thesis by (subst (asm) Fields.simps) simp
  next
    case False
    then have ne: "fst (take_word ?t) \<noteq> []"
      using trim_left_space_stop [of s] by (cases ?t) auto
    from False "1.prems" have "t = fst (take_word ?t) \<or> t \<in> set (Fields (snd (take_word ?t)))"
      by (subst (asm) Fields.simps) (auto simp: Let_def)
    then show ?thesis
      using "1.IH" [OF refl False] ne space_free_take_word by auto
  qed
qed

lemma space_free_before_blank:
  assumes "space_free t" and "t \<noteq> []"
  shows "space_width (t @ CHR 0x20 # x) = 0"
proof (rule ccontr)
  assume "space_width (t @ CHR 0x20 # x) \<noteq> 0"
  then obtain e r where e: "e \<in> set space_encodings" and eq: "t @ CHR 0x20 # x = e @ r"
    unfolding space_width_pos by blast
  from eq obtain us where "t = e @ us \<or> e = t @ us \<and> CHR 0x20 # x = us @ r"
    by (auto simp: append_eq_append_conv2)
  then consider us where "t = e @ us" | us where "us \<noteq> []" "e = t @ us" "CHR 0x20 # x = us @ r"
    by (metis append_Nil2)
  then show False
  proof cases
    case 1
    with e have "space_width t \<noteq> 0" unfolding space_width_pos by blast
    with assms show ?thesis by (auto simp: space_free_def)
  next
    case 2
    then have "CHR 0x20 \<in> set us" by (cases us) auto
    with 2 assms(2) have "CHR 0x20 \<in> set (tl e)" by (cases t) auto
    with space_encoding_tl [OF e] show ?thesis by simp
  qed
qed

lemma take_word_blank:
  "space_free t \<Longrightarrow> take_word (t @ CHR 0x20 # x) = (t, CHR 0x20 # x)"
proof (induction t)
  case Nil
  then show ?case by simp
next
  case (Cons c t)
  then show ?case
    using space_free_before_blank [of "c # t" x] by (simp add: space_free_Cons)
qed

lemma take_word_whole: "space_free t \<Longrightarrow> take_word t = (t, [])"
  by (induction t) (auto simp: space_free_Cons)

lemma Fields_Cons_blank: "Fields (CHR 0x20 # x) = Fields x"
  by (subst Fields.simps, subst trim_left_space.simps) (simp add: Fields.simps [of x])

lemma Fields_word_blank:
  assumes "t \<noteq> []" and "space_free t"
  shows "Fields (t @ CHR 0x20 # x) = t # Fields x"
  by (subst Fields.simps)
    (simp add: trim_left_space_id space_free_before_blank take_word_blank assms Fields_Cons_blank)

lemma Fields_word:
  assumes "t \<noteq> []" and "space_free t"
  shows "Fields t = [t]"
proof -
  have "space_width t = 0" using assms by (auto simp: space_free_def)
  then show ?thesis
    by (subst Fields.simps)
      (simp add: trim_left_space_id take_word_whole assms Fields.simps [of "[]"])
qed

lemma Fields_Join:
  assumes "\<forall>t\<in>set ts. t \<noteq> [] \<and> space_free t"
  shows "Fields (Join ts '' '') = ts"
  using assms
proof (induction ts "'' ''" rule: Join.induct)
  case 1
  then show ?case by (simp add: Fields.simps trim_left_space_id)
next
  case (2 a)
  then show ?case by (simp add: Fields_word)
next
  case (3 a b r)
  then show ?case by (simp add: Fields_word_blank)
qed

lemma Join_no_leading_space:
  assumes "\<forall>t\<in>set ts. t \<noteq> [] \<and> space_free t"
  shows "space_width (Join ts '' '') = 0"
  using assms
  by (cases "(ts, '' '')" rule: Join.cases) (auto simp: space_free_before_blank space_free_def)

lemma space_free_no_suffix:
  assumes "space_free t" and "t \<noteq> []"
  shows "space_suffix_width t = 0" and "space_suffix_width (x @ CHR 0x20 # t) = 0"
proof -
  have own: "\<not> (\<exists>r. t = r @ e)" if e: "e \<in> set space_encodings" for e
  proof
    assume "\<exists>r. t = r @ e"
    then obtain r where "t = r @ e" by blast
    moreover have "space_width e \<noteq> 0"
      using e unfolding space_width_pos by (metis append_Nil2)
    ultimately have "\<exists>k<length t. space_width (drop k t) \<noteq> 0"
      using space_encoding_nonempty [OF e] by (intro exI [of _ "length r"]) simp
    with assms(1) show False by (auto simp: space_free_def)
  qed
  show "space_suffix_width t = 0"
    using space_suffix_width_pos [of t] own by blast
  have False if e: "e \<in> set space_encodings" and eq: "x @ CHR 0x20 # t = r @ e" for e r
  proof -
    from eq consider us where "t = us @ e" | us where "e = us @ CHR 0x20 # t"
      by (auto simp: append_eq_append_conv2 Cons_eq_append_conv)
    then show False
    proof cases
      case 1
      with own [OF e] show ?thesis by blast
    next
      case 2
      with space_encoding_tl [OF e] have "us = []" by (cases us) auto
      with 2 e have "CHR 0x20 # t \<in> set space_encodings" by simp
      then have "t = []" by (rule space_encoding_blank)
      with assms(2) show ?thesis by simp
    qed
  qed
  then show "space_suffix_width (x @ CHR 0x20 # t) = 0"
    using space_suffix_width_pos [of "x @ CHR 0x20 # t"] by blast
qed

lemma Join_no_trailing_space:
  assumes "\<forall>t\<in>set ts. t \<noteq> [] \<and> space_free t" and "ts \<noteq> []"
  shows "space_suffix_width (Join ts '' '') = 0"
proof -
  have "\<exists>x t. (Join ts '' '' = t \<or> Join ts '' '' = x @ CHR 0x20 # t) \<and> t \<in> set ts"
    using assms(2)
  proof (induction ts "'' ''" rule: Join.induct)
    case (3 a b r)
    then obtain x t where t: "t \<in> set (b # r)"
      and "Join (b # r) '' '' = t \<or> Join (b # r) '' '' = x @ CHR 0x20 # t" by auto
    then have "Join (a # b # r) '' '' = a @ CHR 0x20 # t
        \<or> Join (a # b # r) '' '' = (a @ CHR 0x20 # x) @ CHR 0x20 # t" by auto
    with t show ?case by (metis list.set_intros(2))
  qed auto
  with assms(1) show ?thesis using space_free_no_suffix by metis
qed

lemma TrimSpace_Join:
  assumes "\<forall>t\<in>set ts. t \<noteq> [] \<and> space_free t"
  shows "TrimSpace (Join ts '' '') = Join ts '' ''"
proof (cases "ts = []")
  case True
  then show ?thesis
    by (simp add: TrimSpace_def trim_left_space_id trim_right_space.simps)
next
  case False
  then show ?thesis
    using Join_no_leading_space [OF assms] Join_no_trailing_space [OF assms]
    by (simp add: TrimSpace_def trim_left_space_id trim_right_space.simps [of "Join ts '' ''"])
qed

lemma TrimSpace_Nil [simp]: "TrimSpace [] = []"
  using TrimSpace_Join [of "[]"] by simp

lemma Fields_TrimSpace_Join_idem:
  "Join (Fields (TrimSpace (Join (Fields (TrimSpace s)) '' ''))) '' '' = Join (Fields (TrimSpace s)) '' ''"
  using Fields_words by (simp add: TrimSpace_Join Fields_Join)

text \<open>Words none of whose bytes begins a white space rune, which is easy to see for a literal.\<close>

definition plain_word :: "string \<Rightarrow> bool" where
  "plain_word t \<longleftrightarrow> list_all (\<lambda>c. c \<notin> {CHR 0x09, CHR 0x0A, CHR 0x0B, CHR 0x0C, CHR 0x0D, CHR 0x20,
    CHR 0xC2, CHR 0xE1, CHR 0xE2, CHR 0xE3}) t"

lemma plain_word_space_free: "plain_word t \<Longrightarrow> space_free t"
proof (induction t)
  case Nil
  then show ?case by (simp add: space_free_def)
next
  case (Cons c t)
  have "space_width (c # t) = 0"
  proof (rule ccontr)
    assume "space_width (c # t) \<noteq> 0"
    then obtain e r where "e \<in> set space_encodings" "c # t = e @ r" using space_width_pos by blast
    with Cons.prems show False by (auto simp: plain_word_def space_encodings_def)
  qed
  moreover have "space_free t" using Cons by (simp add: plain_word_def)
  ultimately show ?case by (simp add: space_free_Cons)
qed

lemma Fields_TrimSpace_word: "t \<noteq> [] \<Longrightarrow> plain_word t \<Longrightarrow> Fields (TrimSpace t) = [t]"
  using TrimSpace_Join [of "[t]"] by (simp add: plain_word_space_free Fields_word)

section \<open>Runes\<close>

definition byte_val :: "char \<Rightarrow> nat" where
  "byte_val c = of_char c"

definition RuneError :: nat where
  "RuneError = 0xFFFD"

definition continuation :: "nat \<Rightarrow> bool" where
  "continuation b \<longleftrightarrow> 0x80 \<le> b \<and> b \<le> 0xBF"

text \<open>
  \<open>utf8.DecodeRuneInString\<close>: the first rune and its width, \<open>(RuneError, 1)\<close> for an invalid or
  truncated sequence. The second byte of a three- or four-byte sequence is restricted so that
  overlong forms, surrogates and values beyond U+10FFFF are invalid.
\<close>

definition second_ok :: "nat \<Rightarrow> nat \<Rightarrow> bool" where
  "second_ok b0 b1 \<longleftrightarrow>
    (if b0 = 0xE0 then 0xA0 \<le> b1 \<and> b1 \<le> 0xBF
     else if b0 = 0xED then 0x80 \<le> b1 \<and> b1 \<le> 0x9F
     else if b0 = 0xF0 then 0x90 \<le> b1 \<and> b1 \<le> 0xBF
     else if b0 = 0xF4 then 0x80 \<le> b1 \<and> b1 \<le> 0x8F
     else continuation b1)"

definition DecodeRune :: "string \<Rightarrow> nat \<times> nat" where
  "DecodeRune s =
    (case map byte_val (take 4 s) of
       [] \<Rightarrow> (RuneError, 0)
     | b0 # bs \<Rightarrow>
       if b0 < 0x80 then (b0, 1)
       else if 0xC2 \<le> b0 \<and> b0 \<le> 0xDF then
         (case bs of
            b1 # _ \<Rightarrow> if continuation b1 then ((b0 - 0xC0) * 64 + (b1 - 0x80), 2) else (RuneError, 1)
          | [] \<Rightarrow> (RuneError, 1))
       else if 0xE0 \<le> b0 \<and> b0 \<le> 0xEF then
         (case bs of
            b1 # b2 # _ \<Rightarrow>
              if second_ok b0 b1 \<and> continuation b2
              then ((b0 - 0xE0) * 4096 + (b1 - 0x80) * 64 + (b2 - 0x80), 3) else (RuneError, 1)
          | _ \<Rightarrow> (RuneError, 1))
       else if 0xF0 \<le> b0 \<and> b0 \<le> 0xF4 then
         (case bs of
            [b1, b2, b3] \<Rightarrow>
              if second_ok b0 b1 \<and> continuation b2 \<and> continuation b3
              then ((b0 - 0xF0) * 262144 + (b1 - 0x80) * 4096 + (b2 - 0x80) * 64 + (b3 - 0x80), 4)
              else (RuneError, 1)
          | _ \<Rightarrow> (RuneError, 1))
       else (RuneError, 1))"

text \<open>\<open>utf8.AppendRune\<close>: surrogates and values beyond U+10FFFF are written as U+FFFD.\<close>

definition byte_of :: "nat \<Rightarrow> char" where
  "byte_of n = char_of n"

definition EncodeRune :: "nat \<Rightarrow> string" where
  "EncodeRune r0 =
    (let r = (if 0x10FFFF < r0 \<or> 0xD800 \<le> r0 \<and> r0 \<le> 0xDFFF then RuneError else r0)
     in if r < 0x80 then [byte_of r]
        else if r < 0x800 then [byte_of (0xC0 + r div 64), byte_of (0x80 + r mod 64)]
        else if r < 0x10000 then
          [byte_of (0xE0 + r div 4096), byte_of (0x80 + r div 64 mod 64), byte_of (0x80 + r mod 64)]
        else
          [byte_of (0xF0 + r div 262144), byte_of (0x80 + r div 4096 mod 64),
           byte_of (0x80 + r div 64 mod 64), byte_of (0x80 + r mod 64)])"

lemma DecodeRune_width_pos: "s \<noteq> [] \<Longrightarrow> 0 < snd (DecodeRune s)"
  by (cases s) (auto simp: DecodeRune_def split: list.splits if_splits)

text \<open>The runes a \<open>for range\<close> loop over the string visits.\<close>

function runes :: "string \<Rightarrow> nat list" where
  "runes s = (if s = [] then [] else fst (DecodeRune s) # runes (drop (snd (DecodeRune s)) s))"
  by pat_completeness auto
termination
  by (relation "measure length") (auto simp: DecodeRune_width_pos)

declare runes.simps [simp del]

section \<open>Letter case\<close>

definition ascii_lower :: "char \<Rightarrow> char" where
  "ascii_lower c = (if CHR ''A'' \<le> c \<and> c \<le> CHR ''Z'' then byte_of (byte_val c + 32) else c)"

definition ascii_upper :: "char \<Rightarrow> char" where
  "ascii_upper c = (if CHR ''a'' \<le> c \<and> c \<le> CHR ''z'' then byte_of (byte_val c - 32) else c)"

definition is_ascii :: "string \<Rightarrow> bool" where
  "is_ascii s \<longleftrightarrow> list_all (\<lambda>c. byte_val c < 0x80) s"

lemma runes_ascii: "is_ascii s \<Longrightarrow> runes s = map byte_val s"
  by (induction s) (simp_all add: is_ascii_def runes.simps DecodeRune_def)

text \<open>
  \<open>strings.ToLower\<close> and \<open>strings.ToUpper\<close>: bytewise on ASCII strings, otherwise rune by rune, where
  \<open>u\<close> is the table of package \<open>unicode\<close> for the runes beyond ASCII.
\<close>

definition ToLower :: "(nat \<Rightarrow> nat) \<Rightarrow> string \<Rightarrow> string" where
  "ToLower u s =
    (if is_ascii s then map ascii_lower s
     else concat (map (\<lambda>r. if r < 0x80 then [ascii_lower (byte_of r)] else EncodeRune (u r)) (runes s)))"

definition ToUpper :: "(nat \<Rightarrow> nat) \<Rightarrow> string \<Rightarrow> string" where
  "ToUpper u s =
    (if is_ascii s then map ascii_upper s
     else concat (map (\<lambda>r. if r < 0x80 then [ascii_upper (byte_of r)] else EncodeRune (u r)) (runes s)))"

text \<open>
  \<open>strings.EqualFold\<close> against a constant whose letters fold only to their own two cases, which is
  every ASCII letter but k and s.
\<close>

definition EqualFold :: "string \<Rightarrow> string \<Rightarrow> bool" where
  "EqualFold s t \<longleftrightarrow> map ascii_lower s = map ascii_lower t"

section \<open>Prefixes, substrings, trimming\<close>

definition HasPrefix :: "string \<Rightarrow> string \<Rightarrow> bool" where
  "HasPrefix s p \<longleftrightarrow> take (length p) s = p"

fun Contains :: "string \<Rightarrow> string \<Rightarrow> bool" where
  "Contains [] sub = (sub = [])"
| "Contains (c # s) sub = (HasPrefix (c # s) sub \<or> Contains s sub)"

text \<open>\<open>strings.TrimRight\<close> with a cutset of one byte.\<close>

definition TrimRight :: "string \<Rightarrow> char \<Rightarrow> string" where
  "TrimRight s c = rev (dropWhile (\<lambda>d. d = c) (rev s))"

section \<open>Decimal integers\<close>

definition digit_char :: "nat \<Rightarrow> char" where
  "digit_char n = ''0123456789'' ! n"

definition is_digit :: "char \<Rightarrow> bool" where
  "is_digit c \<longleftrightarrow> c \<in> set ''0123456789''"

definition digit_val :: "char \<Rightarrow> nat" where
  "digit_val c = byte_val c - 48"

fun nat_digits :: "nat \<Rightarrow> string" where
  "nat_digits n = (if n < 10 then [digit_char n] else nat_digits (n div 10) @ [digit_char (n mod 10)])"

declare nat_digits.simps [simp del]

text \<open>\<open>strconv.FormatInt(n, 10)\<close>, \<open>strconv.FormatUint\<close> and the verb \<open>%d\<close>.\<close>

definition FormatInt :: "int \<Rightarrow> string" where
  "FormatInt n = (if n < 0 then CHR ''-'' # nat_digits (nat (- n)) else nat_digits (nat n))"

definition digits_val :: "string \<Rightarrow> nat" where
  "digits_val ds = foldl (\<lambda>a c. 10 * a + digit_val c) 0 ds"

text \<open>
  The value \<open>strconv.ParseInt(s, 10, 64)\<close> returns, whatever its error: 0 on a syntax error, the
  nearest bound on a range error.
\<close>

definition ParseInt64 :: "string \<Rightarrow> int" where
  "ParseInt64 s =
    (let neg = (s \<noteq> [] \<and> hd s = CHR ''-'');
         ds = (if s \<noteq> [] \<and> (hd s = CHR ''-'' \<or> hd s = CHR ''+'') then tl s else s)
     in if ds = [] \<or> \<not> list_all is_digit ds then 0
        else let n = int (digits_val ds)
             in if neg then max (- n) (- (2 ^ 63)) else min n (2 ^ 63 - 1))"

lemma nat_less_10_cases: "(n::nat) < 10 \<Longrightarrow> n \<in> {0, 1, 2, 3, 4, 5, 6, 7, 8, 9}"
  by auto

lemma digit_char_inverse: "n < 10 \<Longrightarrow> is_digit (digit_char n) \<and> digit_val (digit_char n) = n"
  by (drule nat_less_10_cases)
    (auto simp: is_digit_def digit_val_def digit_char_def byte_val_def numeral_eq_Suc)

lemma nat_digits_inverse:
  "nat_digits n \<noteq> [] \<and> list_all is_digit (nat_digits n) \<and> digits_val (nat_digits n) = n"
proof (induction n rule: nat_digits.induct)
  case (1 n)
  show ?case
  proof (cases "n < 10")
    case True
    then show ?thesis
      using digit_char_inverse [of n] by (simp add: nat_digits.simps [of n] digits_val_def)
  next
    case False
    with 1 show ?thesis
      using digit_char_inverse [of "n mod 10"]
      by (simp add: nat_digits.simps [of n] digits_val_def)
  qed
qed

lemma digit_not_sign: "is_digit c \<Longrightarrow> c \<noteq> CHR ''-'' \<and> c \<noteq> CHR ''+''"
  by (auto simp: is_digit_def)

lemma ParseInt64_FormatInt:
  assumes "- (2 ^ 63) \<le> n" and "n < 2 ^ 63"
  shows "ParseInt64 (FormatInt n) = n"
proof (cases "n < 0")
  case True
  with assms nat_digits_inverse [of "nat (- n)"] show ?thesis
    by (simp add: ParseInt64_def FormatInt_def)
next
  case False
  obtain d ds where d: "nat_digits (nat n) = d # ds"
    using nat_digits_inverse [of "nat n"] by (cases "nat_digits (nat n)") auto
  with nat_digits_inverse [of "nat n"] have "is_digit d" by simp
  with False assms nat_digits_inverse [of "nat n"] digit_not_sign [of d] d show ?thesis
    by (simp add: ParseInt64_def FormatInt_def)
qed

end
