(* ===== verification/WmiRows.thy ===== *)
theory WmiRows
  imports Prelude "HOL-Library.Word"
begin

text \<open>
  What the inventory collector reads from the machine (\<open>inventory/collector_windows.go\<close>): the rows of its WMI queries,
  one record per row struct of the source, and the registry values it looks up. Machine integers have the
  width of the source. A query whose error the source ignores is the list of rows it left; a query whose
  error it checks is \<open>None\<close> when it failed.
\<close>

type_synonym u32 = "32 word"
type_synonym u64 = "64 word"

record row_system =
  ws_Name :: string
  ws_Manufacturer :: string
  ws_Model :: string
  ws_Domain :: string
  ws_UserName :: string
  ws_PartOfDomain :: bool
  ws_TotalPhysicalMemory :: u64

record row_product =
  wp_UUID :: string
  wp_Name :: string
  wp_Vendor :: string

record row_enclosure =
  we_SMBIOSAssetTag :: string
  we_SerialNumber :: string

record row_bios =
  wb_Manufacturer :: string
  wb_SMBIOSBIOSVersion :: string
  wb_SerialNumber :: string
  wb_ReleaseDate :: string

record row_board =
  wm_Manufacturer :: string
  wm_Product :: string
  wm_SerialNumber :: string

record row_os =
  wo_Caption :: string
  wo_Version :: string
  wo_BuildNumber :: string
  wo_OSArchitecture :: string
  wo_InstallDate :: string
  wo_LastBootUpTime :: string
  wo_FreePhysicalMemory :: u64
  wo_TotalVisibleMemorySize :: u64

record row_cpu =
  wc_Name :: string
  wc_Manufacturer :: string
  wc_SocketDesignation :: string
  wc_NumberOfLogicalProcessors :: u32
  wc_NumberOfCores :: u32
  wc_ThreadCount :: u32
  wc_MaxClockSpeed :: u32

record row_memory =
  wr_DeviceLocator :: string
  wr_Manufacturer :: string
  wr_PartNumber :: string
  wr_Capacity :: u64
  wr_Speed :: u32

record row_logical =
  wl_DeviceID :: string
  wl_FileSystem :: string
  wl_MediaType :: u32
  wl_Size :: u64
  wl_FreeSpace :: u64
  wl_DriveType :: u32

record row_drive =
  wd_DeviceID :: string
  wd_Model :: string
  wd_SerialNumber :: string
  wd_MediaType :: string
  wd_Status :: string
  wd_Size :: u64

record row_adapter =
  wa_Description :: string
  wa_MACAddress :: string
  wa_DHCPServer :: string
  wa_IPAddress :: "string list"
  wa_DefaultIPGateway :: "string list"
  wa_DNSServerSearchOrder :: "string list"
  wa_DHCPEnabled :: bool

record row_detail =
  wn_Name :: string
  wn_MACAddress :: string
  wn_Speed :: u64
  wn_NetConnectionStatus :: u32

record row_monitor =
  wv_Name :: string
  wv_PNPDeviceID :: string
  wv_ScreenWidth :: u32
  wv_ScreenHeight :: u32

record row_gpu =
  wg_Name :: string
  wg_DriverVersion :: string
  wg_CurrentHorizontalResolution :: u32
  wg_CurrentVerticalResolution :: u32

record row_tpm =
  wt_IsEnabled :: bool
  wt_IsActivated :: bool
  wt_SpecVersion :: string

record row_defender =
  wf_AMServiceEnabled :: bool
  wf_AntispywareEnabled :: bool
  wf_AntivirusEnabled :: bool
  wf_RealTimeProtectionEnabled :: bool

record wmi =
  wq_systems :: "row_system list"
  wq_products :: "row_product list"
  wq_enclosures :: "row_enclosure list"
  wq_bios :: "row_bios list"
  wq_boards :: "row_board list"
  wq_os :: "row_os list"
  wq_processors :: "row_cpu list"
  wq_memory :: "row_memory list"
  wq_logical :: "row_logical list"
  wq_drives :: "row_drive list"
  wq_adapters :: "row_adapter list"
  wq_details :: "row_detail list"
  wq_monitors :: "row_monitor list"
  wq_gpus :: "row_gpu list"
  wq_smart :: "bool list option"
  wq_tpms :: "row_tpm list option"
  wq_volumes :: "u32 list option"
  wq_defender :: "row_defender list option"
  wq_dword :: "string \<Rightarrow> string \<Rightarrow> u64 option"
  wq_string :: "string \<Rightarrow> string \<Rightarrow> string option"
  wq_location :: string

text \<open>A machine whose queries all fail.\<close>

definition wmi_none :: wmi where
  "wmi_none = \<lparr>wq_systems = [], wq_products = [], wq_enclosures = [], wq_bios = [], wq_boards = [], wq_os = [],
    wq_processors = [], wq_memory = [], wq_logical = [], wq_drives = [], wq_adapters = [], wq_details = [],
    wq_monitors = [], wq_gpus = [], wq_smart = None, wq_tpms = None, wq_volumes = None, wq_defender = None,
    wq_dword = (\<lambda>_ _. None), wq_string = (\<lambda>_ _. None), wq_location = ''UTC''\<rparr>"

end
