(* ===== verification/World.thy ===== *)
theory World
  imports Prelude GoStrings WmiRows
begin

text \<open>
  The state the agent's operations work on and the environment they talk to.

  \<^item> \<open>env\<close> collects what is outside the repository and decides the outcome of each interaction: the
    failures of the SQLite driver and of the file system, the readings of the clock, the point at
    which the context is cancelled, the random source, the Windows data protection calls, the
    network with the Portal behind it, the host name, the URL parser, gzip, the YAML codec and the
    Unicode case tables, the order in which Go ranges over a map and picks among ready channels, the
    Windows registry, the rows of the WMI queries (\<open>WmiRows\<close>), the time zone and the programs the agent runs. Outcomes are indexed by a
    counter, so that two calls may differ; no operation changes the environment. Theorems quantify
    over it.
  \<^item> \<open>world\<close> holds the three tables of the SQLite database (\<open>storage/sqlite.go\<close>), the configuration
    file, the counters, and logs of the requests put on the wire, the durations waited, the lines printed
    and the programs run.
\<close>

section \<open>Data crossing the boundary\<close>

text \<open>
  The parts of \<open>http.Request\<close> and \<open>http.Response\<close> the agent sets and reads. A body is absent or a
  reader with its content and the errors, if any, that reading and closing it return.
\<close>

datatype body = NilBody | Body (body_content: string) (body_read_err: "string option") (body_close_err: "string option")

record request =
  rq_method :: string
  rq_url :: string
  rq_path :: string
  rq_header :: "string \<rightharpoonup> string"
  rq_body :: body

record response =
  StatusCode :: int
  Status :: string
  resp_body :: "string + string"

text \<open>The bootstrap configuration (\<open>config/config.go\<close>).\<close>

record config =
  PortalURL :: string
  EnrollmentKey :: string
  TLSValidation :: bool
  Proxy :: string
  LogLevel :: string

record config_row =
  c_value :: string
  c_updated_at :: string

record queue_row =
  q_id :: int
  q_type :: string
  q_payload :: string
  q_status :: string
  q_created_at :: string

record history_row =
  h_id :: int
  h_fingerprint :: string
  h_payload :: string
  h_changes :: string
  h_captured_at :: string

section \<open>Environment and world\<close>

record env =
  o_sql :: "nat \<Rightarrow> string option"
  o_datetime :: "nat \<Rightarrow> string"
  o_fs :: "nat \<Rightarrow> string option"
  o_time :: "nat \<Rightarrow> int"
  o_cancel :: "nat option"
  o_rand :: "nat \<Rightarrow> string + string"
  o_protect :: "nat \<Rightarrow> string \<Rightarrow> string + string"
  o_unprotect :: "nat \<Rightarrow> string \<Rightarrow> string + string"
  o_net :: "nat \<Rightarrow> request \<Rightarrow> string + response"
  o_hostname :: "string + string"
  o_url :: "string \<Rightarrow> string + string"
  o_gzip :: "string \<Rightarrow> string"
  o_yaml_marshal :: "config \<Rightarrow> string + string"
  o_yaml_unmarshal :: "string \<Rightarrow> string + config"
  o_lower :: "nat \<Rightarrow> nat"
  o_upper :: "nat \<Rightarrow> nat"
  o_race :: "nat \<Rightarrow> bool"
  o_perm :: "nat \<Rightarrow> nat \<Rightarrow> nat list"
  o_registry :: "nat \<Rightarrow> nat \<Rightarrow> string + string list"
  o_regkey :: "nat \<Rightarrow> nat \<Rightarrow> string \<Rightarrow> (string \<Rightarrow> string option) option"
  o_zone :: "int \<Rightarrow> int"
  o_exec :: "nat \<Rightarrow> string list \<Rightarrow> string option \<times> string"
  o_goarch :: string
  o_partial :: "nat \<Rightarrow> string option option"
  o_wmi :: "nat \<Rightarrow> wmi"

record world =
  ev :: env
  config_tab :: "string \<rightharpoonup> config_row"
  queue_tab :: "queue_row list"
  history_tab :: "history_row list"
  config_file :: "string option"
  wire :: "request list"
  slept :: "int list"
  stdout :: "string list"
  ran :: "string list list"
  n_sql :: nat
  n_fs :: nat
  n_time :: nat
  n_ctx :: nat
  n_rand :: nat
  n_dp :: nat
  n_map :: nat
  n_reg :: nat

type_synonym 'a go = "(world, 'a) state"

section \<open>Interactions\<close>

text \<open>One step of the SQLite driver: the message it fails with, if it fails.\<close>

definition sql_step :: "string option go" where
  "sql_step = State (\<lambda>w. (o_sql (ev w) (n_sql w), w\<lparr>n_sql := Suc (n_sql w)\<rparr>))"

text \<open>One call into the file system.\<close>

definition fs_step :: "string option go" where
  "fs_step = State (\<lambda>w. (o_fs (ev w) (n_fs w), w\<lparr>n_fs := Suc (n_fs w)\<rparr>))"

definition Time_Now :: "int go" where
  "Time_Now = State (\<lambda>w. (o_time (ev w) (n_time w), w\<lparr>n_time := Suc (n_time w)\<rparr>))"

text \<open>
  \<open>ctx.Err()\<close>: the context is cancelled from one of its observations on, or never
  (\<open>context.Background()\<close>).
\<close>

definition ctx_Err :: "error option go" where
  "ctx_Err = State (\<lambda>w.
    (case o_cancel (ev w) of
       None \<Rightarrow> None
     | Some c \<Rightarrow> if c \<le> n_ctx w then Some CtxCanceled else None, w\<lparr>n_ctx := Suc (n_ctx w)\<rparr>))"

definition rand_Read :: "(string + string) go" where
  "rand_Read = State (\<lambda>w. (o_rand (ev w) (n_rand w), w\<lparr>n_rand := Suc (n_rand w)\<rparr>))"

definition CryptProtectData :: "string \<Rightarrow> (string + string) go" where
  "CryptProtectData x = State (\<lambda>w. (o_protect (ev w) (n_dp w) x, w\<lparr>n_dp := Suc (n_dp w)\<rparr>))"

definition CryptUnprotectData :: "string \<Rightarrow> (string + string) go" where
  "CryptUnprotectData x = State (\<lambda>w. (o_unprotect (ev w) (n_dp w) x, w\<lparr>n_dp := Suc (n_dp w)\<rparr>))"

text \<open>\<open>http.Client.Do\<close>: the request goes on the wire and the network answers it.\<close>

definition HTTP_Do :: "request \<Rightarrow> (string + response) go" where
  "HTTP_Do r = State (\<lambda>w. (o_net (ev w) (length (wire w)) r, w\<lparr>wire := wire w @ [r]\<rparr>))"

definition Time_Sleep :: "int \<Rightarrow> unit go" where
  "Time_Sleep d = State (\<lambda>w. ((), w\<lparr>slept := slept w @ [d]\<rparr>))"

text \<open>
  \<open>select\<close> between the end of the context and a timer of duration \<open>d\<close>: whether the context won. When
  both are ready, Go picks either.
\<close>

definition select_done :: "int \<Rightarrow> bool go" where
  "select_done d = do {
    Time_Sleep d;
    c \<leftarrow> ctx_Err;
    State (\<lambda>w. (c \<noteq> None \<and> o_race (ev w) (n_ctx w), w))
  }"

text \<open>The order in which Go ranges over a map with \<open>k\<close> entries, as positions.\<close>

definition map_order :: "nat \<Rightarrow> nat list go" where
  "map_order k = State (\<lambda>w. (o_perm (ev w) (n_map w) k, w\<lparr>n_map := Suc (n_map w)\<rparr>))"

text \<open>The names of the keys below the \<open>i\<close>-th place in the Windows registry, and the values of one of them.\<close>

definition reg_names :: "nat \<Rightarrow> (string + string list) go" where
  "reg_names i = State (\<lambda>w. (o_registry (ev w) (n_reg w) i, w\<lparr>n_reg := Suc (n_reg w)\<rparr>))"

definition reg_open :: "nat \<Rightarrow> string \<Rightarrow> (string \<Rightarrow> string option) option go" where
  "reg_open i name = State (\<lambda>w. (o_regkey (ev w) (n_reg w) i name, w\<lparr>n_reg := Suc (n_reg w)\<rparr>))"

text \<open>One reading of the machine for the hardware inventory.\<close>

definition wmi_read :: "wmi go" where
  "wmi_read = State (\<lambda>w. (o_wmi (ev w) (n_reg w), w\<lparr>n_reg := Suc (n_reg w)\<rparr>))"

text \<open>
  The configuration file: \<open>os.ReadFile\<close>, whose failure may be that there is no file, and
  \<open>os.WriteFile\<close>, which may fail after it has changed the file.
\<close>

definition ReadFile :: "(string option + string) go" where
  "ReadFile = do {
    f \<leftarrow> fs_step;
    case f of
      Some m \<Rightarrow> State_Monad.return (Inl (Some m))
    | None \<Rightarrow> State (\<lambda>w. (case config_file w of Some d \<Rightarrow> Inr d | None \<Rightarrow> Inl None, w))
  }"

definition WriteFile :: "string \<Rightarrow> string option go" where
  "WriteFile d = do {
    f \<leftarrow> fs_step;
    State (\<lambda>w. (f, case f of
        None \<Rightarrow> w\<lparr>config_file := Some d\<rparr>
      | Some _ \<Rightarrow> (case o_partial (ev w) (n_fs w) of Some c \<Rightarrow> w\<lparr>config_file := c\<rparr> | None \<Rightarrow> w)))
  }"

text \<open>\<open>exec.Command\<close>: the error, if any, and the output.\<close>

definition exec :: "string list \<Rightarrow> (string option \<times> string) go" where
  "exec cmd = State (\<lambda>w. (o_exec (ev w) (length (ran w)) cmd, w\<lparr>ran := ran w @ [cmd]\<rparr>))"

definition Printf :: "string \<Rightarrow> unit go" where
  "Printf s = State (\<lambda>w. ((), w\<lparr>stdout := stdout w @ [s]\<rparr>))"

definition getw :: "(world \<Rightarrow> 'a) \<Rightarrow> 'a go" where
  "getw f = State (\<lambda>w. (f w, w))"

definition putw :: "(world \<Rightarrow> world) \<Rightarrow> unit go" where
  "putw f = State (\<lambda>w. ((), f w))"

lemma run_getw [simp]: "run_state (getw f) w = (f w, w)"
  by (simp add: getw_def)

lemma run_putw [simp]: "run_state (putw f) w = ((), f w)"
  by (simp add: putw_def)

text \<open>
  Frames: which components of the world agree before and after. They are abbreviations, so that a
  lemma about one is a set of rewrite rules.
\<close>

abbreviation same_tables :: "world \<Rightarrow> world \<Rightarrow> bool" where
  "same_tables v w \<equiv> config_tab v = config_tab w \<and> queue_tab v = queue_tab w
    \<and> history_tab v = history_tab w \<and> config_file v = config_file w"

abbreviation same_logs :: "world \<Rightarrow> world \<Rightarrow> bool" where
  "same_logs v w \<equiv> wire v = wire w \<and> slept v = slept w \<and> stdout v = stdout w \<and> ran v = ran w"

abbreviation only_counters :: "world \<Rightarrow> world \<Rightarrow> bool" where
  "only_counters v w \<equiv> ev v = ev w \<and> same_tables v w \<and> same_logs v w"

lemma interaction_frame [simp]:
  "only_counters (snd (run_state sql_step w)) w"
  "only_counters (snd (run_state fs_step w)) w"
  "only_counters (snd (run_state Time_Now w)) w"
  "only_counters (snd (run_state ctx_Err w)) w"
  "only_counters (snd (run_state rand_Read w)) w"
  "only_counters (snd (run_state (CryptProtectData x) w)) w"
  "only_counters (snd (run_state (CryptUnprotectData x) w)) w"
  "only_counters (snd (run_state (map_order k) w)) w"
  "only_counters (snd (run_state (reg_names i) w)) w"
  "only_counters (snd (run_state (reg_open i name) w)) w"
  "only_counters (snd (run_state wmi_read w)) w"
  by (simp_all add: wmi_read_def map_order_def reg_names_def reg_open_def sql_step_def fs_step_def Time_Now_def ctx_Err_def rand_Read_def
      CryptProtectData_def CryptUnprotectData_def)

lemma HTTP_Do_frame [simp]:
  "ev (snd (run_state (HTTP_Do r) w)) = ev w"
  "same_tables (snd (run_state (HTTP_Do r) w)) w"
  "wire (snd (run_state (HTTP_Do r) w)) = wire w @ [r]"
  "slept (snd (run_state (HTTP_Do r) w)) = slept w"
  "stdout (snd (run_state (HTTP_Do r) w)) = stdout w"
  "ran (snd (run_state (HTTP_Do r) w)) = ran w"
  by (simp_all add: HTTP_Do_def)

lemma Time_Sleep_frame [simp]:
  "ev (snd (run_state (Time_Sleep d) w)) = ev w"
  "same_tables (snd (run_state (Time_Sleep d) w)) w"
  "wire (snd (run_state (Time_Sleep d) w)) = wire w"
  "slept (snd (run_state (Time_Sleep d) w)) = slept w @ [d]"
  "stdout (snd (run_state (Time_Sleep d) w)) = stdout w"
  "ran (snd (run_state (Time_Sleep d) w)) = ran w"
  by (simp_all add: Time_Sleep_def)

lemma select_done_frame [simp]:
  "ev (snd (run_state (select_done d) w)) = ev w"
  "same_tables (snd (run_state (select_done d) w)) w"
  "wire (snd (run_state (select_done d) w)) = wire w"
  "slept (snd (run_state (select_done d) w)) = slept w @ [d]"
  "stdout (snd (run_state (select_done d) w)) = stdout w"
  "ran (snd (run_state (select_done d) w)) = ran w"
  by (simp_all add: select_done_def)

lemma ReadFile_frame [simp]: "only_counters (snd (run_state ReadFile w)) w"
  by (simp add: ReadFile_def split: option.split)

lemma WriteFile_frame [simp]:
  "ev (snd (run_state (WriteFile d) w)) = ev w"
  "config_tab (snd (run_state (WriteFile d) w)) = config_tab w"
  "queue_tab (snd (run_state (WriteFile d) w)) = queue_tab w"
  "history_tab (snd (run_state (WriteFile d) w)) = history_tab w"
  "same_logs (snd (run_state (WriteFile d) w)) w"
  by (simp_all add: WriteFile_def split: option.split)

lemma exec_frame [simp]:
  "ev (snd (run_state (exec cmd) w)) = ev w"
  "same_tables (snd (run_state (exec cmd) w)) w"
  "wire (snd (run_state (exec cmd) w)) = wire w"
  "slept (snd (run_state (exec cmd) w)) = slept w"
  "stdout (snd (run_state (exec cmd) w)) = stdout w"
  "ran (snd (run_state (exec cmd) w)) = ran w @ [cmd]"
  by (simp_all add: exec_def)

lemma Printf_frame [simp]:
  "ev (snd (run_state (Printf s) w)) = ev w"
  "same_tables (snd (run_state (Printf s) w)) w"
  "wire (snd (run_state (Printf s) w)) = wire w"
  "slept (snd (run_state (Printf s) w)) = slept w"
  "stdout (snd (run_state (Printf s) w)) = stdout w @ [s]"
  "ran (snd (run_state (Printf s) w)) = ran w"
  by (simp_all add: Printf_def)

section \<open>Well-behaved environments\<close>

text \<open>Predicates on the environment, read off a world by abbreviations, so that frames carry them along.\<close>

definition env_sql_ok :: "env \<Rightarrow> bool" where
  "env_sql_ok E \<longleftrightarrow> (\<forall>n. o_sql E n = None)"

abbreviation sql_ok :: "world \<Rightarrow> bool" where
  "sql_ok w \<equiv> env_sql_ok (ev w)"

definition env_background :: "env \<Rightarrow> bool" where
  "env_background E \<longleftrightarrow> o_cancel E = None"

abbreviation never_cancelled :: "world \<Rightarrow> bool" where
  "never_cancelled w \<equiv> env_background (ev w)"

text \<open>
  The documented contract of the Windows data protection calls for one account: a secret below
  two gigabytes that was protected is recovered, in whatever order the calls are made.
\<close>

definition env_dpapi_ok :: "env \<Rightarrow> bool" where
  "env_dpapi_ok E \<longleftrightarrow>
    (\<forall>n x. x \<noteq> [] \<and> length x < 2 ^ 31 \<longrightarrow> (\<exists>y. y \<noteq> [] \<and> length y < 2 ^ 32 \<and> o_protect E n x = Inr y
      \<and> (\<forall>m. o_unprotect E m y = Inr x)))"

abbreviation dpapi_ok :: "world \<Rightarrow> bool" where
  "dpapi_ok w \<equiv> env_dpapi_ok (ev w)"

definition env_rand_ok :: "env \<Rightarrow> bool" where
  "env_rand_ok E \<longleftrightarrow> (\<forall>n. \<exists>b. o_rand E n = Inr b \<and> length b = 16)"

abbreviation rand_ok :: "world \<Rightarrow> bool" where
  "rand_ok w \<equiv> env_rand_ok (ev w)"

definition env_fs_ok :: "env \<Rightarrow> bool" where
  "env_fs_ok E \<longleftrightarrow> (\<forall>n. o_fs E n = None)"

abbreviation fs_ok :: "world \<Rightarrow> bool" where
  "fs_ok w \<equiv> env_fs_ok (ev w)"

text \<open>What the YAML codec writes for a configuration it reads back.\<close>

definition env_yaml_reads :: "env \<Rightarrow> config \<Rightarrow> bool" where
  "env_yaml_reads E c \<longleftrightarrow> (\<exists>s. o_yaml_marshal E c = Inr s \<and> o_yaml_unmarshal E s = Inr c)"

text \<open>A range over a map visits every entry once.\<close>

definition env_perm_ok :: "env \<Rightarrow> bool" where
  "env_perm_ok E \<longleftrightarrow> (\<forall>n k. mset (o_perm E n k) = mset [0..<k])"

abbreviation perm_ok :: "world \<Rightarrow> bool" where
  "perm_ok w \<equiv> env_perm_ok (ev w)"

lemma fs_step_ok [run_simps]: "fs_ok w \<Longrightarrow> fst (run_state fs_step w) = None"
  by (simp add: env_fs_ok_def fs_step_def)

lemma sql_step_ok [run_simps]: "sql_ok w \<Longrightarrow> fst (run_state sql_step w) = None"
  by (simp add: env_sql_ok_def sql_step_def)

lemma ctx_Err_background [run_simps]: "never_cancelled w \<Longrightarrow> fst (run_state ctx_Err w) = None"
  by (simp add: env_background_def ctx_Err_def)

section \<open>A concrete environment\<close>

text \<open>
  Everything succeeds: protection prefixes a byte, the clock advances by a second per reading, the
  Portal answers every request with an empty 200, the URL parser returns what follows the host.
\<close>

definition env0 :: env where
  "env0 = \<lparr>o_sql = (\<lambda>_. None), o_datetime = (\<lambda>_. ''2026-01-01 00:00:00''), o_fs = (\<lambda>_. None),
    o_time = (\<lambda>n. 1767225600000000000 + int n * 1000000000), o_cancel = None,
    o_rand = (\<lambda>n. Inr (replicate 16 (char_of n))),
    o_protect = (\<lambda>_ x. Inr (CHR ''P'' # x)),
    o_unprotect = (\<lambda>_ y. case y of c # x \<Rightarrow> if c = CHR ''P'' then Inr x else Inl ''bad blob'' | [] \<Rightarrow> Inl ''empty''),
    o_net = (\<lambda>_ _. Inr \<lparr>StatusCode = 200, Status = ''200 OK'', resp_body = Inr []\<rparr>),
    o_hostname = Inr ''host'', o_url = (\<lambda>u. Inr (drop 10 u)), o_gzip = (\<lambda>s. s),
    o_yaml_marshal = (\<lambda>_. Inr ''yaml''),
    o_yaml_unmarshal = (\<lambda>_. Inr
      \<lparr>PortalURL = ''https://portal.example.com'', EnrollmentKey = [], TLSValidation = True, Proxy = [], LogLevel = ''info''\<rparr>),
    o_lower = (\<lambda>r. r), o_upper = (\<lambda>r. r), o_race = (\<lambda>_. True), o_perm = (\<lambda>_ k. [0..<k]),
    o_registry = (\<lambda>_ i. Inl ''no key''), o_regkey = (\<lambda>_ _ _. None), o_zone = (\<lambda>_. 0),
    o_exec = (\<lambda>_ _. (Some ''not found'', [])), o_goarch = ''amd64'', o_partial = (\<lambda>_. None),
    o_wmi = (\<lambda>_. wmi_none)\<rparr>"

definition world0 :: world where
  "world0 = \<lparr>ev = env0, config_tab = Map.empty, queue_tab = [], history_tab = [], config_file = None,
    wire = [], slept = [], stdout = [], ran = [], n_sql = 0, n_fs = 0, n_time = 0, n_ctx = 0, n_rand = 0, n_dp = 0, n_map = 0, n_reg = 0\<rparr>"

lemma world0_ok [simp]:
  "sql_ok world0" "never_cancelled world0" "dpapi_ok world0" "rand_ok world0"
  "perm_ok world0"
  by (simp_all add: env_perm_ok_def world0_def env0_def env_sql_ok_def env_background_def env_dpapi_ok_def env_rand_ok_def)

end
