(* ===== verification/GoCodec.thy ===== *)
theory GoCodec
  imports GoStrings "HOL-Library.Word"
begin

text \<open>
  Encodings and digests of Go's standard library: \<open>encoding/hex\<close>, \<open>encoding/base64\<close>
  (\<open>StdEncoding\<close>), \<open>crypto/sha256\<close> and \<open>crypto/hmac\<close>, as executable functions on byte strings.
  SHA-256 follows FIPS 180-4 on 32-bit words.
\<close>

unbundle bit_operations_syntax

section \<open>Hexadecimal\<close>

definition hex_digit :: "nat \<Rightarrow> char" where
  "hex_digit n = ''0123456789abcdef'' ! n"

definition hex_EncodeToString :: "string \<Rightarrow> string" where
  "hex_EncodeToString s = concat (map (\<lambda>c. [hex_digit (byte_val c div 16), hex_digit (byte_val c mod 16)]) s)"

lemma length_hex [simp]: "length (hex_EncodeToString s) = 2 * length s"
  by (induction s) (auto simp: hex_EncodeToString_def)

section \<open>Base64\<close>

definition b64_char :: "nat \<Rightarrow> char" where
  "b64_char n = ''ABCDEFGHIJKLMNOPQRSTUVWXYZabcdefghijklmnopqrstuvwxyz0123456789+/'' ! n"

definition b64_val :: "char \<Rightarrow> nat option" where
  "b64_val c =
    (if CHR ''A'' \<le> c \<and> c \<le> CHR ''Z'' then Some (byte_val c - 65)
     else if CHR ''a'' \<le> c \<and> c \<le> CHR ''z'' then Some (byte_val c - 71)
     else if CHR ''0'' \<le> c \<and> c \<le> CHR ''9'' then Some (byte_val c + 4)
     else if c = CHR ''+'' then Some 62
     else if c = CHR ''/'' then Some 63 else None)"

fun b64_EncodeToString :: "string \<Rightarrow> string" where
  "b64_EncodeToString [] = []"
| "b64_EncodeToString [a] =
    [b64_char (byte_val a div 4), b64_char (byte_val a mod 4 * 16), CHR ''='', CHR ''='']"
| "b64_EncodeToString [a, b] =
    [b64_char (byte_val a div 4), b64_char (byte_val a mod 4 * 16 + byte_val b div 16),
     b64_char (byte_val b mod 16 * 4), CHR ''='']"
| "b64_EncodeToString (a # b # c # r) =
    [b64_char (byte_val a div 4), b64_char (byte_val a mod 4 * 16 + byte_val b div 16),
     b64_char (byte_val b mod 16 * 4 + byte_val c div 64), b64_char (byte_val c mod 64)]
    @ b64_EncodeToString r"

text \<open>
  \<open>DecodeString\<close> skips carriage returns and line feeds, wants groups of four with padding only in the
  last, and ignores the unused low bits of a padded group.
\<close>

fun b64_groups :: "string \<Rightarrow> string option" where
  "b64_groups [] = Some []"
| "b64_groups (a # b # c # d # r) =
    (case (b64_val a, b64_val b) of
       (Some x, Some y) \<Rightarrow>
         if c = CHR ''='' \<and> d = CHR ''='' \<and> r = [] then Some [byte_of (x * 4 + y div 16)]
         else (case b64_val c of
             None \<Rightarrow> None
           | Some z \<Rightarrow>
             if d = CHR ''='' \<and> r = []
             then Some [byte_of (x * 4 + y div 16), byte_of (y mod 16 * 16 + z div 4)]
             else (case b64_val d of
                 None \<Rightarrow> None
               | Some u \<Rightarrow>
                 map_option (\<lambda>t. byte_of (x * 4 + y div 16) # byte_of (y mod 16 * 16 + z div 4)
                     # byte_of (z mod 4 * 64 + u) # t) (b64_groups r)))
     | _ \<Rightarrow> None)"
| "b64_groups _ = None"

definition b64_DecodeString :: "string \<Rightarrow> string option" where
  "b64_DecodeString s = b64_groups (filter (\<lambda>c. c \<noteq> CHR 0x0D \<and> c \<noteq> CHR 0x0A) s)"

lemma byte_of_byte_val [simp]: "byte_of (byte_val c) = c"
  by (simp add: byte_of_def byte_val_def)

lemma byte_val_less: "byte_val c < 256"
  using of_char_mod_256 [of c, where 'a = nat] by (metis byte_val_def mod_less_divisor zero_less_numeral)

lemma b64_alphabet:
  "\<forall>n\<in>set [0..<64]. b64_val (b64_char n) = Some n \<and> b64_char n \<noteq> CHR ''=''
     \<and> b64_char n \<noteq> CHR 0x0D \<and> b64_char n \<noteq> CHR 0x0A"
  by code_simp

lemma b64_char_facts:
  assumes "n < 64"
  shows "b64_val (b64_char n) = Some n" "b64_char n \<noteq> CHR ''=''"
    "b64_char n \<noteq> CHR 0x0D" "b64_char n \<noteq> CHR 0x0A"
  using b64_alphabet assms by auto

lemma b64_pack:
  assumes "r < k" and "0 < (k::nat)"
  shows "(q * k + r) div k = q" and "(q * k + r) mod k = r"
  using assms by simp_all

lemma byte_quotients:
  "byte_val a div 4 < 64" "byte_val a div 16 < 16" "byte_val a div 64 < 4"
  using byte_val_less [of a] by (simp_all add: less_mult_imp_div_less)

lemma b64_sextets:
  "byte_val a mod 4 * 16 + byte_val b div 16 < 64"
  "byte_val b mod 16 * 4 + byte_val c div 64 < 64"
  "byte_val a mod 4 * 16 < 64" "byte_val b mod 16 * 4 < 64"
proof -
  have "byte_val a mod 4 < 4" "byte_val b mod 16 < 16" by simp_all
  then show "byte_val a mod 4 * 16 + byte_val b div 16 < 64"
    "byte_val b mod 16 * 4 + byte_val c div 64 < 64"
    "byte_val a mod 4 * 16 < 64" "byte_val b mod 16 * 4 < 64"
    using byte_quotients(2) [of b] byte_quotients(3) [of c] by linarith+
qed

lemma b64_unpack:
  "(byte_val a mod 4 * 16 + byte_val b div 16) div 16 = byte_val a mod 4"
  "(byte_val a mod 4 * 16 + byte_val b div 16) mod 16 = byte_val b div 16"
  "(byte_val b mod 16 * 4 + byte_val c div 64) div 4 = byte_val b mod 16"
  "(byte_val b mod 16 * 4 + byte_val c div 64) mod 4 = byte_val c div 64"
  using b64_pack [OF byte_quotients(2) [of b], of "byte_val a mod 4"]
    b64_pack [OF byte_quotients(3) [of c], of "byte_val b mod 16"] by simp_all

lemmas b64_arith = b64_char_facts byte_quotients b64_sextets b64_unpack

lemma b64_no_newline:
  "filter (\<lambda>c. c \<noteq> CHR 0x0D \<and> c \<noteq> CHR 0x0A) (b64_EncodeToString s) = b64_EncodeToString s"
  by (induction s rule: b64_EncodeToString.induct)
    (simp_all add: b64_arith)

lemma b64_groups_encode: "b64_groups (b64_EncodeToString s) = Some s"
  by (induction s rule: b64_EncodeToString.induct)
    (simp_all add: b64_arith)

lemma b64_roundtrip: "b64_DecodeString (b64_EncodeToString s) = Some s"
  by (simp add: b64_DecodeString_def b64_no_newline b64_groups_encode)

section \<open>SHA-256 and HMAC\<close>

type_synonym w32 = "32 word"

definition rotr :: "nat \<Rightarrow> w32 \<Rightarrow> w32" where
  "rotr n x = drop_bit n x OR push_bit (32 - n) x"

definition sha_K :: "w32 list" where
  "sha_K =
   [1116352408, 1899447441, 3049323471, 3921009573, 961987163, 1508970993, 2453635748, 2870763221,
    3624381080, 310598401, 607225278, 1426881987, 1925078388, 2162078206, 2614888103, 3248222580,
    3835390401, 4022224774, 264347078, 604807628, 770255983, 1249150122, 1555081692, 1996064986,
    2554220882, 2821834349, 2952996808, 3210313671, 3336571891, 3584528711, 113926993, 338241895,
    666307205, 773529912, 1294757372, 1396182291, 1695183700, 1986661051, 2177026350, 2456956037,
    2730485921, 2820302411, 3259730800, 3345764771, 3516065817, 3600352804, 4094571909, 275423344,
    430227734, 506948616, 659060556, 883997877, 958139571, 1322822218, 1537002063, 1747873779,
    1955562222, 2024104815, 2227730452, 2361852424, 2428436474, 2756734187, 3204031479, 3329325298]"

definition sha_H0 :: "w32 list" where
  "sha_H0 = [1779033703, 3144134277, 1013904242, 2773480762, 1359893119, 2600822924, 528734635, 1541459225]"

text \<open>The message schedule, newest word first.\<close>

fun sha_extend :: "nat \<Rightarrow> w32 list \<Rightarrow> w32 list" where
  "sha_extend 0 ws = ws"
| "sha_extend (Suc n) ws =
    (let x = ws ! 14; y = ws ! 1;
         s0 = (rotr 7 x XOR rotr 18 x) XOR drop_bit 3 x;
         s1 = (rotr 17 y XOR rotr 19 y) XOR drop_bit 10 y
     in sha_extend n ((ws ! 15 + s0 + ws ! 6 + s1) # ws))"

fun sha_round :: "w32 list \<Rightarrow> w32 \<times> w32 \<Rightarrow> w32 list" where
  "sha_round [a, b, c, d, e, f, g, h] (k, w) =
    (let t1 = h + ((rotr 6 e XOR rotr 11 e) XOR rotr 25 e) + ((e AND f) XOR (NOT e AND g)) + k + w;
         t2 = ((rotr 2 a XOR rotr 13 a) XOR rotr 22 a) + (((a AND b) XOR (a AND c)) XOR (b AND c))
     in [t1 + t2, a, b, c, d + t1, e, f, g])"
| "sha_round st kw = st"

definition sha_block :: "w32 list \<Rightarrow> w32 list \<Rightarrow> w32 list" where
  "sha_block h ws = map2 (+) h (foldl sha_round h (zip sha_K (rev (sha_extend 48 (rev ws)))))"

fun be_words :: "nat list \<Rightarrow> w32 list" where
  "be_words (a # b # c # d # r) = word_of_nat (((a * 256 + b) * 256 + c) * 256 + d) # be_words r"
| "be_words _ = []"

fun sha_blocks :: "nat \<Rightarrow> w32 list \<Rightarrow> w32 list \<Rightarrow> w32 list" where
  "sha_blocks 0 h ws = h"
| "sha_blocks (Suc n) h ws = sha_blocks n (sha_block h (take 16 ws)) (drop 16 ws)"

definition sha_pad :: "nat list \<Rightarrow> nat list" where
  "sha_pad m =
    (let l = length m
     in m @ [128] @ replicate ((119 - l mod 64) mod 64) 0
        @ map (\<lambda>i. l * 8 div 256 ^ (7 - i) mod 256) [0..<8])"

definition sha256_words :: "nat list \<Rightarrow> w32 list" where
  "sha256_words m = (let p = sha_pad m in sha_blocks (length p div 64) sha_H0 (be_words p))"

definition word_bytes :: "w32 \<Rightarrow> string" where
  "word_bytes x =
    (let n = unat x in [byte_of (n div 16777216), byte_of (n div 65536 mod 256),
                        byte_of (n div 256 mod 256), byte_of (n mod 256)])"

definition sha256_Sum256 :: "string \<Rightarrow> string" where
  "sha256_Sum256 s = concat (map word_bytes (sha256_words (map byte_val s)))"

definition byte_xor :: "nat \<Rightarrow> char \<Rightarrow> char" where
  "byte_xor k c = byte_of (byte_val c XOR k)"

definition hmac_sha256 :: "string \<Rightarrow> string \<Rightarrow> string" where
  "hmac_sha256 key msg =
    (let k0 = (if 64 < length key then sha256_Sum256 key else key);
         k = k0 @ replicate (64 - length k0) (byte_of 0)
     in sha256_Sum256 (map (byte_xor 0x5c) k @ sha256_Sum256 (map (byte_xor 0x36) k @ msg)))"

lemma length_sha_round: "length st = 8 \<Longrightarrow> length (sha_round st kw) = 8"
  by (induction st kw rule: sha_round.induct) (auto simp: Let_def)

lemma length_sha_rounds: "length st = 8 \<Longrightarrow> length (foldl sha_round st kws) = 8"
  by (induction kws arbitrary: st) (auto simp: length_sha_round)

lemma length_sha_blocks: "length h = 8 \<Longrightarrow> length (sha_blocks n h ws) = 8"
  by (induction n arbitrary: h ws) (auto simp: sha_block_def length_sha_rounds)

lemma length_sha256 [simp]: "length (sha256_Sum256 s) = 32"
proof -
  have "length (sha256_words m) = 8" for m
    by (simp add: sha256_words_def Let_def length_sha_blocks sha_H0_def)
  moreover have "length (concat (map word_bytes ws)) = 4 * length ws" for ws
    by (induction ws) (auto simp: word_bytes_def Let_def)
  ultimately show ?thesis by (simp add: sha256_Sum256_def)
qed

lemma length_hmac [simp]: "length (hmac_sha256 k m) = 32"
  by (simp add: hmac_sha256_def Let_def)

end
