(* ===== verification/GoTime.thy ===== *)
theory GoTime
  imports GoStrings
begin

text \<open>
  Package \<open>time\<close> as the agent uses it. An instant is the \<^typ>\<open>int\<close> number of nanoseconds since the
  Unix epoch, in UTC; a duration is an \<open>int64\<close> number of nanoseconds, kept in an \<^typ>\<open>int\<close> and
  wrapped by \<open>wrap64\<close> where Go's arithmetic wraps. \<open>FormatRFC3339\<close> and \<open>FormatRFC3339Nano\<close> print an
  instant in the two layouts the agent stores; \<open>ParseRFC3339\<close> is the strict parser Go tries first for
  these layouts (\<open>parseRFC3339\<close>). Strings that only the lenient fallback accepts are errors here;
  the agent itself never writes one.
\<close>

section \<open>Durations\<close>

definition wrap64 :: "int \<Rightarrow> int" where
  "wrap64 x = (x + 2 ^ 63) mod 2 ^ 64 - 2 ^ 63"

abbreviation Second :: int where "Second \<equiv> 1000000000"

abbreviation Millisecond :: int where "Millisecond \<equiv> 1000000"

abbreviation Minute :: int where "Minute \<equiv> 60 * Second"

abbreviation Hour :: int where "Hour \<equiv> 60 * Minute"

lemma wrap64_id: "- (2 ^ 63) \<le> x \<Longrightarrow> x < 2 ^ 63 \<Longrightarrow> wrap64 x = x"
  by (simp add: wrap64_def)

lemma wrap64_seconds: "0 \<le> n \<Longrightarrow> n < 9223372036 \<Longrightarrow> wrap64 (n * Second) = n * Second"
  by (intro wrap64_id) simp_all

lemma wrap64_range: "- (2 ^ 63) \<le> wrap64 x \<and> wrap64 x < 2 ^ 63"
  using pos_mod_bound [of "2 ^ 64 :: int" "x + 2 ^ 63"] pos_mod_sign [of "2 ^ 64 :: int" "x + 2 ^ 63"]
  by (simp add: wrap64_def)

text \<open>Go's integer division truncates towards zero; \<open>Milliseconds\<close> is \<open>d / 1e6\<close>.\<close>

definition Milliseconds :: "int \<Rightarrow> int" where
  "Milliseconds d = sgn d * (\<bar>d\<bar> div Millisecond)"

section \<open>Calendar\<close>

text \<open>Days since 1970-01-01 and proleptic Gregorian dates, with years starting in March.\<close>

definition civil_from_days :: "int \<Rightarrow> int \<times> int \<times> int" where
  "civil_from_days z0 =
    (let z = z0 + 719468;
         era = z div 146097;
         doe = z mod 146097;
         yoe = (doe - doe div 1460 + doe div 36524 - doe div 146096) div 365;
         doy = doe - (365 * yoe + yoe div 4 - yoe div 100);
         mp = (5 * doy + 2) div 153;
         d = doy - (153 * mp + 2) div 5 + 1;
         m = (if mp < 10 then mp + 3 else mp - 9);
         y = yoe + era * 400
     in (if m \<le> 2 then y + 1 else y, m, d))"

definition days_from_civil :: "int \<Rightarrow> int \<Rightarrow> int \<Rightarrow> int" where
  "days_from_civil y0 m d =
    (let y = (if m \<le> 2 then y0 - 1 else y0);
         era = y div 400;
         yoe = y mod 400;
         mp = (if 2 < m then m - 3 else m + 9);
         doy = (153 * mp + 2) div 5 + d - 1;
         doe = yoe * 365 + yoe div 4 - yoe div 100 + doy
     in era * 146097 + doe - 719468)"

definition is_leap :: "int \<Rightarrow> bool" where
  "is_leap y \<longleftrightarrow> y mod 4 = 0 \<and> (y mod 100 \<noteq> 0 \<or> y mod 400 = 0)"

definition days_in :: "int \<Rightarrow> int \<Rightarrow> int" where
  "days_in m y =
    (if m = 2 then (if is_leap y then 29 else 28)
     else if m = 4 \<or> m = 6 \<or> m = 9 \<or> m = 11 then 30 else 31)"

section \<open>Formatting\<close>

definition pad :: "nat \<Rightarrow> int \<Rightarrow> string" where
  "pad w n =
    (let ds = nat_digits (nat \<bar>n\<bar>)
     in (if n < 0 then ''-'' else '''') @ replicate (w - length ds) (CHR ''0'') @ ds)"

definition format_seconds :: "int \<Rightarrow> string" where
  "format_seconds secs =
    (let (y, m, d) = civil_from_days (secs div 86400);
         r = secs mod 86400
     in pad 4 y @ ''-'' @ pad 2 m @ ''-'' @ pad 2 d @ ''T'' @ pad 2 (r div 3600) @ '':''
        @ pad 2 (r div 60 mod 60) @ '':'' @ pad 2 (r mod 60))"

definition FormatRFC3339 :: "int \<Rightarrow> string" where
  "FormatRFC3339 t = format_seconds (t div Second) @ ''Z''"

text \<open>The layout with nine optional digits drops trailing zeros of the fraction, and a bare point.\<close>

definition format_fraction :: "int \<Rightarrow> string" where
  "format_fraction nanos = (if nanos = 0 then '''' else CHR ''.'' # TrimRight (pad 9 nanos) (CHR ''0''))"

definition FormatRFC3339Nano :: "int \<Rightarrow> string" where
  "FormatRFC3339Nano t = format_seconds (t div Second) @ format_fraction (t mod Second) @ ''Z''"

section \<open>Parsing\<close>

definition parse_field :: "string \<Rightarrow> int \<Rightarrow> int \<Rightarrow> int option" where
  "parse_field s lo hi =
    (let n = int (digits_val s)
     in if list_all is_digit s \<and> lo \<le> n \<and> n \<le> hi then Some n else None)"

definition slice :: "nat \<Rightarrow> nat \<Rightarrow> string \<Rightarrow> string" where
  "slice i j s = take (j - i) (drop i s)"

text \<open>Seconds and rest of the string after \<open>2006-01-02T15:04:05\<close>.\<close>

definition parse_seconds :: "string \<Rightarrow> (int \<times> string) option" where
  "parse_seconds s =
    (if length s < 19 then None
     else case (parse_field (slice 0 4 s) 0 9999, parse_field (slice 5 7 s) 1 12) of
       (Some y, Some m) \<Rightarrow>
         (case (parse_field (slice 8 10 s) 1 (days_in m y), parse_field (slice 11 13 s) 0 23,
                parse_field (slice 14 16 s) 0 59, parse_field (slice 17 19 s) 0 59) of
            (Some d, Some h, Some mi, Some se) \<Rightarrow>
              if s ! 4 = CHR ''-'' \<and> s ! 7 = CHR ''-'' \<and> s ! 10 = CHR ''T'' \<and> s ! 13 = CHR '':''
                \<and> s ! 16 = CHR '':''
              then Some (days_from_civil y m d * 86400 + h * 3600 + mi * 60 + se, drop 19 s) else None
          | _ \<Rightarrow> None)
     | _ \<Rightarrow> None)"

definition parse_fraction :: "string \<Rightarrow> int \<times> string" where
  "parse_fraction s =
    (let ds = takeWhile is_digit (tl s)
     in if s \<noteq> [] \<and> hd s = CHR ''.'' \<and> ds \<noteq> []
        then (int (digits_val (take 9 (ds @ ''000000000''))), drop (Suc (length ds)) s) else (0, s))"

definition parse_zone :: "string \<Rightarrow> int option" where
  "parse_zone s =
    (if s = ''Z'' then Some 0
     else if length s \<noteq> 6 then None
     else case (parse_field (slice 1 3 s) 0 23, parse_field (slice 4 6 s) 0 59) of
       (Some h, Some mi) \<Rightarrow>
         if (s ! 0 = CHR ''-'' \<or> s ! 0 = CHR ''+'') \<and> s ! 3 = CHR '':''
         then Some ((if s ! 0 = CHR ''-'' then -1 else 1) * (h * 60 + mi) * 60) else None
     | _ \<Rightarrow> None)"

definition ParseRFC3339 :: "string \<Rightarrow> int option" where
  "ParseRFC3339 s =
    (case parse_seconds s of
       None \<Rightarrow> None
     | Some (secs, r) \<Rightarrow>
       (let (nanos, z) = parse_fraction r
        in case parse_zone z of None \<Rightarrow> None | Some off \<Rightarrow> Some ((secs - off) * Second + nanos)))"

text \<open>The instant together with the offset of the zone it was written in.\<close>

definition ParseZoned :: "string \<Rightarrow> (int \<times> int) option" where
  "ParseZoned s =
    (case parse_seconds s of
       None \<Rightarrow> None
     | Some (secs, r) \<Rightarrow>
       (let (nanos, z) = parse_fraction r
        in case parse_zone z of None \<Rightarrow> None | Some off \<Rightarrow> Some ((secs - off) * Second + nanos, off)))"

section \<open>Zones\<close>

text \<open>
  A local time is an instant in nanoseconds with its zone offset in seconds. \<open>zone\<close> gives the offset of the local
  zone at a second since the epoch.
\<close>

definition zero_time :: int where
  "zero_time = -62135596800 * Second"

definition format_zone :: "int \<Rightarrow> string" where
  "format_zone off =
    (if off = 0 then ''Z''
     else (let m = \<bar>off\<bar> div 60
           in (if off < 0 \<and> m \<noteq> 0 then ''-'' else ''+'') @ pad 2 (m div 60) @ '':'' @ pad 2 (m mod 60)))"

definition FormatZonedNano :: "int \<times> int \<Rightarrow> string" where
  "FormatZonedNano t =
    (let secs = fst t div Second + snd t
     in format_seconds secs @ format_fraction (fst t mod Second) @ format_zone (snd t))"

text \<open>\<open>MarshalJSON\<close> refuses years beyond four digits and offsets of a day or more.\<close>

definition time_text :: "int \<times> int \<Rightarrow> string option" where
  "time_text t =
    (let (y, _, _) = civil_from_days ((fst t div Second + snd t) div 86400)
     in if y < 0 \<or> 9999 < y \<or> 24 * 60 * 60 \<le> \<bar>snd t\<bar> then None else Some (FormatZonedNano t))"

lemma epoch_day: "civil_from_days 0 = (1970, 1, 1)"
  by code_simp

lemma time_text_epoch: "time_text (0, 0) = Some (FormatZonedNano (0, 0))"
  by (simp add: time_text_def epoch_day)

text \<open>\<open>time.ParseInLocation("20060102", s, time.Local)\<close>: midnight of a local day.\<close>

definition ParseLocalDay :: "(int \<Rightarrow> int) \<Rightarrow> string \<Rightarrow> (int \<times> int) option" where
  "ParseLocalDay zone s =
    (if length s \<noteq> 8 then None
     else case (parse_field (slice 0 4 s) 0 9999, parse_field (slice 4 6 s) 1 12) of
       (Some y, Some m) \<Rightarrow>
         (case parse_field (slice 6 8 s) 1 (days_in m y) of
            Some d \<Rightarrow>
              (let u = days_from_civil y m d * 86400;
                   i = u - zone (u - zone u)
               in Some (i * Second, zone i))
          | None \<Rightarrow> None)
     | _ \<Rightarrow> None)"

end
