(* ===== verification/Security.thy ===== *)
theory Security
  imports World GoCodec GoTime
begin

text \<open>
  Package \<open>internal/security\<close>: the HMAC request signature (\<open>signing.go\<close>) with its \<open>byteReader\<close>, and the
  protection of secrets by the Windows data protection calls (\<open>dpapi.go\<close>), which are part of the
  environment.
\<close>

section \<open>Request headers\<close>

text \<open>\<open>http.Header.Set\<close> and \<open>Get\<close> on token keys: the key is put in canonical form.\<close>

fun canonical_key :: "bool \<Rightarrow> string \<Rightarrow> string" where
  "canonical_key up [] = []"
| "canonical_key up (c # r) = (if up then ascii_upper c else ascii_lower c) # canonical_key (c = CHR ''-'') r"

definition Header_Set :: "string \<Rightarrow> string \<Rightarrow> request \<Rightarrow> request" where
  "Header_Set k v r = r\<lparr>rq_header := (rq_header r)(canonical_key True k \<mapsto> v)\<rparr>"

definition Header_Get :: "request \<Rightarrow> string \<Rightarrow> string" where
  "Header_Get r k = (case rq_header r (canonical_key True k) of Some v \<Rightarrow> v | None \<Rightarrow> [])"

lemma header_keys:
  "canonical_key True ''X-ITPortal-Signature'' = ''X-Itportal-Signature''"
  "canonical_key True ''X-ITPortal-Nonce'' = ''X-Itportal-Nonce''"
  "canonical_key True ''X-ITPortal-Timestamp'' = ''X-Itportal-Timestamp''"
  "canonical_key True ''Authorization'' = ''Authorization''"
  "canonical_key True ''Content-Type'' = ''Content-Type''"
  "canonical_key True ''Content-Encoding'' = ''Content-Encoding''"
  by code_simp+

declare canonical_key.simps [simp del]

lemma Header_Set_frame [simp]:
  "rq_method (Header_Set k v r) = rq_method r" "rq_url (Header_Set k v r) = rq_url r"
  "rq_path (Header_Set k v r) = rq_path r" "rq_body (Header_Set k v r) = rq_body r"
  by (simp_all add: Header_Set_def)

lemma Header_Get_Set:
  "Header_Get (Header_Set k v r) k' =
    (if canonical_key True k' = canonical_key True k then v else Header_Get r k')"
  by (simp add: Header_Get_def Header_Set_def)

section \<open>The byte reader\<close>

record byteReader =
  br_data :: string
  br_offset :: nat

definition bytesReader :: "string \<Rightarrow> byteReader" where
  "bytesReader d = \<lparr>br_data = d, br_offset = 0\<rparr>"

text \<open>\<open>Read\<close> into a buffer of \<open>n\<close> bytes: the bytes copied and whether the reader reports \<open>io.EOF\<close>.\<close>

definition byteReader_Read :: "nat \<Rightarrow> byteReader \<Rightarrow> (string \<times> bool) \<times> byteReader" where
  "byteReader_Read n r =
    (if length (br_data r) \<le> br_offset r then (([], True), r)
     else let b = take n (drop (br_offset r) (br_data r))
          in ((b, False), r\<lparr>br_offset := br_offset r + length b\<rparr>))"

text \<open>
  \<open>io.ReadAll\<close> over it: read into the free space until EOF. The free space of the \<open>i\<close>-th call is
  up to the runtime (\<open>room i\<close>, never 0); fuel bounds the number of calls.
\<close>

fun ReadAll :: "nat \<Rightarrow> (nat \<Rightarrow> nat) \<Rightarrow> nat \<Rightarrow> byteReader \<Rightarrow> string option" where
  "ReadAll 0 room i r = None"
| "ReadAll (Suc fuel) room i r =
    (let ((b, eof), r') = byteReader_Read (room i) r
     in if eof then Some b else map_option (\<lambda>t. b @ t) (ReadAll fuel room (Suc i) r'))"

lemma ReadAll_from:
  assumes "\<forall>i. 0 < room i" and "length (br_data r) - br_offset r < fuel"
  shows "ReadAll fuel room i r = Some (drop (br_offset r) (br_data r))"
  using assms(2)
proof (induction fuel arbitrary: i r)
  case 0
  then show ?case by simp
next
  case (Suc fuel)
  show ?case
  proof (cases "length (br_data r) \<le> br_offset r")
    case True
    then show ?thesis by (simp add: byteReader_Read_def)
  next
    case False
    let ?b = "take (room i) (drop (br_offset r) (br_data r))"
    from False assms(1) have "0 < length ?b" by (simp add: min_def)
    with Suc.prems have
      "length (br_data (r\<lparr>br_offset := br_offset r + length ?b\<rparr>)) - br_offset (r\<lparr>br_offset := br_offset r + length ?b\<rparr>) < fuel"
      by (auto simp: min_def)
    note Suc.IH [OF this, of "Suc i"]
    moreover have "?b @ drop (br_offset r + length ?b) (br_data r) = drop (br_offset r) (br_data r)"
      using take_append_drop_length [of "room i" "drop (br_offset r) (br_data r)"]
      by (simp add: add.commute)
    ultimately show ?thesis
      using False by (simp add: byteReader_Read_def Let_def)
  qed
qed

section \<open>Signing\<close>

definition nl :: string where "nl = [CHR 0x0A]"

definition canonical_string :: "string \<Rightarrow> string \<Rightarrow> string \<Rightarrow> string \<Rightarrow> string \<Rightarrow> string" where
  "canonical_string timestamp nonce meth path content =
    timestamp @ nl @ nonce @ nl @ meth @ nl @ path @ nl @ hex_EncodeToString (sha256_Sum256 content)"

definition SignRequest :: "request \<Rightarrow> string \<Rightarrow> int \<Rightarrow> request result go" where
  "SignRequest r token now =
    (let b = (case rq_body r of NilBody \<Rightarrow> Body [] None None | Body c re ce \<Rightarrow> Body c re ce)
     in case body_read_err b of
       Some m \<Rightarrow> State_Monad.return (Inl (Wrapf ''read request body: '' (Errorf m) []))
     | None \<Rightarrow>
       (case body_close_err b of
          Some m \<Rightarrow> State_Monad.return (Inl (Wrapf ''close request body: '' (Errorf m) []))
        | None \<Rightarrow>
          do {
            nonceBytes \<leftarrow> rand_Read;
            case nonceBytes of
              Inl m \<Rightarrow> State_Monad.return (Inl (Wrapf ''generate nonce: '' (Errorf m) []))
            | Inr bytes \<Rightarrow>
              (let timestamp = FormatInt (now div Second);
                   nonce = hex_EncodeToString bytes;
                   canonical = canonical_string timestamp nonce (rq_method r) (rq_path r) (body_content b);
                   mac = hmac_sha256 token canonical
               in State_Monad.return (Inr
                 (Header_Set ''X-ITPortal-Signature'' (hex_EncodeToString mac)
                   (Header_Set ''X-ITPortal-Nonce'' nonce
                     (Header_Set ''X-ITPortal-Timestamp'' timestamp
                       (r\<lparr>rq_body := Body (body_content b) None None\<rparr>))))))
          }))"

text \<open>
  What the receiving side checks: the signature header is the HMAC, under the token, of the canonical
  string built from the other two headers, the method, the path and the body.
\<close>

definition signature_valid :: "string \<Rightarrow> request \<Rightarrow> bool" where
  "signature_valid token r \<longleftrightarrow>
    rq_body r \<noteq> NilBody \<and>
    Header_Get r ''X-ITPortal-Signature'' =
      hex_EncodeToString (hmac_sha256 token
        (canonical_string (Header_Get r ''X-ITPortal-Timestamp'') (Header_Get r ''X-ITPortal-Nonce'')
          (rq_method r) (rq_path r) (body_content (rq_body r))))"

text \<open>The canonical names of the three headers the signature consists of.\<close>

definition signature_headers :: "string set" where
  "signature_headers = {''X-Itportal-Signature'', ''X-Itportal-Nonce'', ''X-Itportal-Timestamp''}"

lemma rq_header_Set:
  "rq_header (Header_Set k v r) k' = (if k' = canonical_key True k then Some v else rq_header r k')"
  by (simp add: Header_Set_def)

definition readable :: "body \<Rightarrow> bool" where
  "readable b \<longleftrightarrow> (b = NilBody \<or> body_read_err b = None \<and> body_close_err b = None)"

definition content :: "body \<Rightarrow> string" where
  "content b = (case b of NilBody \<Rightarrow> [] | Body c _ _ \<Rightarrow> c)"

lemma SignRequest_frame [simp]:
  "only_counters (snd (run_state (SignRequest r token now) w)) w"
  by (simp add: SignRequest_def Let_def split: option.split sum.split)

text \<open>A request that could be signed: what changed in it, and what stayed.\<close>

lemma SignRequest_result:
  assumes "fst (run_state (SignRequest r token now) w) = Inr s"
  shows "signature_valid token s" "rq_method s = rq_method r" "rq_url s = rq_url r" "rq_path s = rq_path r"
    "rq_body s = Body (content (rq_body r)) None None" "readable (rq_body r)"
    "Header_Get s ''X-ITPortal-Timestamp'' = FormatInt (now div Second)"
    "\<exists>b. fst (run_state rand_Read w) = Inr b \<and> Header_Get s ''X-ITPortal-Nonce'' = hex_EncodeToString b"
    "k \<notin> signature_headers \<Longrightarrow> rq_header s k = rq_header r k"
  using assms
  by (auto simp: SignRequest_def Let_def signature_valid_def Header_Get_Set header_keys content_def
      readable_def signature_headers_def
      rq_header_Set split: option.splits sum.splits body.splits)

lemma SignRequest_ok:
  assumes "readable (rq_body r)" and "rand_ok w"
  shows "\<exists>s. fst (run_state (SignRequest r token now) w) = Inr s"
  using assms
  by (cases "rq_body r")
    (auto simp: SignRequest_def Let_def readable_def rand_Read_def env_rand_ok_def split: sum.split,
      (metis Inl_Inr_False)+)

section \<open>Protected secrets\<close>

text \<open>
  \<open>transform\<close> hands the buffer to the system with a 32-bit length. The two callers pass the procedure.
\<close>

definition transform :: "string \<Rightarrow> (string \<Rightarrow> (string + string) go) \<Rightarrow> string result go" where
  "transform v procedure =
    (if v = [] then State_Monad.return (Inl (Errorf ''secret is empty''))
     else do {
       r \<leftarrow> procedure (take (length v mod 2 ^ 32) v);
       case r of
         Inl callErr \<Rightarrow>
           State_Monad.return (Inl (Wrapf ''Windows data protection operation failed: '' (Errorf callErr) []))
       | Inr out \<Rightarrow> State_Monad.return (Inr out)
     })"

definition ProtectSecret :: "string \<Rightarrow> string result go" where
  "ProtectSecret v = transform v CryptProtectData"

definition UnprotectSecret :: "string \<Rightarrow> string result go" where
  "UnprotectSecret v = transform v CryptUnprotectData"

lemma Protect_frame [simp]:
  "only_counters (snd (run_state (ProtectSecret v) w)) w"
  "only_counters (snd (run_state (UnprotectSecret v) w)) w"
  by (simp_all add: ProtectSecret_def UnprotectSecret_def transform_def split: sum.split)

section \<open>Properties\<close>

text \<open>
  C25. A signed request verifies. When the body can be read, closed and the random source works,
  \<open>SignRequest\<close> succeeds: the signature header is the HMAC under the token over the timestamp and
  nonce headers, method, path and body hash of the very request returned, the timestamp is the given
  time in seconds, the nonce is 32 hexadecimal characters, and method, URL, body and all other headers
  are those of the request given. When the body cannot be read or closed, it is an error.
\<close>

theorem SignRequest_verifies:
  assumes "rand_ok w"
  shows "case fst (run_state (SignRequest r token now) w) of
      Inl e \<Rightarrow> \<not> readable (rq_body r)
    | Inr s \<Rightarrow> readable (rq_body r) \<and> signature_valid token s
        \<and> Header_Get s ''X-ITPortal-Timestamp'' = FormatInt (now div Second)
        \<and> length (Header_Get s ''X-ITPortal-Nonce'') = 32
        \<and> rq_method s = rq_method r \<and> rq_url s = rq_url r \<and> rq_path s = rq_path r
        \<and> rq_body s = Body (content (rq_body r)) None None
        \<and> (\<forall>k. k \<notin> signature_headers \<longrightarrow> rq_header s k = rq_header r k)"
proof (cases "fst (run_state (SignRequest r token now) w)")
  case (Inl e)
  then show ?thesis using SignRequest_ok [OF _ assms, of r token now] by auto
next
  case (Inr s)
  obtain b where b: "fst (run_state rand_Read w) = Inr b" "Header_Get s ''X-ITPortal-Nonce'' = hex_EncodeToString b"
    using SignRequest_result(8) [OF Inr] by blast
  then have "length b = 16"
    using assms by (auto simp: env_rand_ok_def rand_Read_def dest: spec [of _ "n_rand w"])
  with b SignRequest_result [OF Inr] Inr show ?thesis by simp
qed

theorem SignRequest_verifies_witness:
  "\<exists>s. fst (run_state (SignRequest \<lparr>rq_method = ''GET'', rq_url = ''https://p/x'', rq_path = ''/x'',
      rq_header = Map.empty, rq_body = NilBody\<rparr> ''tok'' 1767225600000000000) world0) = Inr s
    \<and> signature_valid ''tok'' s"
proof -
  let ?r = "\<lparr>rq_method = ''GET'', rq_url = ''https://p/x'', rq_path = ''/x'', rq_header = Map.empty, rq_body = NilBody\<rparr>"
  have "readable (rq_body ?r)" by (simp add: readable_def)
  then show ?thesis
    using SignRequest_verifies [OF world0_ok(4), of ?r "''tok''" 1767225600000000000]
    by (simp split: sum.splits)
qed

text \<open>
  C40. The reader that replaces the consumed body delivers all of it and ends: reading from any offset
  into buffers of whatever positive sizes returns exactly the bytes from that offset on, within one call
  per byte left and one more for the end of file.
\<close>

theorem byteReader_delivers:
  assumes "\<forall>i. 0 < room i" and "length (br_data r) < fuel"
  shows "ReadAll fuel room i r = Some (drop (br_offset r) (br_data r))
    \<and> ReadAll fuel room i (bytesReader (br_data r)) = Some (br_data r)"
  using ReadAll_from [OF assms(1), of r fuel i] ReadAll_from [OF assms(1), of "bytesReader (br_data r)" fuel i] assms(2)
  by (simp add: bytesReader_def)

theorem byteReader_delivers_witness:
  "ReadAll 6 (\<lambda>i. Suc i) 0 \<lparr>br_data = ''hello'', br_offset = 2\<rparr> = Some ''llo''"
  using byteReader_delivers [of "\<lambda>i. Suc i" "\<lparr>br_data = ''hello'', br_offset = 2\<rparr>" 6 0] by simp

end
