(* ===== verification/Storage.thy ===== *)
theory Storage
  imports Security
begin

text \<open>
  Package \<open>internal/storage\<close> (\<open>sqlite.go\<close>): the key/value table \<open>config\<close>, secrets on top of it, the
  offline \<open>queue\<close> and the \<open>inventory_history\<close>. Each SQL statement of the source is one operation on the
  tables of the world; any step of the driver may fail with a message of the environment, and a
  failed statement changes nothing. SQLite assigns to an \<open>INTEGER PRIMARY KEY\<close> one more than the
  largest id in use. Two interfaces are stated as locales and interpreted at the end: the key/value
  store the configuration, heartbeat and inventory code relies on, and the first-in first-out
  queue the sync engine relies on.
\<close>

section \<open>Key/value pairs\<close>

definition Put :: "string \<Rightarrow> string \<Rightarrow> error option go" where
  "Put key v = do {
    f \<leftarrow> sql_step;
    case f of
      Some m \<Rightarrow> State_Monad.return (Some (Wrapf (''store '' @ key @ '': '') (Errorf m) []))
    | None \<Rightarrow> do {
        putw (\<lambda>w. w\<lparr>config_tab := (config_tab w)
          (key \<mapsto> \<lparr>c_value = v, c_updated_at = o_datetime (ev w) (n_sql w)\<rparr>)\<rparr>);
        State_Monad.return None
      }
  }"

text \<open>\<open>Get\<close> returns a value, a flag and an error: here an error, or the value if there is one.\<close>

definition Get :: "string \<Rightarrow> string option result go" where
  "Get key = do {
    f \<leftarrow> sql_step;
    case f of
      Some m \<Rightarrow> State_Monad.return (Inl (Wrapf (''read '' @ key @ '': '') (Errorf m) []))
    | None \<Rightarrow> do {
        row \<leftarrow> getw (\<lambda>w. config_tab w key);
        State_Monad.return (Inr (map_option c_value row))
      }
  }"

definition PutSecret :: "string \<Rightarrow> string \<Rightarrow> error option go" where
  "PutSecret key v = do {
    protected \<leftarrow> ProtectSecret v;
    case protected of
      Inl e \<Rightarrow> State_Monad.return (Some (Wrapf (''protect '' @ key @ '': '') e []))
    | Inr p \<Rightarrow> Put key (b64_EncodeToString p)
  }"

definition GetSecret :: "string \<Rightarrow> string option result go" where
  "GetSecret key = do {
    r \<leftarrow> Get key;
    case r of
      Inl e \<Rightarrow> State_Monad.return (Inl e)
    | Inr None \<Rightarrow> State_Monad.return (Inr None)
    | Inr (Some encoded) \<Rightarrow>
      (case b64_DecodeString encoded of
         None \<Rightarrow> State_Monad.return
           (Inl (Wrapf (''decode protected '' @ key @ '': '') (Errorf ''illegal base64 data'') []))
       | Some protected \<Rightarrow> do {
           plain \<leftarrow> UnprotectSecret protected;
           case plain of
             Inl e \<Rightarrow> State_Monad.return (Inl (Wrapf (''unprotect '' @ key @ '': '') e []))
           | Inr p \<Rightarrow> State_Monad.return (Inr (Some p))
         })
  }"

section \<open>The offline queue\<close>

record QueueItem =
  ID :: int
  Type :: string
  Payload :: string
  CreatedAt :: "int option"

definition next_rowid :: "int list \<Rightarrow> int" where
  "next_rowid ids = (if ids = [] then 1 else Max (set ids) + 1)"

definition Enqueue :: "string \<Rightarrow> string \<Rightarrow> error option go" where
  "Enqueue itemType payload = do {
    t \<leftarrow> Time_Now;
    f \<leftarrow> sql_step;
    case f of
      Some m \<Rightarrow> State_Monad.return (Some (Wrapf (''enqueue '' @ itemType @ '': '') (Errorf m) []))
    | None \<Rightarrow> do {
        putw (\<lambda>w. w\<lparr>queue_tab := queue_tab w @
          [\<lparr>q_id = next_rowid (map q_id (queue_tab w)), q_type = itemType, q_payload = payload,
            q_status = ''pending'', q_created_at = FormatRFC3339Nano t\<rparr>]\<rparr>);
        State_Monad.return None
      }
  }"

text \<open>
  The rows of \<open>SELECT ... WHERE status = 'pending' ORDER BY id ASC LIMIT ?\<close>, and the loop that scans
  them: scanning a row may fail, and so may the iteration as a whole.
\<close>

definition select_pending :: "nat \<Rightarrow> queue_row list \<Rightarrow> queue_row list" where
  "select_pending limit rows = take limit (sort_key q_id (filter (\<lambda>r. q_status r = ''pending'') rows))"

definition queue_item :: "queue_row \<Rightarrow> QueueItem" where
  "queue_item r = \<lparr>ID = q_id r, Type = q_type r, Payload = q_payload r,
    CreatedAt = ParseRFC3339 (q_created_at r)\<rparr>"

fun scan_rows :: "queue_row list \<Rightarrow> QueueItem list result go" where
  "scan_rows [] = do {
    f \<leftarrow> sql_step;
    State_Monad.return (case f of
      Some m \<Rightarrow> Inl (Wrapf ''iterate pending queue: '' (Errorf m) [])
    | None \<Rightarrow> Inr [])
  }"
| "scan_rows (r # rs) = do {
    f \<leftarrow> sql_step;
    case f of
      Some m \<Rightarrow> State_Monad.return (Inl (Wrapf ''scan pending queue: '' (Errorf m) []))
    | None \<Rightarrow> do {
        rest \<leftarrow> scan_rows rs;
        State_Monad.return (case rest of Inl e \<Rightarrow> Inl e | Inr items \<Rightarrow> Inr (queue_item r # items))
      }
  }"

definition Pending :: "int \<Rightarrow> QueueItem list result go" where
  "Pending limit0 = (let limit = (if limit0 \<le> 0 then 100 else limit0) in do {
    f \<leftarrow> sql_step;
    case f of
      Some m \<Rightarrow> State_Monad.return (Inl (Wrapf ''read pending queue: '' (Errorf m) []))
    | None \<Rightarrow> do {
        rows \<leftarrow> getw (\<lambda>w. select_pending (nat limit) (queue_tab w));
        scan_rows rows
      }
  })"

definition DeleteQueueItem :: "int \<Rightarrow> error option go" where
  "DeleteQueueItem i = do {
    f \<leftarrow> sql_step;
    case f of
      Some m \<Rightarrow> State_Monad.return (Some (Wrapf (''delete queue item '' @ FormatInt i @ '': '') (Errorf m) []))
    | None \<Rightarrow> do {
        putw (\<lambda>w. w\<lparr>queue_tab := filter (\<lambda>r. q_id r \<noteq> i) (queue_tab w)\<rparr>);
        State_Monad.return None
      }
  }"

definition QueueSize :: "int result go" where
  "QueueSize = do {
    f \<leftarrow> sql_step;
    case f of
      Some m \<Rightarrow> State_Monad.return (Inl (Wrapf ''count queue: '' (Errorf m) []))
    | None \<Rightarrow> do {
        n \<leftarrow> getw (\<lambda>w. int (length (filter (\<lambda>r. q_status r = ''pending'') (queue_tab w))));
        State_Monad.return (Inr n)
      }
  }"

definition RecordInventoryHistory :: "string \<Rightarrow> string \<Rightarrow> string \<Rightarrow> error option go" where
  "RecordInventoryHistory fingerprint payload changes = do {
    t \<leftarrow> Time_Now;
    f \<leftarrow> sql_step;
    case f of
      Some m \<Rightarrow> State_Monad.return (Some (Wrapf ''record inventory history: '' (Errorf m) []))
    | None \<Rightarrow> do {
        putw (\<lambda>w. w\<lparr>history_tab := history_tab w @
          [\<lparr>h_id = next_rowid (map h_id (history_tab w)), h_fingerprint = fingerprint, h_payload = payload,
            h_changes = changes, h_captured_at = FormatRFC3339Nano t\<rparr>]\<rparr>);
        State_Monad.return None
      }
  }"

text \<open>
  \<open>Open\<close>: open, ping and the four statements of the schema, which create each table if it is missing;
  the tables of the world start out empty. The database is closed on every error path.
\<close>

fun run_schema :: "nat \<Rightarrow> error option go" where
  "run_schema 0 = State_Monad.return None"
| "run_schema (Suc n) = do {
    f \<leftarrow> sql_step;
    case f of
      Some m \<Rightarrow> State_Monad.return (Some (Wrapf ''migrate database: '' (Errorf m) []))
    | None \<Rightarrow> run_schema n
  }"

definition Open :: "error option go" where
  "Open = do {
    f \<leftarrow> sql_step;
    case f of
      Some m \<Rightarrow> State_Monad.return (Some (Wrapf ''open database: '' (Errorf m) []))
    | None \<Rightarrow> do {
        p \<leftarrow> sql_step;
        case p of
          Some m \<Rightarrow> State_Monad.return (Some (Wrapf ''ping database: '' (Errorf m) []))
        | None \<Rightarrow> run_schema 4
      }
  }"

section \<open>What each operation leaves alone\<close>

lemma Get_frame [simp]: "only_counters (snd (run_state (Get key) w)) w"
  by (simp add: Get_def split: option.split)

lemma GetSecret_frame [simp]: "only_counters (snd (run_state (GetSecret key) w)) w"
  by (simp add: GetSecret_def split: option.split sum.split)

lemma scan_rows_frame [simp]: "only_counters (snd (run_state (scan_rows rs) w)) w"
  by (induction rs arbitrary: w) (simp_all split: option.split)

lemma Pending_frame [simp]: "only_counters (snd (run_state (Pending n) w)) w"
  by (simp add: Pending_def Let_def split: option.split)

lemma QueueSize_frame [simp]: "only_counters (snd (run_state QueueSize w)) w"
  by (simp add: QueueSize_def split: option.split)

text \<open>Everything but the named table.\<close>

abbreviation only_config :: "world \<Rightarrow> world \<Rightarrow> bool" where
  "only_config v w \<equiv> ev v = ev w \<and> queue_tab v = queue_tab w \<and> history_tab v = history_tab w
    \<and> config_file v = config_file w \<and> same_logs v w"

abbreviation only_queue :: "world \<Rightarrow> world \<Rightarrow> bool" where
  "only_queue v w \<equiv> ev v = ev w \<and> config_tab v = config_tab w \<and> history_tab v = history_tab w
    \<and> config_file v = config_file w \<and> same_logs v w"

abbreviation only_history :: "world \<Rightarrow> world \<Rightarrow> bool" where
  "only_history v w \<equiv> ev v = ev w \<and> config_tab v = config_tab w \<and> queue_tab v = queue_tab w
    \<and> config_file v = config_file w \<and> same_logs v w"

lemma Put_frame [simp]: "only_config (snd (run_state (Put key v) w)) w"
  by (simp add: Put_def split: option.split)

lemma PutSecret_frame [simp]: "only_config (snd (run_state (PutSecret key v) w)) w"
  by (simp add: PutSecret_def split: sum.split)

lemma Enqueue_frame [simp]: "only_queue (snd (run_state (Enqueue t p) w)) w"
  by (simp add: Enqueue_def split: option.split)

lemma DeleteQueueItem_frame [simp]: "only_queue (snd (run_state (DeleteQueueItem i) w)) w"
  by (simp add: DeleteQueueItem_def split: option.split)

lemma RecordInventoryHistory_frame [simp]:
  "only_history (snd (run_state (RecordInventoryHistory f p c) w)) w"
  by (simp add: RecordInventoryHistory_def split: option.split)

section \<open>The key/value view\<close>

definition tab_value :: "(string \<rightharpoonup> config_row) \<Rightarrow> string \<Rightarrow> string option" where
  "tab_value tab key = map_option c_value (tab key)"

abbreviation kv :: "world \<Rightarrow> string \<Rightarrow> string option" where
  "kv w \<equiv> tab_value (config_tab w)"

lemma kv_Put:
  "kv (snd (run_state (Put key v) w)) =
    (if fst (run_state (Put key v) w) = None then (kv w)(key \<mapsto> v) else kv w)"
  by (auto simp: Put_def tab_value_def fun_eq_iff split: option.split)

lemma Get_result: "fst (run_state (Get key) w) = Inr x \<Longrightarrow> x = kv w key"
  by (auto simp: Get_def tab_value_def split: option.splits)

lemma Get_ok [run_simps]: "sql_ok w \<Longrightarrow> fst (run_state (Get key) w) = Inr (kv w key)"
  by (simp add: Get_def run_simps tab_value_def)

lemma Put_ok [run_simps]: "sql_ok w \<Longrightarrow> fst (run_state (Put key v) w) = None"
  by (simp add: Put_def run_simps)

text \<open>The store interface: what a lookup returns after an update, as long as the driver does not fail.\<close>

locale kv_store =
  fixes inv :: "'s \<Rightarrow> bool"
    and lookup :: "'s \<Rightarrow> 'k \<Rightarrow> 'v option"
    and upd :: "'k \<Rightarrow> 'v \<Rightarrow> 's \<Rightarrow> 's"
  assumes lookup_upd: "inv s \<Longrightarrow> lookup (upd k v s) k' = (if k' = k then Some v else lookup s k')"
    and inv_upd: "inv s \<Longrightarrow> inv (upd k v s)"
begin

lemma lookup_upd_other: "inv s \<Longrightarrow> k' \<noteq> k \<Longrightarrow> lookup (upd k v s) k' = lookup s k'"
  by (simp add: lookup_upd)

lemma inv_upds: "inv s \<Longrightarrow> inv (fold (\<lambda>(k, v). upd k v) kvs s)"
  by (induction kvs arbitrary: s) (auto simp: inv_upd)

text \<open>A batch of updates: the last one for a key wins, the other keys keep their values.\<close>

lemma lookup_upds:
  "inv s \<Longrightarrow> lookup (fold (\<lambda>(k, v). upd k v) kvs s) key =
    (case map_of (rev kvs) key of Some v \<Rightarrow> Some v | None \<Rightarrow> lookup s key)"
proof (induction kvs rule: rev_induct)
  case Nil
  then show ?case by simp
next
  case (snoc p kvs)
  then show ?case
    by (cases p) (simp add: lookup_upd inv_upds)
qed

end

interpretation store: kv_store sql_ok kv "\<lambda>k v w. snd (run_state (Put k v) w)"
proof unfold_locales
  show "kv (snd (run_state (Put k v) w)) k' = (if k' = k then Some v else kv w k')"
    if "sql_ok w" for w k v k'
    using that by (simp add: kv_Put run_simps)
  show "sql_ok (snd (run_state (Put k v) w))" if "sql_ok w" for w k v
    using that by simp
qed

section \<open>Secrets\<close>

text \<open>The table holds, under a key, something the account can turn back into the secret.\<close>

definition env_holds_secret :: "env \<Rightarrow> (string \<rightharpoonup> config_row) \<Rightarrow> string \<Rightarrow> string \<Rightarrow> bool" where
  "env_holds_secret E tab key x \<longleftrightarrow>
    (\<exists>y. tab_value tab key = Some (b64_EncodeToString y) \<and> y \<noteq> [] \<and> length y < 2 ^ 32
      \<and> (\<forall>m. o_unprotect E m y = Inr x))"

abbreviation holds_secret :: "world \<Rightarrow> string \<Rightarrow> string \<Rightarrow> bool" where
  "holds_secret w \<equiv> env_holds_secret (ev w) (config_tab w)"

lemma GetSecret_holds [run_simps]:
  assumes "sql_ok w" and "holds_secret w key x"
  shows "fst (run_state (GetSecret key) w) = Inr (Some x)"
  using assms
  by (auto simp: env_holds_secret_def GetSecret_def run_simps UnprotectSecret_def transform_def
      CryptUnprotectData_def b64_roundtrip)

lemma GetSecret_absent [run_simps]:
  "sql_ok w \<Longrightarrow> kv w key = None \<Longrightarrow> fst (run_state (GetSecret key) w) = Inr None"
  by (simp add: GetSecret_def run_simps)

lemma PutSecret_holds:
  assumes "sql_ok w" and "dpapi_ok w" and "x \<noteq> []" and "length x < 2 ^ 31"
  shows "fst (run_state (PutSecret key x) w) = None"
    and "holds_secret (snd (run_state (PutSecret key x) w)) key x"
proof -
  obtain y where y: "y \<noteq> []" "length y < 2 ^ 32" "o_protect (ev w) (n_dp w) x = Inr y"
    "\<forall>m. o_unprotect (ev w) m y = Inr x"
    using assms unfolding env_dpapi_ok_def by meson
  have p: "fst (run_state (ProtectSecret x) w) = Inr y"
    using assms y by (simp add: ProtectSecret_def transform_def CryptProtectData_def)
  show "fst (run_state (PutSecret key x) w) = None"
    using assms p by (simp add: PutSecret_def run_simps)
  show "holds_secret (snd (run_state (PutSecret key x) w)) key x"
    using assms p y by (auto simp: PutSecret_def env_holds_secret_def kv_Put run_simps)
qed

lemma PutSecret_stores:
  assumes "fst (run_state (PutSecret key x) w) = None"
  shows "\<exists>n y. o_protect (ev w) n (take (length x mod 2 ^ 32) x) = Inr y
    \<and> kv (snd (run_state (PutSecret key x) w)) key = Some (b64_EncodeToString y)"
proof (cases "fst (run_state (ProtectSecret x) w)")
  case (Inl e)
  with assms show ?thesis by (simp add: PutSecret_def)
next
  case (Inr y)
  then have "o_protect (ev w) (n_dp w) (take (length x mod 2 ^ 32) x) = Inr y"
    by (auto simp: ProtectSecret_def transform_def CryptProtectData_def split: if_splits sum.splits)
  with Inr assms show ?thesis by (auto simp: PutSecret_def kv_Put)
qed

lemma PutSecret_other:
  "key' \<noteq> key \<Longrightarrow> config_tab (snd (run_state (PutSecret key x) w)) key' = config_tab w key'"
  by (simp add: PutSecret_def Put_def split: sum.split option.split)

section \<open>The queue view\<close>

text \<open>Pending payloads with their ids, in the order of the table.\<close>

definition pending_rows :: "queue_row list \<Rightarrow> (int \<times> string \<times> string) list" where
  "pending_rows rows =
    map (\<lambda>r. (q_id r, q_type r, q_payload r)) (filter (\<lambda>r. q_status r = ''pending'') rows)"

abbreviation queued :: "world \<Rightarrow> (int \<times> string \<times> string) list" where
  "queued w \<equiv> pending_rows (queue_tab w)"

text \<open>Ids are positive and increase along the table, and every row is pending.\<close>

definition rows_wf :: "queue_row list \<Rightarrow> bool" where
  "rows_wf rows \<longleftrightarrow> sorted_wrt (<) (map q_id rows) \<and> (\<forall>r\<in>set rows. 0 < q_id r \<and> q_status r = ''pending'')"

abbreviation queue_wf :: "world \<Rightarrow> bool" where
  "queue_wf w \<equiv> rows_wf (queue_tab w)"

lemma next_rowid_greater:
  assumes "i \<in> set ids"
  shows "i < next_rowid ids"
proof -
  have "i \<le> Max (set ids)" using assms by simp
  then show ?thesis using assms by (auto simp: next_rowid_def)
qed

lemma next_rowid_positive:
  assumes "\<forall>i\<in>set ids. 0 < i"
  shows "0 < next_rowid ids"
proof (cases ids)
  case Nil
  then show ?thesis by (simp add: next_rowid_def)
next
  case (Cons i js)
  then show ?thesis using assms next_rowid_greater [of i ids] by simp
qed

lemma pending_rows_wf:
  "rows_wf rows \<Longrightarrow> pending_rows rows = map (\<lambda>r. (q_id r, q_type r, q_payload r)) rows"
  by (simp add: pending_rows_def rows_wf_def)

lemma pending_rows_distinct: "rows_wf rows \<Longrightarrow> distinct (map fst (pending_rows rows))"
  by (simp add: pending_rows_wf comp_def) (simp add: rows_wf_def sorted_wrt_less_map_distinct)

lemma Enqueue_wf: "queue_wf w \<Longrightarrow> queue_wf (snd (run_state (Enqueue t p) w))"
  using next_rowid_positive [of "map q_id (queue_tab w)"] next_rowid_greater [of _ "map q_id (queue_tab w)"]
  by (auto simp: Enqueue_def rows_wf_def sorted_wrt_append split: option.split)

lemma DeleteQueueItem_wf: "queue_wf w \<Longrightarrow> queue_wf (snd (run_state (DeleteQueueItem i) w))"
  by (auto simp: DeleteQueueItem_def rows_wf_def strict_sorted_filter_map split: option.split)

lemma Enqueue_queued:
  "fst (run_state (Enqueue t p) w) = None \<Longrightarrow>
    queued (snd (run_state (Enqueue t p) w)) = queued w @ [(next_rowid (map q_id (queue_tab w)), t, p)]"
  by (auto simp: Enqueue_def pending_rows_def split: option.splits)

lemma Enqueue_error:
  "fst (run_state (Enqueue t p) w) \<noteq> None \<Longrightarrow> queue_tab (snd (run_state (Enqueue t p) w)) = queue_tab w"
  by (auto simp: Enqueue_def split: option.splits)

lemma Enqueue_ok [run_simps]: "sql_ok w \<Longrightarrow> fst (run_state (Enqueue t p) w) = None"
  by (simp add: Enqueue_def run_simps)

lemma DeleteQueueItem_queued:
  "fst (run_state (DeleteQueueItem i) w) = None \<Longrightarrow>
    queued (snd (run_state (DeleteQueueItem i) w)) = filter (\<lambda>x. fst x \<noteq> i) (queued w)"
  by (auto simp: DeleteQueueItem_def pending_rows_def filter_map comp_def conj_commute split: option.splits)

lemma DeleteQueueItem_error:
  "fst (run_state (DeleteQueueItem i) w) \<noteq> None \<Longrightarrow>
    queue_tab (snd (run_state (DeleteQueueItem i) w)) = queue_tab w"
  by (auto simp: DeleteQueueItem_def split: option.splits)

lemma DeleteQueueItem_ok [run_simps]: "sql_ok w \<Longrightarrow> fst (run_state (DeleteQueueItem i) w) = None"
  by (simp add: DeleteQueueItem_def run_simps)

text \<open>The first \<open>n\<close> pending payloads come back, oldest first.\<close>

definition item_row :: "QueueItem \<Rightarrow> int \<times> string \<times> string" where
  "item_row it = (ID it, Type it, Payload it)"

lemma scan_rows_result: "fst (run_state (scan_rows rs) w) = Inr its \<Longrightarrow> its = map queue_item rs"
  by (induction rs arbitrary: w its) (auto split: option.splits sum.splits)

lemma scan_rows_ok: "sql_ok w \<Longrightarrow> fst (run_state (scan_rows rs) w) = Inr (map queue_item rs)"
  by (induction rs arbitrary: w) (simp_all add: run_simps)

lemma select_pending_wf: "rows_wf rows \<Longrightarrow> select_pending n rows = take n rows"
  by (simp add: select_pending_def rows_wf_def sort_key_strict_sorted)

lemma item_row_queue_item: "map item_row (map queue_item rows) = map (\<lambda>r. (q_id r, q_type r, q_payload r)) rows"
  by (simp add: item_row_def queue_item_def)

lemma Pending_result:
  assumes "fst (run_state (Pending limit) w) = Inr its" and "queue_wf w"
  shows "map item_row its = take (nat (if limit \<le> 0 then 100 else limit)) (queued w)"
  using assms
  by (auto simp: Pending_def Let_def select_pending_wf pending_rows_wf item_row_queue_item take_map
      simp del: map_map split: option.splits dest!: scan_rows_result)

lemma Pending_ok [run_simps]: "sql_ok w \<Longrightarrow> \<exists>its. fst (run_state (Pending limit) w) = Inr its"
  by (simp add: Pending_def Let_def run_simps scan_rows_ok)

section \<open>The queue interface\<close>

text \<open>
  What the sync engine relies on: an accepted payload goes to the back under a fresh id, deleting an
  id removes that payload only, and an operation that fails changes nothing.
\<close>

locale offline_queue =
  fixes inv :: "'s \<Rightarrow> bool"
    and items :: "'s \<Rightarrow> ('i \<times> 'p) list"
    and enq :: "'p \<Rightarrow> 's \<Rightarrow> 's"
    and enq_ok :: "'p \<Rightarrow> 's \<Rightarrow> bool"
    and del :: "'i \<Rightarrow> 's \<Rightarrow> 's"
    and del_ok :: "'i \<Rightarrow> 's \<Rightarrow> bool"
  assumes distinct_ids: "inv s \<Longrightarrow> distinct (map fst (items s))"
    and enq_back: "inv s \<Longrightarrow> enq_ok p s \<Longrightarrow> \<exists>i. items (enq p s) = items s @ [(i, p)]"
    and enq_fails: "inv s \<Longrightarrow> \<not> enq_ok p s \<Longrightarrow> items (enq p s) = items s"
    and del_removes: "inv s \<Longrightarrow> del_ok i s \<Longrightarrow> items (del i s) = filter (\<lambda>x. fst x \<noteq> i) (items s)"
    and del_fails: "inv s \<Longrightarrow> \<not> del_ok i s \<Longrightarrow> items (del i s) = items s"
    and inv_enq: "inv s \<Longrightarrow> inv (enq p s)"
    and inv_del: "inv s \<Longrightarrow> inv (del i s)"
begin

lemma del_head:
  assumes "inv s" and "items s = (i, p) # xs" and "del_ok i s"
  shows "items (del i s) = xs"
proof -
  have "i \<notin> set (map fst xs)"
    using distinct_ids [OF assms(1)] assms(2) by simp
  then show ?thesis
    using assms by (simp add: del_removes filter_neq_map_id)
qed

lemma enq_payloads:
  "inv s \<Longrightarrow> map snd (items (enq p s)) = map snd (items s) @ (if enq_ok p s then [p] else [])"
  using enq_back enq_fails by fastforce

text \<open>An enqueued payload stays behind every payload that was there before.\<close>

lemma enq_keeps_prefix: "inv s \<Longrightarrow> \<exists>t. items (enq p s) = items s @ t"
  using enq_back enq_fails by (metis append_Nil2)

end

interpretation queue: offline_queue queue_wf queued
  "\<lambda>p w. snd (run_state (Enqueue (fst p) (snd p)) w)" "\<lambda>p w. fst (run_state (Enqueue (fst p) (snd p)) w) = None"
  "\<lambda>i w. snd (run_state (DeleteQueueItem i) w)" "\<lambda>i w. fst (run_state (DeleteQueueItem i) w) = None"
  by unfold_locales
    (simp_all add: pending_rows_distinct Enqueue_queued Enqueue_error DeleteQueueItem_queued
      DeleteQueueItem_error Enqueue_wf DeleteQueueItem_wf)

section \<open>Sequences of queue operations\<close>

text \<open>The two operations that change the queue, and a run of a sequence of them with what succeeded.\<close>

datatype queue_op = EnqueueOp string string | DeleteOp int

fun run_op :: "queue_op \<Rightarrow> error option go" where
  "run_op (EnqueueOp t p) = Enqueue t p"
| "run_op (DeleteOp i) = DeleteQueueItem i"

fun run_ops :: "queue_op list \<Rightarrow> bool list go" where
  "run_ops [] = State_Monad.return []"
| "run_ops (op # ops) = do {
    err \<leftarrow> run_op op;
    oks \<leftarrow> run_ops ops;
    State_Monad.return ((err = None) # oks)
  }"

text \<open>The specification: a list of payloads with ids; an operation that fails changes nothing.\<close>

fun spec_op :: "queue_op \<times> bool \<Rightarrow> (int \<times> string \<times> string) list \<Rightarrow> (int \<times> string \<times> string) list" where
  "spec_op (EnqueueOp t p, ok) xs = (if ok then xs @ [(next_rowid (map fst xs), t, p)] else xs)"
| "spec_op (DeleteOp i, ok) xs = (if ok then filter (\<lambda>x. fst x \<noteq> i) xs else xs)"

lemma run_op_wf: "queue_wf w \<Longrightarrow> queue_wf (snd (run_state (run_op op) w))"
  by (cases op) (simp_all add: Enqueue_wf DeleteQueueItem_wf)

lemma queued_ids: "queue_wf w \<Longrightarrow> map q_id (queue_tab w) = map fst (queued w)"
  by (simp add: pending_rows_wf comp_def)

lemma run_op_refines:
  assumes "queue_wf w"
  shows "queued (snd (run_state (run_op op) w)) =
    spec_op (op, fst (run_state (run_op op) w) = None) (queued w)"
  using queued_ids [OF assms] queue.enq_fails [OF assms, of "(t, p)" for t p] queue.del_fails [OF assms]
    queue.del_removes [OF assms]
  by (cases op) (simp_all add: Enqueue_queued)

lemma run_ops_refines:
  assumes "queue_wf w"
  shows "queue_wf (snd (run_state (run_ops ops) w))
    \<and> queued (snd (run_state (run_ops ops) w)) =
      fold spec_op (zip ops (fst (run_state (run_ops ops) w))) (queued w)"
  using assms
proof (induction ops arbitrary: w)
  case (Cons op ops)
  show ?case
    using Cons.IH [OF run_op_wf [OF Cons.prems, of op]] run_op_refines [OF Cons.prems, of op] by simp
qed simp

section \<open>Properties\<close>

text \<open>
  C28. A secret survives the round trip through the data protection calls, base64 and the table: after
  \<open>PutSecret\<close> stores a non-empty secret, \<open>GetSecret\<close> returns it, what the table holds is not the
  secret itself but the protected bytes, and no other key changed.
\<close>

theorem secret_roundtrip:
  assumes "sql_ok w" and "dpapi_ok w" and "x \<noteq> []" and "length x < 2 ^ 31"
    and "run_state (PutSecret key x) w = (err, w')"
  shows "err = None \<and> fst (run_state (GetSecret key) w') = Inr (Some x)
    \<and> (\<exists>n y. o_protect (ev w) n x = Inr y \<and> kv w' key = Some (b64_EncodeToString y))
    \<and> (\<forall>k. k \<noteq> key \<longrightarrow> kv w' k = kv w k)"
proof -
  have w': "w' = snd (run_state (PutSecret key x) w)" "err = fst (run_state (PutSecret key x) w)"
    using assms(5) by simp_all
  have "err = None" "holds_secret w' key x"
    using PutSecret_holds [OF assms(1-4), of key] unfolding w' by simp_all
  moreover from this have "fst (run_state (GetSecret key) w') = Inr (Some x)"
    using assms(1) by (simp add: w' run_simps)
  moreover have "\<exists>n y. o_protect (ev w) n x = Inr y \<and> kv w' key = Some (b64_EncodeToString y)"
    using \<open>err = None\<close> PutSecret_stores [of key x w] assms(4) unfolding w' by simp
  ultimately show ?thesis
    by (simp add: w' PutSecret_other tab_value_def)
qed

theorem secret_roundtrip_witness:
  "\<exists>w'. run_state (PutSecret ''agent_token'' ''tok'') world0 = (None, w')
    \<and> fst (run_state (GetSecret ''agent_token'') w') = Inr (Some ''tok'')"
proof -
  obtain err w' where run: "run_state (PutSecret ''agent_token'' ''tok'') world0 = (err, w')"
    by (metis surj_pair)
  have "length ''tok'' < 2 ^ 31" by simp
  then show ?thesis
    using secret_roundtrip [OF world0_ok(1,3) _ _ run] run by simp
qed

text \<open>
  C27. The queue table implements a first-in first-out list. Whatever operations run, and whichever of
  them the driver fails, the pending rows are what the specification computes from the
  operations that succeeded, ids stay unique and increasing, and \<open>Pending\<close> returns the
  oldest rows in order, up to its limit, 100 when it is not positive.
\<close>

theorem queue_refines:
  assumes "queue_wf w" and "run_state (run_ops ops) w = (oks, w')"
  shows "queue_wf w' \<and> queued w' = fold spec_op (zip ops oks) (queued w)
    \<and> (\<forall>limit its. fst (run_state (Pending limit) w') = Inr its \<longrightarrow>
        map item_row its = take (nat (if limit \<le> 0 then 100 else limit)) (queued w'))"
  using run_ops_refines [OF assms(1), of ops] Pending_result [of _ w'] assms(2) by simp

theorem queue_refines_witness:
  "\<exists>oks w'. run_state (run_ops [EnqueueOp ''heartbeat'' ''a'', EnqueueOp ''software'' ''b'', DeleteOp 1]) world0 = (oks, w')
    \<and> queued w' = [(2, ''software'', ''b'')]"
proof -
  let ?ops = "[EnqueueOp ''heartbeat'' ''a'', EnqueueOp ''software'' ''b'', DeleteOp 1]"
  obtain oks w' where run: "run_state (run_ops ?ops) world0 = (oks, w')" by (metis surj_pair)
  then have "oks = [True, True, True]" by (auto simp: run_simps)
  moreover have "queue_wf world0" "queued world0 = []"
    by (simp_all add: world0_def rows_wf_def pending_rows_def)
  ultimately show ?thesis
    using queue_refines [OF _ run] run by (auto simp: next_rowid_def)
qed

end
