(* ===== verification/HttpClient.thy ===== *)
theory HttpClient
  imports Storage
begin

text \<open>
  Package \<open>internal/httpclient\<close>: the client every Portal request goes through. The transport below
  \<open>http.Client.Do\<close> is the network of the environment; what is modelled is the retry loop, which
  rebuilds the body, signs the request anew and sends it, up to \<open>Retries + 1\<close> times.
\<close>

record http_options =
  opt_Timeout :: int
  opt_RetryDelay :: int
  opt_Token :: string
  opt_TLSValidation :: bool
  opt_Proxy :: string

record client =
  cl_Timeout :: int
  cl_InsecureSkipVerify :: bool
  cl_ProxyURL :: "string option"
  cl_Token :: string
  cl_Retries :: int
  cl_RetryDelay :: int

definition NewWithOptions :: "env \<Rightarrow> http_options \<Rightarrow> client" where
  "NewWithOptions E opt =
    (let timeout = (if opt_Timeout opt \<le> 0 then 30 * Second else opt_Timeout opt);
         delay = (if opt_RetryDelay opt \<le> 0 then Second else opt_RetryDelay opt);
         proxy = (if opt_Proxy opt \<noteq> [] then
                    (case o_url E (opt_Proxy opt) of Inr _ \<Rightarrow> Some (opt_Proxy opt) | Inl _ \<Rightarrow> None)
                  else None)
     in \<lparr>cl_Timeout = timeout, cl_InsecureSkipVerify = (\<not> opt_TLSValidation opt), cl_ProxyURL = proxy,
         cl_Token = opt_Token opt, cl_Retries = 3, cl_RetryDelay = delay\<rparr>)"

text \<open>\<open>http.NewRequestWithContext\<close>: the URL must parse.\<close>

definition NewRequest :: "env \<Rightarrow> string \<Rightarrow> string \<Rightarrow> body \<Rightarrow> string + request" where
  "NewRequest E meth url b =
    (case o_url E url of
       Inl m \<Rightarrow> Inl m
     | Inr path \<Rightarrow> Inr \<lparr>rq_method = meth, rq_url = url, rq_path = path, rq_header = Map.empty, rq_body = b\<rparr>)"

definition New_client :: "env \<Rightarrow> int \<Rightarrow> int \<Rightarrow> string \<Rightarrow> client" where
  "New_client E timeout retryDelay token =
    NewWithOptions E \<lparr>opt_Timeout = timeout, opt_RetryDelay = retryDelay, opt_Token = token,
      opt_TLSValidation = True, opt_Proxy = []\<rparr>"

definition retries_error :: "client \<Rightarrow> string option \<Rightarrow> error" where
  "retries_error c lastErr =
    (let pre = ''request failed after '' @ FormatInt (cl_Retries c) @ '' retries: ''
     in case lastErr of Some m \<Rightarrow> Wrapf pre (Errorf m) [] | None \<Rightarrow> Errorf (pre @ ''%!w(<nil>)''))"

definition sign_attempt :: "client \<Rightarrow> request \<Rightarrow> request result go" where
  "sign_attempt c r =
    (if cl_Token c \<noteq> [] then do { now \<leftarrow> Time_Now; SignRequest r (cl_Token c) now }
     else State_Monad.return (Inr r))"

text \<open>The loop, with the number of attempts that are left and the last error.\<close>

fun attempts :: "client \<Rightarrow> string \<Rightarrow> nat \<Rightarrow> request \<Rightarrow> string option \<Rightarrow> response result go" where
  "attempts c b 0 r lastErr = State_Monad.return (Inl (retries_error c lastErr))"
| "attempts c b (Suc n) r lastErr = do {
    signed \<leftarrow> sign_attempt c (r\<lparr>rq_body := Body b None None\<rparr>);
    case signed of
      Inl e \<Rightarrow> State_Monad.return (Inl e)
    | Inr s \<Rightarrow> do {
        res \<leftarrow> HTTP_Do s;
        case res of
          Inr resp \<Rightarrow> State_Monad.return (Inr resp)
        | Inl m \<Rightarrow> do {
            (if 0 < n then Time_Sleep (cl_RetryDelay c) else State_Monad.return ());
            attempts c b n s (Some m)
          }
      }
  }"

definition Client_Do :: "client \<Rightarrow> request \<Rightarrow> response result go" where
  "Client_Do c r =
    (case rq_body r of
       NilBody \<Rightarrow> attempts c [] (nat (cl_Retries c + 1)) r None
     | Body b re ce \<Rightarrow>
       (case re of
          Some m \<Rightarrow> State_Monad.return (Inl (Wrapf ''read request body: '' (Errorf m) []))
        | None \<Rightarrow>
          (case ce of
             Some m \<Rightarrow> State_Monad.return (Inl (Wrapf ''close request body: '' (Errorf m) []))
           | None \<Rightarrow> attempts c b (nat (cl_Retries c + 1)) r None)))"

section \<open>Frames\<close>

lemma sign_attempt_frame [simp]: "only_counters (snd (run_state (sign_attempt c r) w)) w"
  by (simp add: sign_attempt_def)

lemma attempts_frame [simp]:
  "ev (snd (run_state (attempts c b n r l) w)) = ev w"
  "same_tables (snd (run_state (attempts c b n r l) w)) w"
  by (induction n arbitrary: r l w) (simp_all split: sum.split)

lemma Client_Do_frame [simp]:
  "ev (snd (run_state (Client_Do c r) w)) = ev w"
  "same_tables (snd (run_state (Client_Do c r) w)) w"
  by (simp_all add: Client_Do_def split: body.split option.split)

section \<open>What the attempts do\<close>

text \<open>
  The requests of one call are copies of the given one: same method, URL and path, the whole body,
  the same other headers, and a valid signature when the client has a token.
\<close>

definition copy_of :: "client \<Rightarrow> request \<Rightarrow> string \<Rightarrow> request \<Rightarrow> bool" where
  "copy_of c r b s \<longleftrightarrow>
    rq_method s = rq_method r \<and> rq_url s = rq_url r \<and> rq_path s = rq_path r \<and> rq_body s = Body b None None
    \<and> (\<forall>k. k \<notin> signature_headers \<longrightarrow> rq_header s k = rq_header r k) \<and> (cl_Token c \<noteq> [] \<longrightarrow> signature_valid (cl_Token c) s)"

lemma sign_attempt_result:
  assumes "fst (run_state (sign_attempt c (r\<lparr>rq_body := Body b None None\<rparr>)) w) = Inr s"
  shows "copy_of c r b s"
  using assms SignRequest_result [of "r\<lparr>rq_body := Body b None None\<rparr>"]
  by (auto simp: sign_attempt_def copy_of_def content_def split: if_splits)

lemma sign_attempt_ok:
  assumes "rand_ok w"
  shows "\<exists>s. fst (run_state (sign_attempt c (r\<lparr>rq_body := Body b None None\<rparr>)) w) = Inr s"
  using SignRequest_ok [of "r\<lparr>rq_body := Body b None None\<rparr>" "snd (run_state Time_Now w)"] assms
  by (auto simp: sign_attempt_def readable_def)

lemma copy_of_trans: "copy_of c r b s \<Longrightarrow> copy_of c s b t \<Longrightarrow> copy_of c r b t"
  by (simp add: copy_of_def)

text \<open>
  One run of the loop: \<open>rs\<close> are the requests it sends. Every one but the last failed on the network;
  the loop returns the response to the last one, or, after using up its attempts, the error that
  wraps the last failure.
\<close>

definition attempts_outcome :: "client \<Rightarrow> nat \<Rightarrow> string option \<Rightarrow> world \<Rightarrow> request list \<Rightarrow> response result \<Rightarrow> bool" where
  "attempts_outcome c n lastErr w rs res \<longleftrightarrow>
    length rs \<le> n
    \<and> (\<forall>i. Suc i < length rs \<longrightarrow> (\<exists>m. o_net (ev w) (length (wire w) + i) (rs ! i) = Inl m))
    \<and> (case res of
         Inr resp \<Rightarrow> rs \<noteq> [] \<and> o_net (ev w) (length (wire w) + (length rs - 1)) (List.last rs) = Inr resp
       | Inl e \<Rightarrow> length rs = n \<and>
           (if rs = [] then e = retries_error c lastErr
            else \<exists>m. o_net (ev w) (length (wire w) + (length rs - 1)) (List.last rs) = Inl m
              \<and> e = retries_error c (Some m)))"

lemma attempts_spec:
  assumes "rand_ok w"
  shows "\<exists>rs. wire (snd (run_state (attempts c b n r l) w)) = wire w @ rs
    \<and> slept (snd (run_state (attempts c b n r l) w)) = slept w @ replicate (length rs - 1) (cl_RetryDelay c)
    \<and> (\<forall>s\<in>set rs. copy_of c r b s)
    \<and> attempts_outcome c n l w rs (fst (run_state (attempts c b n r l) w))"
  using assms
proof (induction n arbitrary: r l w)
  case 0
  then show ?case by (simp add: attempts_outcome_def)
next
  case (Suc n)
  obtain s where s: "fst (run_state (sign_attempt c (r\<lparr>rq_body := Body b None None\<rparr>)) w) = Inr s"
    using sign_attempt_ok Suc.prems by blast
  define w1 where "w1 = snd (run_state (sign_attempt c (r\<lparr>rq_body := Body b None None\<rparr>)) w)"
  have w1: "ev w1 = ev w" "wire w1 = wire w" "slept w1 = slept w" by (simp_all add: w1_def)
  have net: "fst (run_state (HTTP_Do s) w1) = o_net (ev w) (length (wire w)) s"
    by (simp add: HTTP_Do_def w1)
  show ?case
  proof (cases "o_net (ev w) (length (wire w)) s")
    case (Inr resp)
    with s net sign_attempt_result [OF s] show ?thesis
      by (intro exI [of _ "[s]"]) (simp add: w1_def [symmetric] w1 attempts_outcome_def)
  next
    case (Inl m)
    define w2 where "w2 = snd (run_state (HTTP_Do s) w1)"
    define w3 where "w3 = snd (run_state (if 0 < n then Time_Sleep (cl_RetryDelay c) else State_Monad.return ()) w2)"
    have w3: "ev w3 = ev w" "wire w3 = wire w @ [s]"
      "slept w3 = slept w @ (if 0 < n then [cl_RetryDelay c] else [])"
      by (simp_all add: w3_def w2_def w1)
    obtain rs where rs: "wire (snd (run_state (attempts c b n s (Some m)) w3)) = wire w3 @ rs"
      "slept (snd (run_state (attempts c b n s (Some m)) w3)) = slept w3 @ replicate (length rs - 1) (cl_RetryDelay c)"
      "\<forall>t\<in>set rs. copy_of c s b t"
      "attempts_outcome c n (Some m) w3 rs (fst (run_state (attempts c b n s (Some m)) w3))"
      using Suc.IH [of w3 s "Some m"] Suc.prems w3 by auto
    have eq: "run_state (attempts c b (Suc n) r l) w = run_state (attempts c b n s (Some m)) w3"
      using s net Inl by (simp add: w1_def [symmetric] w2_def [symmetric] w3_def)
    have "0 < n \<longleftrightarrow> rs \<noteq> []"
      using rs(4) by (cases rs) (auto simp: attempts_outcome_def split: sum.splits)
    moreover have "attempts_outcome c (Suc n) l w (s # rs) (fst (run_state (attempts c b n s (Some m)) w3))"
    proof (cases "length rs")
      case 0
      then show ?thesis using rs(4) Inl w3
        by (auto simp: attempts_outcome_def split: sum.splits)
    next
      case (Suc k)
      then have "rs \<noteq> []" by auto
      with Suc show ?thesis using rs(4) Inl w3
        by (auto simp: attempts_outcome_def nth_Cons split: sum.splits nat.splits)
    qed
    moreover have "copy_of c r b s" by (rule sign_attempt_result [OF s])
    ultimately show ?thesis
      using rs w3 copy_of_trans unfolding eq
      by (intro exI [of _ "s # rs"]) (auto simp: replicate_app_Cons_same Suc_diff_Suc simp flip: replicate_Suc)
  qed
qed

lemma Client_Do_readable:
  "readable (rq_body r) \<Longrightarrow>
    Client_Do c r = attempts c (content (rq_body r)) (nat (cl_Retries c + 1)) r None"
  by (cases "rq_body r") (auto simp: Client_Do_def readable_def content_def)

lemma Client_Do_answered:
  assumes "rand_ok w" and "readable (rq_body r)" and "0 \<le> cl_Retries c" and "\<forall>k q. o_net (ev w) k q = Inr resp"
  shows "fst (run_state (Client_Do c r) w) = Inr resp"
proof -
  let ?n = "nat (cl_Retries c + 1)"
  obtain rs where "attempts_outcome c ?n None w rs (fst (run_state (Client_Do c r) w))"
    using attempts_spec [OF assms(1), of c "content (rq_body r)" ?n r None]
    unfolding Client_Do_readable [OF assms(2)] by blast
  then show ?thesis
    using assms(3,4) by (auto simp: attempts_outcome_def split: sum.splits if_splits)
qed

section \<open>Properties\<close>

text \<open>
  C26. Retries. For a request whose body can be read, \<open>Do\<close> sends at most \<open>Retries + 1\<close> requests and sleeps
  the retry delay once between two of them. Every one is a copy of the request with its whole
  body, signed afresh when there is a token; every one but the last failed on the network. It
  returns the response to the last one, or, after exactly \<open>Retries + 1\<close> failures, an error that
  wraps the last failure.
\<close>

theorem Client_Do_retries:
  assumes "rand_ok w" and "readable (rq_body r)" and "0 \<le> cl_Retries c"
    and "run_state (Client_Do c r) w = (res, w')"
  shows "\<exists>rs. wire w' = wire w @ rs \<and> rs \<noteq> [] \<and> int (length rs) \<le> cl_Retries c + 1
    \<and> slept w' = slept w @ replicate (length rs - 1) (cl_RetryDelay c)
    \<and> (\<forall>s\<in>set rs. copy_of c r (content (rq_body r)) s)
    \<and> (\<forall>i. Suc i < length rs \<longrightarrow> (\<exists>m. o_net (ev w) (length (wire w) + i) (rs ! i) = Inl m))
    \<and> (case res of
         Inr resp \<Rightarrow> o_net (ev w) (length (wire w) + (length rs - 1)) (List.last rs) = Inr resp
       | Inl e \<Rightarrow> int (length rs) = cl_Retries c + 1
           \<and> (\<exists>m. o_net (ev w) (length (wire w) + (length rs - 1)) (List.last rs) = Inl m
               \<and> e = retries_error c (Some m)))"
proof -
  let ?n = "nat (cl_Retries c + 1)"
  obtain rs where "wire w' = wire w @ rs" "slept w' = slept w @ replicate (length rs - 1) (cl_RetryDelay c)"
    "\<forall>s\<in>set rs. copy_of c r (content (rq_body r)) s" and o: "attempts_outcome c ?n None w rs res"
    using attempts_spec [OF assms(1), of c "content (rq_body r)" ?n r None] assms(4)
    unfolding Client_Do_readable [OF assms(2)] by auto
  moreover have "rs \<noteq> []" using o assms(3) by (auto simp: attempts_outcome_def split: sum.splits)
  ultimately show ?thesis
    using assms(3) by (intro exI [of _ rs]) (auto simp: attempts_outcome_def split: sum.splits)
qed

theorem Client_Do_retries_witness:
  "\<exists>res w' rs. run_state (Client_Do (New_client env0 0 0 ''tok'') \<lparr>rq_method = ''POST'', rq_url = ''https://p/x'',
      rq_path = ''/x'', rq_header = Map.empty, rq_body = Body ''{}'' None None\<rparr>) world0 = (res, w')
    \<and> wire w' = rs \<and> rs \<noteq> [] \<and> length rs \<le> 4 \<and> slept w' = replicate (length rs - 1) Second"
proof -
  let ?c = "New_client env0 0 0 ''tok''"
  let ?r = "\<lparr>rq_method = ''POST'', rq_url = ''https://p/x'', rq_path = ''/x'', rq_header = Map.empty,
    rq_body = Body ''{}'' None None\<rparr>"
  obtain res w' where run: "run_state (Client_Do ?c ?r) world0 = (res, w')" by (metis surj_pair)
  have c: "readable (rq_body ?r)" "0 \<le> cl_Retries ?c" "cl_Retries ?c = 3" "cl_RetryDelay ?c = Second"
    by (simp_all add: readable_def New_client_def NewWithOptions_def Let_def)
  obtain rs where "wire w' = wire world0 @ rs" "rs \<noteq> []" "int (length rs) \<le> 3 + 1"
    "slept w' = slept world0 @ replicate (length rs - 1) Second"
    using Client_Do_retries [OF world0_ok(4) c(1,2) run] unfolding c by blast
  then show ?thesis using run by (simp add: world0_def)
qed

end
