(* ===== verification/GoJson.thy ===== *)
theory GoJson
  imports GoStrings
begin

text \<open>
  Package \<open>encoding/json\<close> as the agent uses it: \<open>json.Valid\<close>, \<open>json.Unmarshal\<close> into a
  generic value and \<open>json.Marshal\<close> of a tree. A number keeps its literal text. The recursive
  descent spends one unit of fuel per call; \<open>parse_fuel_enough\<close> shows that the fuel
  \<open>json_parse\<close> starts with never runs out.
\<close>

datatype json =
    JNull
  | JBool bool
  | JNum string
  | JStr string
  | JArr "json list"
  | JObj "(string \<times> json) list"

section \<open>Scanning\<close>

definition json_ws :: "char \<Rightarrow> bool" where
  "json_ws c \<longleftrightarrow> c = CHR 0x20 \<or> c = CHR 0x09 \<or> c = CHR 0x0D \<or> c = CHR 0x0A"

definition skip_ws :: "string \<Rightarrow> string" where
  "skip_ws s = dropWhile json_ws s"

definition hex_val :: "char \<Rightarrow> nat option" where
  "hex_val c =
    (if is_digit c then Some (digit_val c)
     else if CHR ''a'' \<le> c \<and> c \<le> CHR ''f'' then Some (byte_val c - 87)
     else if CHR ''A'' \<le> c \<and> c \<le> CHR ''F'' then Some (byte_val c - 55) else None)"

definition quote :: char where "quote = CHR 0x22"

definition backslash :: char where "backslash = CHR 0x5C"

definition is_hex :: "char \<Rightarrow> bool" where
  "is_hex h \<longleftrightarrow> hex_val h \<noteq> None"

definition simple_escape :: "char \<Rightarrow> bool" where
  "simple_escape e \<longleftrightarrow> e = quote \<or> e = backslash \<or> e \<in> set ''/bfnrt''"

definition control :: "char \<Rightarrow> bool" where
  "control c \<longleftrightarrow> byte_val c < 0x20"

text \<open>The raw text of a string literal after its opening quote, and what follows the closing one.\<close>

fun scan_string :: "string \<Rightarrow> (string \<times> string) option" where
  "scan_string [] = None"
| "scan_string (c # r) =
    (if c = quote then Some ([], r)
     else if c = backslash then
       (case r of
          [] \<Rightarrow> None
        | e # r2 \<Rightarrow>
          if e = CHR ''u'' then
            (case r2 of
               h1 # h2 # h3 # h4 # r3 \<Rightarrow>
                 if is_hex h1 \<and> is_hex h2 \<and> is_hex h3 \<and> is_hex h4
                 then map_option (\<lambda>(t, k). (c # e # h1 # h2 # h3 # h4 # t, k)) (scan_string r3)
                 else None
             | _ \<Rightarrow> None)
          else if simple_escape e
          then map_option (\<lambda>(t, k). (c # e # t, k)) (scan_string r2)
          else None)
     else if control c then None
     else map_option (\<lambda>(t, k). (c # t, k)) (scan_string r))"

definition hex4 :: "string \<Rightarrow> nat" where
  "hex4 hs = foldl (\<lambda>a h. 16 * a + (case hex_val h of Some v \<Rightarrow> v | None \<Rightarrow> 0)) 0 hs"

text \<open>
  \<open>getu4\<close>: the code unit of an escape \<open>\u\<close> at the front, if there is one.
\<close>

definition getu4 :: "string \<Rightarrow> nat option" where
  "getu4 s = (if take 2 s = [backslash, CHR ''u''] \<and> 6 \<le> length s
              then Some (hex4 (take 4 (drop 2 s))) else None)"

definition unescape :: "char \<Rightarrow> char" where
  "unescape e =
    (if e = CHR ''b'' then CHR 0x08 else if e = CHR ''f'' then CHR 0x0C
     else if e = CHR ''n'' then CHR 0x0A else if e = CHR ''r'' then CHR 0x0D
     else if e = CHR ''t'' then CHR 0x09 else e)"

text \<open>
  \<open>unquote\<close> on a scanned literal: escapes are resolved, surrogate pairs joined, lone surrogates
  and invalid UTF-8 replaced by U+FFFD.
\<close>

definition unquote_step :: "string \<Rightarrow> string \<times> nat" where
  "unquote_step s =
    (case getu4 s of
       Some u \<Rightarrow>
         if 0xD800 \<le> u \<and> u < 0xE000 then
           (case getu4 (drop 6 s) of
              Some v \<Rightarrow> if u < 0xDC00 \<and> 0xDC00 \<le> v \<and> v < 0xE000
                        then (EncodeRune (0x10000 + (u - 0xD800) * 1024 + (v - 0xDC00)), 12)
                        else (EncodeRune RuneError, 6)
            | None \<Rightarrow> (EncodeRune RuneError, 6))
         else (EncodeRune u, 6)
     | None \<Rightarrow>
         (case s of
            c # e # r \<Rightarrow>
              if c = backslash then ([unescape e], 2)
              else (EncodeRune (fst (DecodeRune s)), snd (DecodeRune s))
          | _ \<Rightarrow> (EncodeRune (fst (DecodeRune s)), snd (DecodeRune s))))"

lemma unquote_step_pos: "s \<noteq> [] \<Longrightarrow> 0 < snd (unquote_step s)"
  by (auto simp: unquote_step_def DecodeRune_width_pos split: option.splits list.splits)

function unquote :: "string \<Rightarrow> string" where
  "unquote s = (if s = [] then [] else fst (unquote_step s) @ unquote (drop (snd (unquote_step s)) s))"
  by pat_completeness auto
termination
  by (relation "measure length") (auto simp: unquote_step_pos)

declare unquote.simps [simp del]

definition scan_digits :: "string \<Rightarrow> (string \<times> string) option" where
  "scan_digits s =
    (let ds = takeWhile is_digit s in if ds = [] then None else Some (ds, dropWhile is_digit s))"

definition scan_int :: "string \<Rightarrow> (string \<times> string) option" where
  "scan_int s = (case s of c # r \<Rightarrow> if c = CHR ''0'' then Some ([c], r) else scan_digits s | [] \<Rightarrow> None)"

definition scan_frac :: "string \<Rightarrow> (string \<times> string) option" where
  "scan_frac s =
    (case s of
       c # r \<Rightarrow> if c = CHR ''.'' then map_option (\<lambda>(ds, k). (c # ds, k)) (scan_digits r) else Some ([], s)
     | [] \<Rightarrow> Some ([], s))"

definition scan_exp :: "string \<Rightarrow> (string \<times> string) option" where
  "scan_exp s =
    (case s of
       c # r \<Rightarrow>
         if c = CHR ''e'' \<or> c = CHR ''E'' then
           (case r of
              d # r2 \<Rightarrow>
                if d = CHR ''+'' \<or> d = CHR ''-''
                then map_option (\<lambda>(ds, k). (c # d # ds, k)) (scan_digits r2)
                else map_option (\<lambda>(ds, k). (c # ds, k)) (scan_digits r)
            | [] \<Rightarrow> None)
         else Some ([], s)
     | [] \<Rightarrow> Some ([], s))"

definition scan_number :: "string \<Rightarrow> (string \<times> string) option" where
  "scan_number s =
    (let sign = (if s \<noteq> [] \<and> hd s = CHR ''-'' then [CHR ''-''] else []);
         r0 = drop (length sign) s
     in case scan_int r0 of
          None \<Rightarrow> None
        | Some (i, r1) \<Rightarrow>
          (case scan_frac r1 of
             None \<Rightarrow> None
           | Some (f, r2) \<Rightarrow>
             (case scan_exp r2 of None \<Rightarrow> None | Some (e, r3) \<Rightarrow> Some (sign @ i @ f @ e, r3))))"

section \<open>Parsing\<close>

text \<open>The decoder refuses more than 10000 open containers.\<close>

definition maxNestingDepth :: nat where
  "maxNestingDepth = 10000"

fun p_value :: "nat \<Rightarrow> nat \<Rightarrow> string \<Rightarrow> (json \<times> string) option"
  and p_elems :: "nat \<Rightarrow> nat \<Rightarrow> string \<Rightarrow> (json list \<times> string) option"
  and p_members :: "nat \<Rightarrow> nat \<Rightarrow> string \<Rightarrow> ((string \<times> json) list \<times> string) option" where
  "p_value 0 d s = None"
| "p_value (Suc f) d s =
    (case skip_ws s of
       [] \<Rightarrow> None
     | c # r \<Rightarrow>
       if c = CHR ''{'' then
         if maxNestingDepth \<le> d then None
         else if take 1 (skip_ws r) = ''}'' then Some (JObj [], drop 1 (skip_ws r))
         else map_option (\<lambda>(ms, k). (JObj ms, k)) (p_members f (Suc d) r)
       else if c = CHR ''['' then
         if maxNestingDepth \<le> d then None
         else if take 1 (skip_ws r) = '']'' then Some (JArr [], drop 1 (skip_ws r))
         else map_option (\<lambda>(es, k). (JArr es, k)) (p_elems f (Suc d) r)
       else if c = quote then map_option (\<lambda>(t, k). (JStr (unquote t), k)) (scan_string r)
       else if HasPrefix (c # r) ''true'' then Some (JBool True, drop 3 r)
       else if HasPrefix (c # r) ''false'' then Some (JBool False, drop 4 r)
       else if HasPrefix (c # r) ''null'' then Some (JNull, drop 3 r)
       else map_option (\<lambda>(t, k). (JNum t, k)) (scan_number (c # r)))"
| "p_elems 0 d s = None"
| "p_elems (Suc f) d s =
    (case p_value f d s of
       None \<Rightarrow> None
     | Some (v, r) \<Rightarrow>
       (case skip_ws r of
          [] \<Rightarrow> None
        | c # k \<Rightarrow>
          if c = CHR '','' then map_option (\<lambda>(vs, k). (v # vs, k)) (p_elems f d k)
          else if c = CHR '']'' then Some ([v], k) else None))"
| "p_members 0 d s = None"
| "p_members (Suc f) d s =
    (case skip_ws s of
       [] \<Rightarrow> None
     | q # r \<Rightarrow>
       if q \<noteq> quote then None
       else (case scan_string r of
          None \<Rightarrow> None
        | Some (key, r1) \<Rightarrow>
          (case skip_ws r1 of
             [] \<Rightarrow> None
           | co # r2 \<Rightarrow>
             if co \<noteq> CHR '':'' then None
             else (case p_value f d r2 of
                None \<Rightarrow> None
              | Some (v, r3) \<Rightarrow>
                (case skip_ws r3 of
                   [] \<Rightarrow> None
                 | c # k \<Rightarrow>
                   if c = CHR '','' then map_option (\<lambda>(ms, k). ((unquote key, v) # ms, k)) (p_members f d k)
                   else if c = CHR ''}'' then Some ([(unquote key, v)], k) else None)))))"

definition json_parse :: "string \<Rightarrow> json option" where
  "json_parse s =
    (case p_value (2 * length s + 2) 0 s of
       Some (v, r) \<Rightarrow> if skip_ws r = [] then Some v else None
     | None \<Rightarrow> None)"

definition json_Valid :: "string \<Rightarrow> bool" where
  "json_Valid s \<longleftrightarrow> json_parse s \<noteq> None"

text \<open>A member of an object, the last of several with the same key.\<close>

definition json_member :: "json \<Rightarrow> string \<Rightarrow> json option" where
  "json_member j key = (case j of JObj ms \<Rightarrow> map_of (rev ms) key | _ \<Rightarrow> None)"

section \<open>Printing\<close>

definition html_safe :: "nat \<Rightarrow> bool" where
  "html_safe b \<longleftrightarrow> 0x20 \<le> b \<and> b < 0x80 \<and> b \<notin> {0x22, 0x5C, 0x3C, 0x3E, 0x26}"

definition lower_hex :: "nat \<Rightarrow> char" where
  "lower_hex n = ''0123456789abcdef'' ! n"

definition escape_byte :: "char \<Rightarrow> string" where
  "escape_byte c =
    (if html_safe (byte_val c) then [c]
     else if c = quote \<or> c = backslash then [backslash, c]
     else if c = CHR 0x08 then [backslash, CHR ''b'']
     else if c = CHR 0x0C then [backslash, CHR ''f'']
     else if c = CHR 0x0A then [backslash, CHR ''n'']
     else if c = CHR 0x0D then [backslash, CHR ''r'']
     else if c = CHR 0x09 then [backslash, CHR ''t'']
     else [backslash] @ ''u00'' @ [lower_hex (byte_val c div 16), lower_hex (byte_val c mod 16)])"

definition escape_step :: "string \<Rightarrow> string \<times> nat" where
  "escape_step s =
    (case s of
       [] \<Rightarrow> ([], 0)
     | c # r \<Rightarrow>
       if byte_val c < 0x80 then (escape_byte c, 1)
       else if DecodeRune s = (RuneError, 1) then ([backslash] @ ''ufffd'', 1)
       else if fst (DecodeRune s) = 0x2028 then ([backslash] @ ''u2028'', 3)
       else if fst (DecodeRune s) = 0x2029 then ([backslash] @ ''u2029'', 3)
       else (take (snd (DecodeRune s)) s, snd (DecodeRune s)))"

function escape_string :: "string \<Rightarrow> string" where
  "escape_string s =
    (if s = [] then [] else fst (escape_step s) @ escape_string (drop (snd (escape_step s)) s))"
  by pat_completeness auto
termination
proof (relation "measure length", goal_cases)
  case (2 s)
  then have "0 < snd (escape_step s)"
    by (cases s) (auto simp: escape_step_def DecodeRune_width_pos)
  with 2 show ?case by simp
qed simp

declare escape_string.simps [simp del]

definition print_string :: "string \<Rightarrow> string" where
  "print_string s = quote # escape_string s @ [quote]"

fun json_print :: "json \<Rightarrow> string" where
  "json_print JNull = ''null''"
| "json_print (JBool b) = (if b then ''true'' else ''false'')"
| "json_print (JNum t) = t"
| "json_print (JStr s) = print_string s"
| "json_print (JArr es) = ''['' @ Join (map json_print es) '','' @ '']''"
| "json_print (JObj ms) =
    ''{'' @ Join (map (\<lambda>m. print_string (fst m) @ '':'' @ json_print (snd m)) ms) '','' @ ''}''"

section \<open>The fuel is enough\<close>

lemma skip_ws_length: "length (skip_ws s) \<le> length s"
  by (simp add: skip_ws_def length_dropWhile_le)

lemma skip_ws_Cons_length: "skip_ws s = c # r \<Longrightarrow> length r < length s"
  using skip_ws_length [of s] by simp

lemma scan_string_length: "scan_string s = Some (t, k) \<Longrightarrow> length k < length s"
proof (induction s arbitrary: t k rule: scan_string.induct)
  case (2 c r)
  consider "c = quote" | "c \<noteq> quote" "c = backslash" | "c \<noteq> quote" "c \<noteq> backslash" by blast
  then show ?case
  proof cases
    case 1
    with "2.prems" show ?thesis by simp
  next
    case 2
    with "2.prems" obtain e r2 where r: "r = e # r2" by (cases r) auto
    show ?thesis
    proof (cases "e = CHR ''u''")
      case True
      with 2 r "2.prems" obtain h1 h2 h3 h4 r3 t' where
        "r2 = h1 # h2 # h3 # h4 # r3" "is_hex h1" "is_hex h2" "is_hex h3" "is_hex h4"
        "scan_string r3 = Some (t', k)"
        by (auto split: list.splits if_splits)
      from this "2.IH"(1) [OF 2(1) 2(2) r True] have "length k < length r3" by fastforce
      with \<open>r2 = h1 # h2 # h3 # h4 # r3\<close> show ?thesis by (simp add: r)
    next
      case False
      with 2 r "2.prems" obtain t' where "simple_escape e" "scan_string r2 = Some (t', k)"
        by (auto split: if_splits)
      with "2.IH"(2) [OF 2(1) 2(2) r False] show ?thesis by (simp add: r)
    qed
  next
    case 3
    with "2.prems" obtain t' where "\<not> control c" "scan_string r = Some (t', k)"
      by (auto split: if_splits)
    with "2.IH"(3) [OF 3(1) 3(2)] show ?thesis by simp
  qed
qed simp

declare scan_string.simps [simp del]

lemma scan_digits_length: "scan_digits s = Some (t, k) \<Longrightarrow> length k < length s"
  by (cases s) (auto simp: scan_digits_def Let_def less_Suc_eq_le length_dropWhile_le split: if_splits)

lemma scan_int_length: "scan_int s = Some (t, k) \<Longrightarrow> length k < length s"
  by (auto simp: scan_int_def split: list.splits if_splits dest: scan_digits_length)

lemma scan_frac_length: "scan_frac s = Some (t, k) \<Longrightarrow> length k \<le> length s"
  by (fastforce simp: scan_frac_def split: list.splits if_splits dest: scan_digits_length)

lemma scan_exp_length: "scan_exp s = Some (t, k) \<Longrightarrow> length k \<le> length s"
  by (fastforce simp: scan_exp_def split: list.splits if_splits dest: scan_digits_length)

lemma scan_number_length: "scan_number s = Some (t, k) \<Longrightarrow> length k < length s"
  by (fastforce simp: scan_number_def Let_def split: option.splits if_splits
      dest: scan_int_length scan_frac_length scan_exp_length)

lemmas scan_length = skip_ws_Cons_length scan_string_length scan_number_length

text \<open>Every parser consumes at least one byte.\<close>

lemma parse_consumes:
  "p_value f d s = Some (v, k) \<Longrightarrow> length k < length s"
  "p_elems f d s = Some (vs, k) \<Longrightarrow> length k < length s"
  "p_members f d s = Some (ms, k) \<Longrightarrow> length k < length s"
proof (induction f d s and f d s and f d s arbitrary: v k and vs k and ms k
    rule: p_value_p_elems_p_members.induct)
  case (2 f d s)
  then show ?case
    using skip_ws_length [of "tl (skip_ws s)"]
    by (auto split: list.splits if_splits dest!: scan_length)
      (fastforce dest: scan_length)+
next
  case (4 f d s)
  then show ?case
    by (fastforce split: list.splits if_splits option.splits prod.splits dest!: scan_length)
next
  case (6 f d s)
  then show ?case
    by (fastforce split: list.splits if_splits option.splits prod.splits dest!: scan_length)
qed simp_all

declare p_value.simps [simp del] p_elems.simps [simp del] p_members.simps [simp del]

text \<open>One more unit of fuel than a call needs changes nothing.\<close>

lemma parse_fuel_step:
  "(\<forall>s d. 2 * length s + 1 \<le> f \<longrightarrow> p_value (Suc f) d s = p_value f d s)
   \<and> (\<forall>s d. 2 * length s + 2 \<le> f \<longrightarrow> p_elems (Suc f) d s = p_elems f d s)
   \<and> (\<forall>s d. 2 * length s + 2 \<le> f \<longrightarrow> p_members (Suc f) d s = p_members f d s)"
proof (induction f)
  case 0
  then show ?case by simp
next
  case (Suc f)
  have val: "p_value (Suc (Suc f)) d s = p_value (Suc f) d s" if "2 * length s + 1 \<le> Suc f" for s d
  proof (cases "skip_ws s")
    case Nil
    then show ?thesis by (simp add: p_value.simps)
  next
    case (Cons c r)
    with that skip_ws_Cons_length [OF Cons] have "2 * length r + 2 \<le> f" by simp
    with Suc.IH Cons show ?thesis
      by (simp add: p_value.simps(2) [of "Suc f" d s] p_value.simps(2) [of f d s])
  qed
  have elems: "p_elems (Suc (Suc f)) d s = p_elems (Suc f) d s" if "2 * length s + 2 \<le> Suc f" for s d
  proof -
    have "p_value (Suc f) d s = p_value f d s" using Suc.IH that by simp
    moreover have "p_elems (Suc f) d k = p_elems f d k"
      if "p_value f d s = Some (v, r)" "skip_ws r = c # k" for v r c k
      using Suc.IH parse_consumes(1) [OF that(1)] skip_ws_Cons_length [OF that(2)]
        \<open>2 * length s + 2 \<le> Suc f\<close> by simp
    ultimately show ?thesis
      unfolding p_elems.simps(2) [of "Suc f" d s] p_elems.simps(2) [of f d s]
      by (auto split: option.split list.split)
  qed
  have members: "p_members (Suc (Suc f)) d s = p_members (Suc f) d s" if "2 * length s + 2 \<le> Suc f" for s d
  proof -
    have v: "p_value (Suc f) d r2 = p_value f d r2"
      if "skip_ws s = q # r" "scan_string r = Some (key, r1)" "skip_ws r1 = co # r2" for q r key r1 co r2
      using Suc.IH scan_length(1) [OF that(1)] scan_length(2) [OF that(2)] scan_length(1) [OF that(3)]
        \<open>2 * length s + 2 \<le> Suc f\<close> by simp
    have m: "p_members (Suc f) d k = p_members f d k"
      if "skip_ws s = q # r" "scan_string r = Some (key, r1)" "skip_ws r1 = co # r2"
        "p_value f d r2 = Some (v, r3)" "skip_ws r3 = c # k" for q r key r1 co r2 v r3 c k
      using Suc.IH scan_length(1) [OF that(1)] scan_length(2) [OF that(2)] scan_length(1) [OF that(3)]
        parse_consumes(1) [OF that(4)] scan_length(1) [OF that(5)]
        \<open>2 * length s + 2 \<le> Suc f\<close> by simp
    show ?thesis
      unfolding p_members.simps(2) [of "Suc f" d s] p_members.simps(2) [of f d s]
      by (auto simp: v m split: option.split list.split)
  qed
  show ?case using val elems members by blast
qed

lemma parse_fuel_enough:
  assumes "2 * length s + 2 \<le> f"
  shows "p_value f d s = p_value (2 * length s + 2) d s"
  using assms
proof (induction f rule: dec_induct)
  case (step n)
  then show ?case using parse_fuel_step [of n] by simp
qed simp

section \<open>Literals without escapes\<close>

text \<open>Characters that stand for themselves in a JSON string, and what reading such a literal gives.\<close>

definition json_plain :: "char \<Rightarrow> bool" where
  "json_plain c \<longleftrightarrow> c \<noteq> quote \<and> c \<noteq> backslash \<and> \<not> control c \<and> byte_val c < 0x80"

lemma unquote_plain: "list_all json_plain s \<Longrightarrow> unquote s = s"
proof (induction s)
  case Nil
  then show ?case by (simp add: unquote.simps)
next
  case (Cons c s)
  then have "c \<noteq> backslash" "byte_val c < 0x80" by (simp_all add: json_plain_def)
  then have "unquote_step (c # s) = ([c], 1)"
    by (auto simp: unquote_step_def getu4_def DecodeRune_def EncodeRune_def byte_of_def byte_val_def split: list.splits)
  with Cons show ?case by (simp add: unquote.simps [of "c # s"])
qed

definition quoted :: "string \<Rightarrow> string" where
  "quoted s = quote # s @ [quote]"

text \<open>The equations that evaluate the parser on a concrete document.\<close>

lemmas parser_numeral =
  p_value.simps(2) [of "pred_numeral k", folded numeral_eq_Suc]
  p_elems.simps(2) [of "pred_numeral k", folded numeral_eq_Suc]
  p_members.simps(2) [of "pred_numeral k", folded numeral_eq_Suc] for k

lemmas json_chars = quote_def backslash_def control_def byte_val_def json_ws_def simple_escape_def

lemmas number_eval = scan_number_def scan_int_def scan_digits_def scan_frac_def scan_exp_def is_digit_def

lemmas json_eval = parser_numeral scan_string.simps skip_ws_def json_chars json_plain_def unquote_plain
  maxNestingDepth_def HasPrefix_def quoted_def

end
