(* ===== verification/Sync.thy ===== *)
theory Sync
  imports HttpClient GoJson
begin

text \<open>
  Package \<open>internal/sync\<close>: the transport of all Portal payloads, with delivery through the offline
  queue. \<open>SendJSON\<close> and \<open>Flush\<close> hold the engine's mutex for their whole run, so each is one atomic
  operation here. \<open>SendJSON\<close> takes the outcome of \<open>json.Marshal\<close> on its payload.
\<close>

section \<open>Engine, options and results\<close>

definition HeartbeatType :: string where "HeartbeatType = ''heartbeat''"

definition InventoryType :: string where "InventoryType = ''inventory''"

definition SoftwareType :: string where "SoftwareType = ''software''"

record sync_options =
  so_PortalURL :: string
  so_Proxy :: string
  so_TLSValidate :: bool
  so_Compression :: string
  so_Timeout :: int
  so_RetryDelay :: int

record sync_result =
  res_StatusCode :: int
  res_Body :: string
  res_Latency :: int

definition no_result :: sync_result where
  "no_result = \<lparr>res_StatusCode = 0, res_Body = [], res_Latency = 0\<rparr>"

record engine =
  e_Client :: client
  e_PortalURL :: string
  e_Compression :: string

definition New_engine :: "env \<Rightarrow> sync_options \<Rightarrow> engine" where
  "New_engine E opt =
    \<lparr>e_Client = NewWithOptions E
       \<lparr>opt_Timeout = so_Timeout opt, opt_RetryDelay = so_RetryDelay opt, opt_Token = [],
        opt_TLSValidation = so_TLSValidate opt, opt_Proxy = so_Proxy opt\<rparr>,
     e_PortalURL = TrimRight (so_PortalURL opt) (CHR ''/''),
     e_Compression = ToLower (o_lower E) (so_Compression opt)\<rparr>"

section \<open>Helpers\<close>

text \<open>Writing to a memory buffer does not fail, so neither does the compressor.\<close>

definition encodePayload :: "env \<Rightarrow> string \<Rightarrow> string \<Rightarrow> string \<times> string" where
  "encodePayload E payload compression =
    (if compression \<noteq> ''gzip'' then (payload, []) else (o_gzip E payload, ''gzip''))"

definition routeForType :: "string \<Rightarrow> string" where
  "routeForType payloadType =
    (if payloadType = HeartbeatType then ''/api/agent/heartbeat''
     else if payloadType = InventoryType then ''/api/agent/inventory''
     else if payloadType = SoftwareType then ''/api/agent/software''
     else [])"

definition truncate_body :: "string \<Rightarrow> string" where
  "truncate_body v =
    (if length v \<le> 512 then TrimSpace v else TrimSpace (take 512 v) @ ''...'')"

definition queueOnFailure :: "string \<Rightarrow> string \<Rightarrow> bool \<Rightarrow> error \<Rightarrow> (sync_result \<times> error option) go" where
  "queueOnFailure payloadType payload queue_it cause =
    (if \<not> queue_it then State_Monad.return (no_result, Some cause)
     else do {
       c \<leftarrow> ctx_Err;
       if c \<noteq> None then State_Monad.return (no_result, Some cause)
       else do {
         q \<leftarrow> Enqueue payloadType payload;
         case q of
           Some e \<Rightarrow> State_Monad.return
             (no_result, Some (Wrapf [] cause (''; queue payload: '' @ error_msg e)))
         | None \<Rightarrow> State_Monad.return (no_result, Some (Wrapf [] ErrQueued ('': '' @ error_msg cause)))
       }
     })"

section \<open>Sending\<close>

text \<open>The request of one payload, before it is signed.\<close>

definition sync_request :: "env \<Rightarrow> engine \<Rightarrow> string \<Rightarrow> string \<Rightarrow> string \<Rightarrow> string + request" where
  "sync_request E e token endpoint payload =
    (let (b, encoding) = encodePayload E payload (e_Compression e)
     in case NewRequest E ''POST'' (e_PortalURL e @ endpoint) (Body b None None) of
          Inl m \<Rightarrow> Inl m
        | Inr r \<Rightarrow>
          (let r1 = Header_Set ''Content-Type'' ''application/json''
                      (Header_Set ''Authorization'' (''Bearer '' @ token) r)
           in Inr (if encoding \<noteq> [] then Header_Set ''Content-Encoding'' encoding r1 else r1)))"

text \<open>The verdict on an answer of the network: a result, or the reason to treat the payload as undelivered.\<close>

definition judge :: "response result \<Rightarrow> int \<Rightarrow> sync_result result" where
  "judge answer latency =
    (case answer of
       Inl e \<Rightarrow> Inl (Wrapf ''sync request: '' e [])
     | Inr resp \<Rightarrow>
       (case resp_body resp of
          Inl m \<Rightarrow> Inl (Wrapf ''read sync response: '' (Errorf m) [])
        | Inr b \<Rightarrow>
          if StatusCode resp < 200 \<or> 300 \<le> StatusCode resp then
            Inl (Errorf (''Portal returned '' @ Status resp @ '': '' @ truncate_body b))
          else if TrimSpace b \<noteq> [] \<and> \<not> json_Valid b then Inl ErrInvalidResponse
          else Inr \<lparr>res_StatusCode = StatusCode resp, res_Body = b, res_Latency = latency\<rparr>))"

definition send :: "engine \<Rightarrow> string \<Rightarrow> string \<Rightarrow> string \<Rightarrow> bool \<Rightarrow> (sync_result \<times> error option) go" where
  "send e endpoint payloadType payload queue_it = do {
    secret \<leftarrow> GetSecret ''agent_token'';
    case secret of
      Inl err \<Rightarrow> State_Monad.return (no_result, Some err)
    | Inr None \<Rightarrow> State_Monad.return (no_result, Some ErrNotRegistered)
    | Inr (Some token) \<Rightarrow>
      if token = [] then State_Monad.return (no_result, Some ErrNotRegistered)
      else do {
        E \<leftarrow> getw ev;
        case sync_request E e token endpoint payload of
          Inl m \<Rightarrow> State_Monad.return (no_result, Some (Wrapf ''create sync request: '' (Errorf m) []))
        | Inr r \<Rightarrow> do {
            started \<leftarrow> Time_Now;
            answer \<leftarrow> Client_Do ((e_Client e)\<lparr>cl_Token := token\<rparr>) r;
            finished \<leftarrow> Time_Now;
            case judge answer (finished - started) of
              Inl cause \<Rightarrow> queueOnFailure payloadType payload queue_it cause
            | Inr result \<Rightarrow> State_Monad.return (result, None)
          }
      }
  }"

definition SendJSON :: "engine \<Rightarrow> string \<Rightarrow> string \<Rightarrow> string result \<Rightarrow> (sync_result \<times> error option) go" where
  "SendJSON e endpoint payloadType marshalled =
    (case marshalled of
       Inl err \<Rightarrow> State_Monad.return (no_result, Some (Wrapf (''marshal '' @ payloadType @ '' payload: '') err []))
     | Inr data \<Rightarrow> send e endpoint payloadType data True)"

section \<open>Flushing\<close>

text \<open>The loop over the pending items, with the number sent so far.\<close>

fun flush_items :: "engine \<Rightarrow> QueueItem list \<Rightarrow> int \<Rightarrow> (int \<times> error option) go" where
  "flush_items e [] sent = State_Monad.return (sent, None)"
| "flush_items e (it # its) sent =
    (if routeForType (Type it) = [] then flush_items e its sent
     else do {
       r \<leftarrow> send e (routeForType (Type it)) (Type it) (Payload it) False;
       case snd r of
         Some err \<Rightarrow> State_Monad.return (sent, Some err)
       | None \<Rightarrow> do {
           d \<leftarrow> DeleteQueueItem (ID it);
           case d of
             Some err \<Rightarrow> State_Monad.return (sent, Some err)
           | None \<Rightarrow> flush_items e its (sent + 1)
         }
     })"

definition Flush :: "engine \<Rightarrow> (int \<times> error option) go" where
  "Flush e = do {
    p \<leftarrow> Pending 100;
    case p of
      Inl err \<Rightarrow> State_Monad.return (0, Some err)
    | Inr its \<Rightarrow> flush_items e its 0
  }"

section \<open>Frames\<close>

lemma queueOnFailure_frame [simp]: "only_queue (snd (run_state (queueOnFailure t p q cause) w)) w"
  by (simp add: queueOnFailure_def split: option.split)

lemma send_frame [simp]:
  "ev (snd (run_state (send e ep t p q) w)) = ev w"
  "config_tab (snd (run_state (send e ep t p q) w)) = config_tab w"
  "history_tab (snd (run_state (send e ep t p q) w)) = history_tab w"
  "config_file (snd (run_state (send e ep t p q) w)) = config_file w"
  by (simp_all add: send_def split: option.split sum.split)

lemma queueOnFailure_direct [simp]: "queue_tab (snd (run_state (queueOnFailure t p False cause) w)) = queue_tab w"
  by (simp add: queueOnFailure_def)

lemma send_direct_queue [simp]: "queue_tab (snd (run_state (send e ep t p False) w)) = queue_tab w"
  by (simp add: send_def split: option.split sum.split)

lemma queueOnFailure_wf: "queue_wf w \<Longrightarrow> queue_wf (snd (run_state (queueOnFailure t p q cause) w))"
  by (simp add: queueOnFailure_def queue.inv_enq [of _ "(t, p)", simplified] Enqueue_wf split: option.split)

lemma send_wf: "queue_wf w \<Longrightarrow> queue_wf (snd (run_state (send e ep t p q) w))"
  by (simp add: send_def queueOnFailure_wf split: option.split sum.split)

lemma SendJSON_frame [simp]:
  "ev (snd (run_state (SendJSON e ep t m) w)) = ev w"
  "config_tab (snd (run_state (SendJSON e ep t m) w)) = config_tab w"
  "history_tab (snd (run_state (SendJSON e ep t m) w)) = history_tab w"
  "config_file (snd (run_state (SendJSON e ep t m) w)) = config_file w"
  by (simp_all add: SendJSON_def split: sum.split)

lemma SendJSON_wf: "queue_wf w \<Longrightarrow> queue_wf (snd (run_state (SendJSON e ep t m) w))"
  by (simp add: SendJSON_def send_wf split: sum.split)

lemma flush_items_frame [simp]:
  "ev (snd (run_state (flush_items e its n) w)) = ev w"
  "config_tab (snd (run_state (flush_items e its n) w)) = config_tab w"
  "history_tab (snd (run_state (flush_items e its n) w)) = history_tab w"
  "config_file (snd (run_state (flush_items e its n) w)) = config_file w"
  by (induction its arbitrary: n w) (simp_all split: option.split)

lemma flush_items_wf: "queue_wf w \<Longrightarrow> queue_wf (snd (run_state (flush_items e its n) w))"
  by (induction its arbitrary: n w) (simp_all add: DeleteQueueItem_wf split: option.split)

lemma Flush_frame [simp]:
  "ev (snd (run_state (Flush e) w)) = ev w"
  "config_tab (snd (run_state (Flush e) w)) = config_tab w"
  "history_tab (snd (run_state (Flush e) w)) = history_tab w"
  "config_file (snd (run_state (Flush e) w)) = config_file w"
  by (simp_all add: Flush_def split: sum.split)

lemma Flush_wf: "queue_wf w \<Longrightarrow> queue_wf (snd (run_state (Flush e) w))"
  by (simp add: Flush_def flush_items_wf split: sum.split)

section \<open>What a send puts on the wire\<close>

text \<open>The answers that count as delivery: a 2xx whose body is blank or valid JSON.\<close>

definition portal_ok :: "string + response \<Rightarrow> bool" where
  "portal_ok a \<longleftrightarrow>
    (\<exists>resp b. a = Inr resp \<and> resp_body resp = Inr b \<and> 200 \<le> StatusCode resp \<and> StatusCode resp < 300
      \<and> (TrimSpace b = [] \<or> json_Valid b))"

text \<open>A request that carries a payload to an endpoint, authenticated with the token in both ways.\<close>

definition carries :: "env \<Rightarrow> engine \<Rightarrow> string \<Rightarrow> string \<Rightarrow> string \<Rightarrow> request \<Rightarrow> bool" where
  "carries E e token endpoint payload r \<longleftrightarrow>
    rq_method r = ''POST'' \<and> rq_url r = e_PortalURL e @ endpoint
    \<and> rq_body r = Body (fst (encodePayload E payload (e_Compression e))) None None
    \<and> rq_header r ''Authorization'' = Some (''Bearer '' @ token)
    \<and> signature_valid token r"

lemma judge_Inr: "(\<exists>x. judge a l = Inr x) \<longleftrightarrow> (\<exists>resp. a = Inr resp \<and> portal_ok (Inr resp))"
  by (auto simp: judge_def portal_ok_def not_le split: sum.splits)

lemma queueOnFailure_error: "snd (fst (run_state (queueOnFailure t p q cause) w)) \<noteq> None"
  by (simp add: queueOnFailure_def split: option.split)

lemma judge_not_queued: "judge a l = Inl cause \<Longrightarrow> (\<And>e. a = Inl e \<Longrightarrow> \<not> errors_Is e ErrQueued) \<Longrightarrow> \<not> errors_Is cause ErrQueued"
  by (auto simp: judge_def split: sum.splits if_splits)

lemma sync_request_fields:
  assumes "sync_request E e token ep p = Inr r"
  shows "rq_method r = ''POST''" "rq_url r = e_PortalURL e @ ep"
    "rq_body r = Body (fst (encodePayload E p (e_Compression e))) None None"
    "rq_header r ''Authorization'' = Some (''Bearer '' @ token)"
  using assms
  by (auto simp: sync_request_def NewRequest_def Let_def rq_header_Set header_keys split: sum.splits prod.splits)

lemma sync_request_carries:
  assumes "sync_request E e token ep p = Inr r"
    and "copy_of (c\<lparr>cl_Token := token\<rparr>) r (fst (encodePayload E p (e_Compression e))) s" and "token \<noteq> []"
  shows "carries E e token ep p s"
  using assms(2,3) sync_request_fields [OF assms(1)]
  by (simp add: copy_of_def carries_def signature_headers_def)

text \<open>
  One send: the requests \<open>rs\<close> it makes all carry the payload, and it reports success exactly when the
  last of them was acknowledged.
\<close>

lemma send_spec:
  assumes "rand_ok w"
  shows "\<exists>rs. wire (snd (run_state (send e ep t p q) w)) = wire w @ rs
    \<and> (\<forall>r\<in>set rs. \<exists>token. fst (run_state (GetSecret ''agent_token'') w) = Inr (Some token)
         \<and> carries (ev w) e token ep p r)
    \<and> (snd (fst (run_state (send e ep t p q) w)) = None \<longleftrightarrow>
        rs \<noteq> [] \<and> portal_ok (o_net (ev w) (length (wire w) + (length rs - 1)) (List.last rs)))
    \<and> ((\<exists>token r. fst (run_state (GetSecret ''agent_token'') w) = Inr (Some token) \<and> token \<noteq> []
         \<and> sync_request (ev w) e token ep p = Inr r) \<and> 0 \<le> cl_Retries (e_Client e) \<longrightarrow> rs \<noteq> [])"
proof -
  define w1 where "w1 = snd (run_state (GetSecret ''agent_token'') w)"
  have w1: "ev w1 = ev w" "wire w1 = wire w" by (simp_all add: w1_def)
  show ?thesis
  proof (cases "\<exists>token r. fst (run_state (GetSecret ''agent_token'') w) = Inr (Some token) \<and> token \<noteq> []
      \<and> sync_request (ev w) e token ep p = Inr r")
    case False
    then show ?thesis
      by (intro exI [of _ "[]"]) (auto simp: send_def w1_def [symmetric] w1 split: sum.split option.split)
  next
    case True
    then obtain token r where tr: "fst (run_state (GetSecret ''agent_token'') w) = Inr (Some token)"
      "token \<noteq> []" "sync_request (ev w) e token ep p = Inr r" by blast
    define w2 where "w2 = snd (run_state Time_Now w1)"
    have w2: "ev w2 = ev w" "wire w2 = wire w" by (simp_all add: w2_def w1)
    let ?c = "(e_Client e)\<lparr>cl_Token := token\<rparr>"
    let ?b = "fst (encodePayload (ev w) p (e_Compression e))"
    define answer where "answer = fst (run_state (Client_Do ?c r) w2)"
    define w3 where "w3 = snd (run_state (Client_Do ?c r) w2)"
    define l where "l = fst (run_state Time_Now w3) - fst (run_state Time_Now w1)"
    have d: "run_state (Client_Do ?c r) w2 = run_state (attempts ?c ?b (nat (cl_Retries (e_Client e) + 1)) r None) w2"
      by (simp add: Client_Do_def sync_request_fields(3) [OF tr(3)])
    obtain rs where rs: "wire w3 = wire w @ rs" "\<forall>s\<in>set rs. copy_of ?c r ?b s"
      "attempts_outcome ?c (nat (cl_Retries (e_Client e) + 1)) None w2 rs answer"
      using attempts_spec [of w2 ?c ?b "nat (cl_Retries (e_Client e) + 1)" r None] assms w2
      unfolding answer_def w3_def d by auto
    have eq: "run_state (send e ep t p q) w =
      (case judge answer l of Inl cause \<Rightarrow> run_state (queueOnFailure t p q cause) (snd (run_state Time_Now w3))
       | Inr result \<Rightarrow> ((result, None), snd (run_state Time_Now w3)))"
      using tr by (simp add: send_def w1_def [symmetric] w1 w2_def [symmetric] w3_def [symmetric]
          answer_def [symmetric] l_def [symmetric] split: sum.split)
    have ok: "(\<exists>x. judge answer l = Inr x) \<longleftrightarrow>
        rs \<noteq> [] \<and> portal_ok (o_net (ev w) (length (wire w) + (length rs - 1)) (List.last rs))"
      using rs(3) w2 unfolding judge_Inr
      by (auto simp: attempts_outcome_def portal_ok_def split: sum.splits if_splits)
    have car: "\<forall>s\<in>set rs. carries (ev w) e token ep p s"
      using rs(2) sync_request_carries [OF tr(3) _ tr(2)] by blast
    show ?thesis
    proof (intro exI [of _ rs] conjI)
      show "wire (snd (run_state (send e ep t p q) w)) = wire w @ rs"
        unfolding eq using rs(1) by (simp split: sum.split)
      show "\<forall>r\<in>set rs. \<exists>token. fst (run_state (GetSecret ''agent_token'') w) = Inr (Some token)
          \<and> carries (ev w) e token ep p r"
        using car tr(1) by blast
      show "(snd (fst (run_state (send e ep t p q) w)) = None) \<longleftrightarrow>
          rs \<noteq> [] \<and> portal_ok (o_net (ev w) (length (wire w) + (length rs - 1)) (List.last rs))"
        unfolding eq ok [symmetric] using queueOnFailure_error by (auto split: sum.split)
      show "(\<exists>token r. fst (run_state (GetSecret ''agent_token'') w) = Inr (Some token) \<and> token \<noteq> []
          \<and> sync_request (ev w) e token ep p = Inr r) \<and> 0 \<le> cl_Retries (e_Client e) \<longrightarrow> rs \<noteq> []"
        using rs(3) by (auto simp: attempts_outcome_def split: sum.splits)
    qed
  qed
qed

section \<open>Which errors mean queued\<close>

lemma retries_error_not_queued: "\<not> errors_Is (retries_error c l) ErrQueued"
  by (simp add: retries_error_def Let_def split: option.split)

lemma SignRequest_not_queued:
  "fst (run_state (SignRequest r token now) w) = Inl e \<Longrightarrow> \<not> errors_Is e ErrQueued"
  by (auto simp: SignRequest_def Let_def split: option.splits sum.splits)

lemma attempts_not_queued:
  "fst (run_state (attempts c b n r l) w) = Inl e \<Longrightarrow> \<not> errors_Is e ErrQueued"
  by (induction n arbitrary: r l w)
    (auto simp: retries_error_not_queued sign_attempt_def split: sum.splits if_splits dest: SignRequest_not_queued)

lemma Client_Do_not_queued:
  "fst (run_state (Client_Do c r) w) = Inl e \<Longrightarrow> \<not> errors_Is e ErrQueued"
  by (auto simp: Client_Do_def split: body.splits option.splits dest: attempts_not_queued)

lemma GetSecret_not_queued:
  "fst (run_state (GetSecret key) w) = Inl e \<Longrightarrow> \<not> errors_Is e ErrQueued"
  by (auto simp: GetSecret_def Get_def UnprotectSecret_def transform_def split: option.splits sum.splits if_splits)

lemma queueOnFailure_effect:
  assumes "\<not> errors_Is cause ErrQueued"
  shows "queued (snd (run_state (queueOnFailure t p q cause) w)) = queued w @
    (if errors_Is (the (snd (fst (run_state (queueOnFailure t p q cause) w)))) ErrQueued
     then [(next_rowid (map q_id (queue_tab w)), t, p)] else [])"
  using assms
  by (auto simp: queueOnFailure_def Enqueue_queued Enqueue_error split: option.split)

definition is_queued :: "error option \<Rightarrow> bool" where
  "is_queued err \<longleftrightarrow> (\<exists>e. err = Some e \<and> errors_Is e ErrQueued)"

text \<open>The error of a send tells exactly what happened to the queue.\<close>

lemma send_queue_effect:
  "queued (snd (run_state (send e ep t p q) w)) = queued w @
    (if is_queued (snd (fst (run_state (send e ep t p q) w)))
     then [(next_rowid (map q_id (queue_tab w)), t, p)] else [])"
proof -
  have cause: "\<not> errors_Is x ErrQueued"
    if "judge (fst (run_state (Client_Do c r) v)) l = Inl x" for c r v l x
    using judge_not_queued [OF that Client_Do_not_queued] .
  show ?thesis
    using queueOnFailure_error
    by (auto simp: send_def is_queued_def queueOnFailure_effect cause split: sum.splits option.splits
        dest: GetSecret_not_queued)
qed

section \<open>Flushing delivers a prefix of the queue, in order\<close>

definition carries_row :: "env \<Rightarrow> engine \<Rightarrow> int \<times> string \<times> string \<Rightarrow> request \<Rightarrow> bool" where
  "carries_row E e row r \<longleftrightarrow>
    (\<exists>token. carries E e token (routeForType (fst (snd row))) (snd (snd row)) r)"

text \<open>
  \<open>delivery_log E e k rows segs\<close>: from position \<open>k\<close> of the wire on, the segments of \<open>segs\<close> carry the rows
  one after the other, and the last request of each segment was acknowledged.
\<close>

fun delivery_log :: "env \<Rightarrow> engine \<Rightarrow> nat \<Rightarrow> (int \<times> string \<times> string) list \<Rightarrow> request list list \<Rightarrow> bool" where
  "delivery_log E e k [] [] \<longleftrightarrow> True"
| "delivery_log E e k (row # rows) (seg # segs) \<longleftrightarrow>
    seg \<noteq> [] \<and> (\<forall>r\<in>set seg. carries_row E e row r)
    \<and> portal_ok (o_net E (k + (length seg - 1)) (List.last seg))
    \<and> delivery_log E e (k + length seg) rows segs"
| "delivery_log E e k _ _ \<longleftrightarrow> False"

definition flush_outcome ::
  "engine \<Rightarrow> (int \<times> string \<times> string) list \<Rightarrow> int \<Rightarrow> world \<Rightarrow> (int \<times> error option) \<times> world \<Rightarrow> nat \<Rightarrow>
    request list list \<Rightarrow> request list \<Rightarrow> bool" where
  "flush_outcome e rows n w res k segs extra \<longleftrightarrow>
    k \<le> length rows
    \<and> fst (fst res) = n + int k
    \<and> queued (snd res) = drop k (queued w)
    \<and> wire (snd res) = wire w @ concat segs @ extra
    \<and> delivery_log (ev w) e (length (wire w)) (take k rows) segs
    \<and> (\<forall>r\<in>set extra. k < length rows \<and> carries_row (ev w) e (rows ! k) r)
    \<and> (snd (fst res) = None \<longrightarrow> k = length rows \<and> extra = [])"

lemma send_wire:
  assumes "rand_ok w"
  obtains rs where "wire (snd (run_state (send e ep t p q) w)) = wire w @ rs"
    and "\<forall>r\<in>set rs. \<exists>token. carries (ev w) e token ep p r"
    and "snd (fst (run_state (send e ep t p q) w)) = None \<longleftrightarrow>
      rs \<noteq> [] \<and> portal_ok (o_net (ev w) (length (wire w) + (length rs - 1)) (List.last rs))"
proof -
  from send_spec [OF assms, of e ep t p q] show thesis
    by (elim exE conjE) (rule that, assumption, blast+)
qed

lemma flush_items_spec:
  assumes "rand_ok w" and "queue_wf w" and "queued w = map item_row its @ rest"
    and "\<forall>it\<in>set its. routeForType (Type it) \<noteq> []"
  shows "\<exists>k segs extra. flush_outcome e (map item_row its) n w (run_state (flush_items e its n) w) k segs extra"
  using assms
proof (induction its arbitrary: n w)
  case Nil
  then show ?case
    by (intro exI [of _ 0] exI [of _ "[]"]) (simp add: flush_outcome_def)
next
  case (Cons it its)
  let ?ep = "routeForType (Type it)"
  define s where "s = run_state (send e ?ep (Type it) (Payload it) False) w"
  define d where "d = run_state (DeleteQueueItem (ID it)) (snd s)"
  have frame: "ev (snd s) = ev w" "queue_tab (snd s) = queue_tab w" "ev (snd d) = ev w"
    "wire (snd d) = wire (snd s)"
    by (simp_all add: s_def d_def)
  obtain rs where rs: "wire (snd s) = wire w @ rs" "\<forall>r\<in>set rs. carries_row (ev w) e (item_row it) r"
    "snd (fst s) = None \<longleftrightarrow> rs \<noteq> [] \<and> portal_ok (o_net (ev w) (length (wire w) + (length rs - 1)) (List.last rs))"
    using send_wire [OF Cons.prems(1), of e ?ep "Type it" "Payload it" False]
    unfolding s_def carries_row_def item_row_def by auto
  have run: "run_state (flush_items e (it # its) n) w =
    (case snd (fst s) of Some err \<Rightarrow> ((n, Some err), snd s)
     | None \<Rightarrow> (case fst d of Some err \<Rightarrow> ((n, Some err), snd d) | None \<Rightarrow> run_state (flush_items e its (n + 1)) (snd d)))"
    using Cons.prems(4) by (simp add: s_def d_def split: option.split)
  show ?case
  proof (cases "snd (fst s) = None \<and> fst d = None")
    case False
    then have "flush_outcome e (map item_row (it # its)) n w (run_state (flush_items e (it # its) n) w) 0 [] rs"
      using rs frame DeleteQueueItem_error [of "ID it" "snd s"]
      unfolding run by (auto simp: flush_outcome_def d_def split: option.split)
    then show ?thesis by blast
  next
    case True
    have tail: "queued (snd d) = map item_row its @ rest"
      unfolding d_def
      by (rule queue.del_head [where i = "ID it" and p = "(Type it, Payload it)"])
        (use Cons.prems True frame in \<open>auto simp: d_def item_row_def\<close>)
    have "queue_wf (snd d)"
      using Cons.prems(2) frame by (simp add: d_def DeleteQueueItem_wf)
    then obtain k segs extra where
      IH: "flush_outcome e (map item_row its) (n + 1) (snd d) (run_state (flush_items e its (n + 1)) (snd d)) k segs extra"
      using Cons.IH [of "snd d" "n + 1"] Cons.prems tail frame by auto
    have "flush_outcome e (map item_row (it # its)) n w (run_state (flush_items e (it # its) n) w) (Suc k) (rs # segs) extra"
      using IH True rs frame tail Cons.prems(3)
      unfolding run by (auto simp: flush_outcome_def add.assoc)
    then show ?thesis by blast
  qed
qed

text \<open>Both effects of a send, with the request that was acknowledged.\<close>

lemma send_report:
  fixes e ep t p q w
  assumes "rand_ok w"
  defines "err \<equiv> snd (fst (run_state (send e ep t p q) w))"
    and "w' \<equiv> snd (run_state (send e ep t p q) w)"
  shows "queued w' = queued w @ (if is_queued err then [(next_rowid (map q_id (queue_tab w)), t, p)] else [])
    \<and> (err = None \<longleftrightarrow> (\<exists>rs r token. wire w' = wire w @ rs @ [r] \<and> carries (ev w) e token ep p r
          \<and> portal_ok (o_net (ev w) (length (wire w) + length rs) r)))"
proof -
  obtain rs where rs: "wire w' = wire w @ rs" "\<forall>r\<in>set rs. \<exists>token. carries (ev w) e token ep p r"
    "err = None \<longleftrightarrow> rs \<noteq> [] \<and> portal_ok (o_net (ev w) (length (wire w) + (length rs - 1)) (List.last rs))"
    using send_wire [OF assms(1), of e ep t p q] unfolding err_def w'_def by auto
  have "err = None \<longleftrightarrow> (\<exists>ss r token. wire w' = wire w @ ss @ [r] \<and> carries (ev w) e token ep p r
          \<and> portal_ok (o_net (ev w) (length (wire w) + length ss) r))"
    using rs by (cases rs rule: rev_cases) auto
  then show ?thesis using send_queue_effect [of e ep t p q w] by (simp add: err_def w'_def)
qed

text \<open>Every queued payload has a type the engine can route: what the three senders enqueue.\<close>

definition routable :: "(int \<times> string \<times> string) list \<Rightarrow> bool" where
  "routable rows \<longleftrightarrow> (\<forall>row\<in>set rows. routeForType (fst (snd row)) \<noteq> [])"

lemma Flush_spec:
  assumes "rand_ok w" and "queue_wf w" and "routable (queued w)"
  shows "\<exists>rows k segs extra. flush_outcome e rows 0 w (run_state (Flush e) w) k segs extra
    \<and> (\<exists>m. rows = take m (queued w))
    \<and> (fst (run_state (Pending 100) w) = Inr its \<longrightarrow> rows = take 100 (queued w))"
proof (cases "fst (run_state (Pending 100) w)")
  case (Inl err)
  then have "flush_outcome e [] 0 w (run_state (Flush e) w) 0 [] []"
    by (simp add: Flush_def flush_outcome_def)
  with Inl show ?thesis by (metis Inl_Inr_False take0)
next
  case (Inr js)
  define v where "v = snd (run_state (Pending 100) w)"
  have v: "ev v = ev w" "queue_tab v = queue_tab w" "wire v = wire w" by (simp_all add: v_def)
  have rows: "map item_row js = take 100 (queued w)"
    using Pending_result [OF Inr assms(2)] by simp
  have split: "queued v = map item_row js @ drop 100 (queued w)"
    using v rows by simp
  have types: "\<forall>it\<in>set js. routeForType (Type it) \<noteq> []"
  proof
    fix it assume "it \<in> set js"
    then have "item_row it \<in> set (take 100 (queued w))" by (metis rows image_eqI list.set_map)
    then have "item_row it \<in> set (queued w)" by (rule in_set_takeD)
    with assms(3) show "routeForType (Type it) \<noteq> []"
      by (fastforce simp: routable_def item_row_def)
  qed
  have "rand_ok v" "queue_wf v" using assms v by simp_all
  from flush_items_spec [OF this split types, of e 0]
  obtain k segs extra where "flush_outcome e (map item_row js) 0 v (run_state (flush_items e js 0) v) k segs extra"
    by blast
  then have "flush_outcome e (take 100 (queued w)) 0 w (run_state (Flush e) w) k segs extra"
    using Inr v by (auto simp: Flush_def v_def [symmetric] flush_outcome_def rows min.absorb1)
  then show ?thesis by blast
qed

section \<open>When the Portal answers\<close>

text \<open>A registered agent with a Portal URL that parses, a working random source and database.\<close>

definition ready :: "engine \<Rightarrow> string \<Rightarrow> world \<Rightarrow> bool" where
  "ready e token w \<longleftrightarrow>
    sql_ok w \<and> rand_ok w \<and> holds_secret w ''agent_token'' token \<and> token \<noteq> []
    \<and> (\<forall>ep. \<exists>path. o_url (ev w) (e_PortalURL e @ ep) = Inr path) \<and> 0 \<le> cl_Retries (e_Client e)"

lemma ready_cong: "ev v = ev w \<Longrightarrow> config_tab v = config_tab w \<Longrightarrow> ready e token v \<longleftrightarrow> ready e token w"
  by (simp add: ready_def)

lemma sync_request_ok:
  assumes "o_url E (e_PortalURL e @ ep) = Inr path"
  shows "\<exists>r. sync_request E e token ep p = Inr r"
  using assms by (simp add: sync_request_def NewRequest_def Let_def split: prod.split)

lemma send_ready:
  assumes "ready e token w"
  obtains rs where "wire (snd (run_state (send e ep t p q) w)) = wire w @ rs" "rs \<noteq> []"
    "\<forall>r\<in>set rs. carries (ev w) e token ep p r"
    "snd (fst (run_state (send e ep t p q) w)) = None \<longleftrightarrow>
      portal_ok (o_net (ev w) (length (wire w) + (length rs - 1)) (List.last rs))"
proof -
  have secret: "fst (run_state (GetSecret ''agent_token'') w) = Inr (Some token)"
    using assms by (simp add: ready_def run_simps)
  obtain path where "o_url (ev w) (e_PortalURL e @ ep) = Inr path"
    using assms by (auto simp: ready_def)
  then obtain r where "sync_request (ev w) e token ep p = Inr r"
    using sync_request_ok by blast
  with assms secret have pre: "(\<exists>token r. fst (run_state (GetSecret ''agent_token'') w) = Inr (Some token)
      \<and> token \<noteq> [] \<and> sync_request (ev w) e token ep p = Inr r) \<and> 0 \<le> cl_Retries (e_Client e)"
    by (auto simp: ready_def)
  have "rand_ok w" using assms by (simp add: ready_def)
  from send_spec [OF this, of e ep t p q] obtain rs where
    rs: "wire (snd (run_state (send e ep t p q) w)) = wire w @ rs"
    "\<forall>r\<in>set rs. \<exists>token. fst (run_state (GetSecret ''agent_token'') w) = Inr (Some token)
         \<and> carries (ev w) e token ep p r"
    "snd (fst (run_state (send e ep t p q) w)) = None \<longleftrightarrow>
        rs \<noteq> [] \<and> portal_ok (o_net (ev w) (length (wire w) + (length rs - 1)) (List.last rs))"
    and "rs \<noteq> []"
    by (elim exE conjE) (use pre in metis)
  then show thesis using secret by (intro that [of rs]) auto
qed

lemma flush_items_ready:
  assumes "ready e token w" and "\<forall>n r. portal_ok (o_net (ev w) n r)"
  shows "snd (fst (run_state (flush_items e its n) w)) = None"
  using assms
proof (induction its arbitrary: n w)
  case (Cons it its)
  define s where "s = run_state (send e (routeForType (Type it)) (Type it) (Payload it) False) w"
  define d where "d = run_state (DeleteQueueItem (ID it)) (snd s)"
  have frame: "ev (snd s) = ev w" "ev (snd d) = ev w" "config_tab (snd d) = config_tab w"
    by (simp_all add: s_def d_def)
  have "snd (fst s) = None"
    using send_ready [OF Cons.prems(1), of "routeForType (Type it)" "Type it" "Payload it" False] Cons.prems(2)
    unfolding s_def by metis
  moreover have "fst d = None"
    using Cons.prems(1) frame by (simp add: d_def run_simps ready_def)
  moreover have "snd (fst (run_state (flush_items e its m) (snd d))) = None" for m
    using Cons.IH [of "snd d" m] Cons.prems frame ready_cong [of "snd d" w] by simp
  ultimately show ?case
    using Cons.IH [of w n] Cons.prems by (simp add: s_def d_def)
qed simp

lemma queueOnFailure_ready:
  assumes "sql_ok w" and "never_cancelled w"
  shows "is_queued (snd (fst (run_state (queueOnFailure t p True cause) w)))"
  using assms by (simp add: queueOnFailure_def run_simps is_queued_def)

lemma send_ready_queues:
  assumes "ready e token w" and "never_cancelled w"
    and "snd (fst (run_state (send e ep t p True) w)) \<noteq> None"
  shows "is_queued (snd (fst (run_state (send e ep t p True) w)))"
proof -
  have secret: "fst (run_state (GetSecret ''agent_token'') w) = Inr (Some token)" "token \<noteq> []"
    using assms by (simp_all add: ready_def run_simps)
  obtain path where "o_url (ev w) (e_PortalURL e @ ep) = Inr path"
    using assms by (auto simp: ready_def)
  then obtain r where "sync_request (ev w) e token ep p = Inr r"
    using sync_request_ok by blast
  with assms secret show ?thesis
    by (auto simp: send_def ready_def queueOnFailure_ready split: sum.splits)
qed

lemma flush_when_ready:
  assumes "ready e token w" and "\<forall>n r. portal_ok (o_net (ev w) n r)"
    and "queue_wf w" and "routable (queued w)"
  shows "fst (run_state (Flush e) w) = (int (min (length (queued w)) 100), None)
    \<and> queued (snd (run_state (Flush e) w)) = drop 100 (queued w)"
proof -
  have "sql_ok w" "rand_ok w" using assms(1) by (simp_all add: ready_def)
  then obtain its where its: "fst (run_state (Pending 100) w) = Inr its"
    using Pending_ok by blast
  obtain rows k segs extra where o: "flush_outcome e rows 0 w (run_state (Flush e) w) k segs extra"
    and rows: "rows = take 100 (queued w)"
    using Flush_spec [OF \<open>rand_ok w\<close> assms(3,4), of e its] its by blast
  have "ready e token (snd (run_state (Pending 100) w))"
    using assms(1) ready_cong [of "snd (run_state (Pending 100) w)" w] by simp
  then have "snd (fst (run_state (Flush e) w)) = None"
    using flush_items_ready [of e token "snd (run_state (Pending 100) w)" its 0] assms(2) its
    by (simp add: Flush_def)
  with o have "k = length rows" "fst (fst (run_state (Flush e) w)) = int k"
    "queued (snd (run_state (Flush e) w)) = drop k (queued w)"
    by (simp_all add: flush_outcome_def)
  with \<open>snd (fst (run_state (Flush e) w)) = None\<close> show ?thesis
    by (auto simp: rows prod_eq_iff min_def)
qed

section \<open>A concrete agent\<close>

definition token_row :: config_row where
  "token_row = \<lparr>c_value = b64_EncodeToString ''Ptok'', c_updated_at = []\<rparr>"

definition queue_row1 :: "int \<Rightarrow> string \<Rightarrow> string \<Rightarrow> queue_row" where
  "queue_row1 i t p = \<lparr>q_id = i, q_type = t, q_payload = p, q_status = ''pending'', q_created_at = []\<rparr>"

text \<open>A registered agent with two payloads in its queue, and its engine.\<close>

definition world1 :: world where
  "world1 = world0\<lparr>config_tab := [''agent_token'' \<mapsto> token_row],
    queue_tab := [queue_row1 4 ''inventory'' ''{}'', queue_row1 7 ''heartbeat'' ''[1]'']\<rparr>"

definition engine1 :: engine where
  "engine1 = New_engine env0 \<lparr>so_PortalURL = ''https://portal/'', so_Proxy = [], so_TLSValidate = True,
    so_Compression = [], so_Timeout = 0, so_RetryDelay = 0\<rparr>"

lemma engine1_client: "cl_Retries (e_Client engine1) = 3"
  by (simp add: engine1_def New_engine_def NewWithOptions_def Let_def)

lemma world1_ready: "ready engine1 ''tok'' world1"
proof -
  have "env_holds_secret env0 [''agent_token'' \<mapsto> token_row] ''agent_token'' ''tok''"
    unfolding env_holds_secret_def
    by (rule exI [of _ "''Ptok''"]) (simp add: tab_value_def token_row_def env0_def)
  moreover have "\<exists>path. o_url env0 u = Inr path" for u by (simp add: env0_def)
  moreover have "ev world0 = env0" by (simp add: world0_def)
  moreover note world0_ok
  ultimately show ?thesis
    by (simp add: ready_def world1_def engine1_client)
qed

lemma world1_facts:
  "rand_ok world1" "queue_wf world1" "routable (queued world1)" "never_cancelled world1"
  "queued world1 = [(4, ''inventory'', ''{}''), (7, ''heartbeat'', ''[1]'')]"
  "\<forall>n r. portal_ok (o_net (ev world1) n r)"
  using world0_ok
  by (simp_all add: world1_def rows_wf_def routable_def pending_rows_def queue_row1_def routeForType_def
      HeartbeatType_def InventoryType_def portal_ok_def)
    (simp add: world0_def env0_def)

section \<open>Properties\<close>

text \<open>
  The error \<open>SendJSON\<close> returns tells what became of the payload. Once the payload is marshalled, the
  queue grows by exactly this payload, under a fresh id at its end, when the error is
  \<open>ErrQueued\<close>, and is untouched otherwise; the error is nil exactly when the last request that went
  out carried the payload to the endpoint, signed and with the bearer token, and the Portal
  acknowledged it.
\<close>

theorem SendJSON_accounts:
  assumes "rand_ok w" and "run_state (SendJSON e ep t (Inr data)) w = ((res, err), w')"
  shows "queued w' = queued w @ (if is_queued err then [(next_rowid (map q_id (queue_tab w)), t, data)] else [])
    \<and> (err = None \<longleftrightarrow> (\<exists>rs r token. wire w' = wire w @ rs @ [r] \<and> carries (ev w) e token ep data r
          \<and> portal_ok (o_net (ev w) (length (wire w) + length rs) r)))"
  using send_report [OF assms(1), of e ep t data True] assms(2) by (simp add: SendJSON_def)

theorem SendJSON_accounts_witness:
  "\<exists>res err w'. run_state (SendJSON engine1 ''/api/agent/heartbeat'' ''heartbeat'' (Inr ''{}'')) world1 = ((res, err), w')
    \<and> queued w' = queued world1 @ (if is_queued err then [(8, ''heartbeat'', ''{}'')] else [])"
proof -
  obtain res err w' where
    run: "run_state (SendJSON engine1 ''/api/agent/heartbeat'' ''heartbeat'' (Inr ''{}'')) world1 = ((res, err), w')"
    by (metis surj_pair)
  have "next_rowid (map q_id (queue_tab world1)) = 8"
    by (simp add: next_rowid_def world1_def queue_row1_def)
  then show ?thesis
    using SendJSON_accounts [OF world1_facts(1) run] run by auto
qed

text \<open>
  C4. No payload is lost while the agent is registered and its database works: whatever the network does,
  \<open>SendJSON\<close> either delivers the marshalled payload or leaves it at the end of the offline queue.
\<close>

theorem SendJSON_never_loses:
  assumes "ready e token w" and "never_cancelled w"
    and "run_state (SendJSON e ep t (Inr data)) w = ((res, err), w')"
  shows "(err = None \<and> queued w' = queued w
          \<and> (\<exists>rs r. wire w' = wire w @ rs @ [r] \<and> carries (ev w) e token ep data r
              \<and> portal_ok (o_net (ev w) (length (wire w) + length rs) r)))
    \<or> (is_queued err \<and> (\<exists>i. queued w' = queued w @ [(i, t, data)]))"
proof -
  have run: "run_state (send e ep t data True) w = ((res, err), w')"
    using assms(3) by (simp add: SendJSON_def)
  have effect: "queued w' = queued w @ (if is_queued err then [(next_rowid (map q_id (queue_tab w)), t, data)] else [])"
    using send_queue_effect [of e ep t data True w] unfolding run by simp
  obtain rs where rs: "wire w' = wire w @ rs" "rs \<noteq> []" "\<forall>r\<in>set rs. carries (ev w) e token ep data r"
    "err = None \<longleftrightarrow> portal_ok (o_net (ev w) (length (wire w) + (length rs - 1)) (List.last rs))"
    using send_ready [OF assms(1), of ep t data True] unfolding run by auto
  show ?thesis
  proof (cases "err = None")
    case True
    then have "\<exists>ss r. wire w' = wire w @ ss @ [r] \<and> carries (ev w) e token ep data r
        \<and> portal_ok (o_net (ev w) (length (wire w) + length ss) r)"
      using rs by (cases rs rule: rev_cases) auto
    with True effect show ?thesis by (simp add: is_queued_def)
  next
    case False
    then have "is_queued err"
      using send_ready_queues [OF assms(1,2), of ep t data] unfolding run by simp
    with effect show ?thesis by simp
  qed
qed

theorem SendJSON_never_loses_witness:
  "\<exists>res err w'. run_state (SendJSON engine1 ''/api/agent/heartbeat'' ''heartbeat'' (Inr ''{}'')) world1 = ((res, err), w')
    \<and> (err = None \<or> is_queued err)"
proof -
  obtain res err w' where
    run: "run_state (SendJSON engine1 ''/api/agent/heartbeat'' ''heartbeat'' (Inr ''{}'')) world1 = ((res, err), w')"
    by (metis surj_pair)
  show ?thesis
    using SendJSON_never_loses [OF world1_ready world1_facts(4) run] run by blast
qed

text \<open>
  C12. A flush is first-in first-out. Whatever fails, it delivers some prefix of the queue in queue order,
  each payload by at least one acknowledged request, removes exactly that prefix and returns
  its length; what else it may have put on the wire is attempts for the next payload only.
\<close>

theorem Flush_fifo:
  assumes "rand_ok w" and "queue_wf w" and "routable (queued w)"
    and "run_state (Flush e) w = ((n, err), w')"
  shows "\<exists>k segs extra. n = int k \<and> k \<le> length (queued w)
    \<and> queued w' = drop k (queued w) \<and> queue_wf w'
    \<and> wire w' = wire w @ concat segs @ extra
    \<and> delivery_log (ev w) e (length (wire w)) (take k (queued w)) segs
    \<and> (\<forall>r\<in>set extra. carries_row (ev w) e (queued w ! k) r)"
proof -
  obtain rows k segs extra m where o: "flush_outcome e rows 0 w ((n, err), w') k segs extra"
    and m: "rows = take m (queued w)"
    using Flush_spec [OF assms(1-3), of e] assms(4) by metis
  have "queue_wf w'" using Flush_wf [OF assms(2), of e] assms(4) by simp
  moreover have "take k rows = take k (queued w)" "k \<le> length (queued w)"
    using o m by (auto simp: flush_outcome_def min.absorb1)
  ultimately show ?thesis
    using o m by (intro exI [of _ k] exI [of _ segs] exI [of _ extra]) (auto simp: flush_outcome_def)
qed

theorem Flush_fifo_witness:
  "\<exists>n err w' k. run_state (Flush engine1) world1 = ((n, err), w') \<and> n = int k
    \<and> queued w' = drop k [(4, ''inventory'', ''{}''), (7, ''heartbeat'', ''[1]'')]"
proof -
  obtain n err w' where run: "run_state (Flush engine1) world1 = ((n, err), w')"
    by (metis surj_pair)
  show ?thesis
    using Flush_fifo [OF world1_facts(1-3) run] run unfolding world1_facts(5) by blast
qed

text \<open>
  The queue drains: when the agent is ready and the Portal acknowledges every request, a flush delivers
  up to 100 payloads, returns how many, reports no error and leaves the rest in order.
\<close>

theorem Flush_drains:
  assumes "ready e token w" and "\<forall>n r. portal_ok (o_net (ev w) n r)"
    and "queue_wf w" and "routable (queued w)"
  shows "fst (run_state (Flush e) w) = (int (min (length (queued w)) 100), None)
    \<and> queued (snd (run_state (Flush e) w)) = drop 100 (queued w)"
  using flush_when_ready [OF assms] .

theorem Flush_drains_witness:
  "fst (run_state (Flush engine1) world1) = (2, None) \<and> queued (snd (run_state (Flush engine1) world1)) = []"
  using Flush_drains [OF world1_ready world1_facts(6,2,3)] by (simp add: world1_facts(5))

end
