(* ===== verification/GoSort.thy ===== *)
theory GoSort
  imports Prelude
begin

text \<open>
  Package \<open>sort\<close>: \<open>sort.Slice\<close> with a comparison function. The library's algorithm is not stable and not
  specified, so \<open>sort_Slice\<close> is one sorting function, and the interface \<open>slice_order\<close> shows when the choice
  does not matter: for a strict weak order that separates the elements of the slice, every
  sorted permutation is the one computed here.
\<close>

fun insert_by :: "('a \<Rightarrow> 'a \<Rightarrow> bool) \<Rightarrow> 'a \<Rightarrow> 'a list \<Rightarrow> 'a list" where
  "insert_by lt x [] = [x]"
| "insert_by lt x (y # ys) = (if lt y x then y # insert_by lt x ys else x # y # ys)"

definition sort_Slice :: "('a \<Rightarrow> 'a \<Rightarrow> bool) \<Rightarrow> 'a list \<Rightarrow> 'a list" where
  "sort_Slice lt xs = foldr (insert_by lt) xs []"

lemma mset_insert_by [simp]: "mset (insert_by lt x xs) = add_mset x (mset xs)"
  by (induction xs) auto

lemma mset_sort_Slice [simp]: "mset (sort_Slice lt xs) = mset xs"
  unfolding sort_Slice_def by (induction xs) auto

lemma set_insert_by [simp]: "set (insert_by lt x xs) = insert x (set xs)"
  by (induction xs) auto

lemma set_sort_Slice [simp]: "set (sort_Slice lt xs) = set xs"
  by (metis mset_sort_Slice set_mset_mset)

text \<open>What \<open>sort.Slice\<close> promises: a permutation in which no element is less than an earlier one.\<close>

definition slice_sorted :: "('a \<Rightarrow> 'a \<Rightarrow> bool) \<Rightarrow> 'a list \<Rightarrow> bool" where
  "slice_sorted lt xs \<longleftrightarrow> sorted_wrt (\<lambda>x y. \<not> lt y x) xs"

locale slice_order =
  fixes lt :: "'a \<Rightarrow> 'a \<Rightarrow> bool"
  assumes irrefl: "\<not> lt x x"
    and trans: "lt x y \<Longrightarrow> lt y z \<Longrightarrow> lt x z"
    and weak: "\<not> lt x y \<Longrightarrow> \<not> lt y z \<Longrightarrow> \<not> lt x z"
begin

lemma asym: "lt x y \<Longrightarrow> \<not> lt y x"
  using trans irrefl by blast

lemma insert_by_sorted: "slice_sorted lt xs \<Longrightarrow> slice_sorted lt (insert_by lt x xs)"
  by (induction xs) (auto simp: slice_sorted_def dest: asym weak)

lemma sort_Slice_sorted: "slice_sorted lt (sort_Slice lt xs)"
  unfolding sort_Slice_def
  by (induction xs) (simp_all add: insert_by_sorted, simp add: slice_sorted_def)

lemma sorted_perm_unique:
  assumes "slice_sorted lt xs" and "slice_sorted lt ys" and "mset xs = mset ys"
    and "\<And>x y. x \<in> set xs \<Longrightarrow> y \<in> set xs \<Longrightarrow> x \<noteq> y \<Longrightarrow> lt x y \<or> lt y x"
  shows "xs = ys"
  using assms
proof (induction xs arbitrary: ys)
  case Nil
  then show ?case by simp
next
  case (Cons x xs)
  then obtain y zs where ys: "ys = y # zs" by (cases ys) auto
  have sets: "set (x # xs) = set ys" using Cons.prems(3) by (metis set_mset_mset)
  have "x = y"
  proof (rule ccontr)
    assume "x \<noteq> y"
    then have "x \<in> set zs" "y \<in> set xs" using sets unfolding ys by auto
    then have "\<not> lt x y" "\<not> lt y x"
      using Cons.prems(1,2) unfolding ys by (simp_all add: slice_sorted_def)
    with \<open>x \<noteq> y\<close> \<open>y \<in> set xs\<close> Cons.prems(4) [of x y] show False by simp
  qed
  moreover have "xs = zs"
    using Cons.prems \<open>x = y\<close> unfolding ys by (intro Cons.IH) (simp_all add: slice_sorted_def)
  ultimately show ?case by (simp add: ys)
qed

text \<open>Sorting does not depend on the order of the input when the elements are separated.\<close>

lemma sort_Slice_perm:
  assumes "mset xs = mset ys"
    and "\<And>x y. x \<in> set xs \<Longrightarrow> y \<in> set xs \<Longrightarrow> x \<noteq> y \<Longrightarrow> lt x y \<or> lt y x"
  shows "sort_Slice lt xs = sort_Slice lt ys"
  by (rule sorted_perm_unique [OF sort_Slice_sorted sort_Slice_sorted])
    (use assms in simp_all)

lemma sort_Slice_unique:
  assumes "slice_sorted lt ys" and "mset ys = mset xs"
    and "\<And>x y. x \<in> set xs \<Longrightarrow> y \<in> set xs \<Longrightarrow> x \<noteq> y \<Longrightarrow> lt x y \<or> lt y x"
  shows "sort_Slice lt xs = ys"
  by (rule sorted_perm_unique [OF sort_Slice_sorted assms(1)]) (use assms(2,3) in simp_all)

lemma sort_Slice_id: "slice_sorted lt xs \<Longrightarrow> sort_Slice lt xs = xs"
proof (induction xs)
  case Nil
  then show ?case by (simp add: sort_Slice_def)
next
  case (Cons x xs)
  then have "sort_Slice lt (x # xs) = insert_by lt x xs"
    by (simp add: sort_Slice_def slice_sorted_def)
  then show ?case using Cons.prems by (cases xs) (simp_all add: slice_sorted_def)
qed

end

text \<open>Comparing by a key in a linear order is such an order.\<close>

lemma key_slice_order: "slice_order (\<lambda>x y. (f x :: 'b::linorder) < f y)"
  by unfold_locales auto

end
