(* ===== verification/SoftNormalize.thy ===== *)
theory SoftNormalize
  imports GoSort GoStrings GoCodec "HOL-Library.AList" "HOL-Library.Product_Lexorder"
begin

text \<open>
  Package \<open>internal/software\<close>, \<open>normalize.go\<close> and the record of \<open>models.go\<close>: the canonical form of an
  installation, its identity fingerprint and the removal of duplicates. The letter case table \<open>u\<close> of
  package \<open>unicode\<close> is a parameter. The map of the source is an association list; the order in
  which Go ranges over it is up to the runtime, so it is a parameter too.
\<close>

section \<open>Installations\<close>

text \<open>A local time is its instant in nanoseconds and its zone offset in seconds.\<close>

record Installation =
  in_Name :: string
  in_DisplayName :: string
  in_Version :: string
  in_Publisher :: string
  in_Architecture :: string
  in_InstallDate :: "(int \<times> int) option"
  in_InstallLocation :: string
  in_UninstallString :: string
  in_QuietUninstallString :: string
  in_RegistryKey :: string
  in_Source :: string
  in_Scope :: string
  in_Evidence :: string
  in_FirstSeen :: int
  in_LastSeen :: int

definition clean :: "string \<Rightarrow> string" where
  "clean v = Join (Fields (TrimSpace v)) '' ''"

definition Normalize :: "(nat \<Rightarrow> nat) \<Rightarrow> string \<Rightarrow> string" where
  "Normalize u v = ToLower u (clean v)"

definition NormalizeInstallation :: "Installation \<Rightarrow> Installation" where
  "NormalizeInstallation item0 =
    (let item1 = item0\<lparr>in_Name := clean (in_Name item0), in_DisplayName := clean (in_DisplayName item0)\<rparr>;
         item2 = (if in_DisplayName item1 = [] then item1\<lparr>in_DisplayName := in_Name item1\<rparr> else item1);
         item = (if in_Name item2 = [] then item2\<lparr>in_Name := in_DisplayName item2\<rparr> else item2)
     in item\<lparr>in_Version := clean (in_Version item),
          in_Publisher := clean (in_Publisher item),
          in_Architecture := clean (in_Architecture item),
          in_InstallLocation := clean (in_InstallLocation item),
          in_UninstallString := clean (in_UninstallString item),
          in_QuietUninstallString := clean (in_QuietUninstallString item),
          in_RegistryKey := clean (in_RegistryKey item),
          in_Source := clean (in_Source item),
          in_Scope := clean (in_Scope item),
          in_Evidence := clean (in_Evidence item)\<rparr>)"

definition sw_Fingerprint :: "(nat \<Rightarrow> nat) \<Rightarrow> Installation \<Rightarrow> string" where
  "sw_Fingerprint u item0 =
    (let item = NormalizeInstallation item0;
         identity = Join [Normalize u (in_Name item), Normalize u (in_Publisher item),
           Normalize u (in_Version item), Normalize u (in_Architecture item)] ''|''
     in hex_EncodeToString (sha256_Sum256 identity))"

definition sourceRank :: "string \<Rightarrow> int" where
  "sourceRank source =
    (if source = ''REGISTRY_MACHINE_64'' then 3
     else if source = ''REGISTRY_MACHINE_32'' then 2
     else if source = ''REGISTRY_USER'' then 1
     else 0)"

section \<open>Duplicates\<close>

definition dedup_step :: "(nat \<Rightarrow> nat) \<Rightarrow> (string \<times> Installation) list \<Rightarrow> Installation \<Rightarrow> (string \<times> Installation) list" where
  "dedup_step u byFingerprint item0 =
    (let item = NormalizeInstallation item0 in
     if in_Name item = [] then byFingerprint
     else let fingerprint = sw_Fingerprint u item in
       case map_of byFingerprint fingerprint of
         Some existing \<Rightarrow>
           if sourceRank (in_Source existing) < sourceRank (in_Source item)
             \<or> length (in_InstallLocation existing) < length (in_InstallLocation item)
           then AList.update fingerprint item byFingerprint
           else byFingerprint
       | None \<Rightarrow> AList.update fingerprint item byFingerprint)"

definition sw_less :: "(nat \<Rightarrow> nat) \<Rightarrow> Installation \<Rightarrow> Installation \<Rightarrow> bool" where
  "sw_less u i j =
    (let left = Normalize u (in_Name i); right = Normalize u (in_Name j)
     in if left = right then sw_Fingerprint u i < sw_Fingerprint u j else left < right)"

definition NormalizeAndDeduplicate ::
  "(nat \<Rightarrow> nat) \<Rightarrow> (Installation list \<Rightarrow> Installation list) \<Rightarrow> Installation list \<Rightarrow> Installation list" where
  "NormalizeAndDeduplicate u range_order items =
    sort_Slice (sw_less u) (range_order (map snd (foldl (dedup_step u) [] items)))"

section \<open>Canonical forms\<close>

lemma clean_Nil [simp]: "clean [] = []"
  by (simp add: clean_def Fields.simps trim_left_space.simps Let_def)

lemma clean_idem [simp]: "clean (clean v) = clean v"
  by (simp add: clean_def Fields_TrimSpace_Join_idem)

lemma NormalizeInstallation_fields [simp]:
  "in_Name (NormalizeInstallation i) = (if clean (in_Name i) = [] then clean (in_DisplayName i) else clean (in_Name i))"
  "in_DisplayName (NormalizeInstallation i) =
    (if clean (in_DisplayName i) = [] then clean (in_Name i) else clean (in_DisplayName i))"
  "in_Version (NormalizeInstallation i) = clean (in_Version i)"
  "in_Publisher (NormalizeInstallation i) = clean (in_Publisher i)"
  "in_Architecture (NormalizeInstallation i) = clean (in_Architecture i)"
  "in_InstallDate (NormalizeInstallation i) = in_InstallDate i"
  "in_InstallLocation (NormalizeInstallation i) = clean (in_InstallLocation i)"
  "in_UninstallString (NormalizeInstallation i) = clean (in_UninstallString i)"
  "in_QuietUninstallString (NormalizeInstallation i) = clean (in_QuietUninstallString i)"
  "in_RegistryKey (NormalizeInstallation i) = clean (in_RegistryKey i)"
  "in_Source (NormalizeInstallation i) = clean (in_Source i)"
  "in_Scope (NormalizeInstallation i) = clean (in_Scope i)"
  "in_Evidence (NormalizeInstallation i) = clean (in_Evidence i)"
  "in_FirstSeen (NormalizeInstallation i) = in_FirstSeen i"
  "in_LastSeen (NormalizeInstallation i) = in_LastSeen i"
  by (simp_all add: NormalizeInstallation_def Let_def)

lemma NormalizeInstallation_idem [simp]:
  "NormalizeInstallation (NormalizeInstallation i) = NormalizeInstallation i"
  by (rule Installation.equality) simp_all

lemma Fingerprint_normalized [simp]: "sw_Fingerprint u (NormalizeInstallation i) = sw_Fingerprint u i"
  unfolding sw_Fingerprint_def NormalizeInstallation_idem by (rule refl)

section \<open>The order\<close>

lemma sw_less_key: "sw_less u i j \<longleftrightarrow>
  (Normalize u (in_Name i), sw_Fingerprint u i) < (Normalize u (in_Name j), sw_Fingerprint u j)"
  by (auto simp: sw_less_def Let_def less_prod_def)

interpretation installations: slice_order "sw_less u" for u
  unfolding sw_less_key by (rule key_slice_order)

lemma sw_less_total: "sw_Fingerprint u i \<noteq> sw_Fingerprint u j \<Longrightarrow> sw_less u i j \<or> sw_less u j i"
  by (auto simp: sw_less_def Let_def)

section \<open>What the loop keeps\<close>

text \<open>The named installations of a list, in canonical form.\<close>

definition named :: "Installation list \<Rightarrow> Installation list" where
  "named items = filter (\<lambda>i. in_Name i \<noteq> []) (map NormalizeInstallation items)"

definition dedup_inv :: "(nat \<Rightarrow> nat) \<Rightarrow> Installation list \<Rightarrow> (string \<times> Installation) list \<Rightarrow> bool" where
  "dedup_inv u items m \<longleftrightarrow>
    distinct (map fst m)
    \<and> (\<forall>(k, i)\<in>set m. k = sw_Fingerprint u i \<and> i \<in> set (named items))
    \<and> fst ` set m = sw_Fingerprint u ` set (named items)"

lemma set_update:
  "distinct (map fst m) \<Longrightarrow> set (AList.update k v m) = insert (k, v) {p \<in> set m. fst p \<noteq> k}"
  by (induction m) (auto simp: image_iff)

lemma keys_without: "fst ` {p \<in> S. fst p \<noteq> k} = fst ` S - {k}"
  by auto

lemma dedup_step_inv:
  assumes "dedup_inv u items m"
  shows "dedup_inv u (items @ [item]) (dedup_step u m item)"
proof (cases "in_Name (NormalizeInstallation item) = []")
  case True
  with assms show ?thesis by (simp add: dedup_step_def dedup_inv_def named_def)
next
  case False
  let ?i = "NormalizeInstallation item"
  let ?k = "sw_Fingerprint u ?i"
  have upd: "dedup_inv u (items @ [item]) (AList.update ?k ?i m)"
    using assms False by (simp add: dedup_inv_def named_def set_update distinct_update keys_without) auto
  have "dedup_inv u (items @ [item]) m" if "map_of m ?k = Some e" for e
  proof -
    have "?k \<in> fst ` set m" using that by (metis map_of_SomeD fst_conv image_eqI)
    with assms False show ?thesis by (auto simp: dedup_inv_def named_def)
  qed
  with upd False show ?thesis
    by (simp add: dedup_step_def Let_def split: option.split)
qed

lemma dedup_loop_inv: "dedup_inv u items (foldl (dedup_step u) [] items)"
  by (induction items rule: rev_induct)
    (simp_all add: dedup_step_inv, simp add: dedup_inv_def named_def)

lemma update_append: "k \<notin> fst ` set m \<Longrightarrow> AList.update k v m = m @ [(k, v)]"
  by (induction m) auto

lemma dedup_values:
  fixes u items
  defines "vs \<equiv> map snd (foldl (dedup_step u) [] items)"
  shows "set vs \<subseteq> set (named items)" "sw_Fingerprint u ` set vs = sw_Fingerprint u ` set (named items)"
    "distinct (map (sw_Fingerprint u) vs)"
proof -
  define m where "m = foldl (dedup_step u) [] items"
  have inv: "dedup_inv u items m" unfolding m_def by (rule dedup_loop_inv)
  then have keys: "map fst m = map (sw_Fingerprint u) (map snd m)"
    by (auto simp: dedup_inv_def)
  have vs: "vs = map snd m" by (simp add: vs_def m_def)
  show "set vs \<subseteq> set (named items)" using inv by (auto simp: vs dedup_inv_def)
  show "distinct (map (sw_Fingerprint u) vs)" using inv keys by (simp add: vs dedup_inv_def)
  have "sw_Fingerprint u ` set vs = set (map fst m)" unfolding keys vs by auto
  then show "sw_Fingerprint u ` set vs = sw_Fingerprint u ` set (named items)"
    using inv by (simp add: dedup_inv_def)
qed

lemma distinct_fingerprints_separate:
  assumes "distinct (map (sw_Fingerprint u) vs)" and "x \<in> set vs" and "y \<in> set vs" and "x \<noteq> y"
  shows "sw_less u x y \<or> sw_less u y x"
  using assms by (intro sw_less_total) (auto simp: distinct_map inj_on_def)

lemma strictly_sorted:
  assumes "distinct (map (sw_Fingerprint u) xs)" and "slice_sorted (sw_less u) xs"
  shows "sorted_wrt (sw_less u) xs"
  using assms
proof (induction xs)
  case (Cons x xs)
  then show ?case
    using sw_less_total [of u x] by (fastforce simp: slice_sorted_def)
qed simp

text \<open>The result is the only sorted arrangement of the kept installations.\<close>

lemma NormalizeAndDeduplicate_order:
  assumes "mset (range_order (map snd (foldl (dedup_step u) [] items))) = mset (map snd (foldl (dedup_step u) [] items))"
  shows "NormalizeAndDeduplicate u range_order items =
    sort_Slice (sw_less u) (map snd (foldl (dedup_step u) [] items))"
proof -
  note sets = mset_eq_setD [OF assms]
  show ?thesis
    unfolding NormalizeAndDeduplicate_def
    using distinct_fingerprints_separate [OF dedup_values(3)]
    by (intro installations.sort_Slice_perm [OF assms]) (simp add: sets)
qed

text \<open>A list that is already canonical, named, free of duplicates: the loop keeps every element in place.\<close>

lemma dedup_loop_id:
  assumes "\<forall>i\<in>set items. NormalizeInstallation i = i \<and> in_Name i \<noteq> []"
    and "distinct (map (sw_Fingerprint u) items)"
  shows "foldl (dedup_step u) [] items = map (\<lambda>i. (sw_Fingerprint u i, i)) items"
  using assms
proof (induction items rule: rev_induct)
  case (snoc i items)
  let ?m = "map (\<lambda>i. (sw_Fingerprint u i, i)) items"
  have new: "sw_Fingerprint u i \<notin> fst ` set ?m" using snoc.prems(2) by (auto simp: image_image)
  then have "AList.update (sw_Fingerprint u i) i ?m = ?m @ [(sw_Fingerprint u i, i)]"
    by (rule update_append)
  moreover have "map_of ?m (sw_Fingerprint u i) = None" using new by (simp add: map_of_eq_None_iff)
  moreover have "NormalizeInstallation i = i" "in_Name i \<noteq> []" using snoc.prems(1) by simp_all
  moreover have "foldl (dedup_step u) [] items = ?m" using snoc by simp
  ultimately show ?case unfolding foldl_append by (simp add: dedup_step_def Let_def del: NormalizeInstallation_fields)
qed simp

section \<open>A concrete application\<close>

definition contoso :: "string \<Rightarrow> string \<Rightarrow> Installation" where
  "contoso source location = \<lparr>in_Name = ''App'', in_DisplayName = ''App'', in_Version = ''1'', in_Publisher = ''V'',
    in_Architecture = ''x64'', in_InstallDate = None, in_InstallLocation = location, in_UninstallString = [],
    in_QuietUninstallString = [], in_RegistryKey = [], in_Source = source, in_Scope = [], in_Evidence = [],
    in_FirstSeen = 0, in_LastSeen = 0\<rparr>"

definition contoso_twice :: "Installation list" where
  "contoso_twice = [contoso ''REGISTRY_MACHINE_64'' [], contoso ''REGISTRY_USER'' ''C'']"

lemma contoso_clean:
  "clean ''App'' = ''App''" "clean ''1'' = ''1''" "clean ''V'' = ''V''" "clean ''x64'' = ''x64''"
  "clean ''REGISTRY_MACHINE_64'' = ''REGISTRY_MACHINE_64''" "clean ''REGISTRY_USER'' = ''REGISTRY_USER''" "clean ''C'' = ''C''"
  by (simp_all add: clean_def Fields_TrimSpace_word plain_word_def)

section \<open>Properties\<close>

text \<open>
  C33. Deduplication. Whatever order Go ranges over its map in, the result is strictly sorted by
  normalised name and then fingerprint, so no two entries share a fingerprint; every entry is one of
  the given installations in canonical form with a name; and every fingerprint of a named
  installation is represented. It does not depend on the range order.
\<close>

theorem dedup_correct:
  assumes "\<And>xs. mset (range_order xs) = mset xs"
  shows "sorted_wrt (sw_less u) (NormalizeAndDeduplicate u range_order items)
    \<and> set (NormalizeAndDeduplicate u range_order items) \<subseteq> set (named items)
    \<and> sw_Fingerprint u ` set (NormalizeAndDeduplicate u range_order items) = sw_Fingerprint u ` set (named items)
    \<and> distinct (map (sw_Fingerprint u) (NormalizeAndDeduplicate u range_order items))
    \<and> NormalizeAndDeduplicate u range_order items = NormalizeAndDeduplicate u (\<lambda>xs. xs) items"
proof -
  define vs where "vs = map snd (foldl (dedup_step u) [] items)"
  note vs = dedup_values [of u items, folded vs_def]
  have r: "NormalizeAndDeduplicate u range_order items = sort_Slice (sw_less u) vs"
    unfolding vs_def by (rule NormalizeAndDeduplicate_order) (rule assms)
  have "distinct (map (sw_Fingerprint u) (sort_Slice (sw_less u) vs))"
    using vs(3) by (metis mset_map mset_sort_Slice mset_eq_imp_distinct_iff)
  moreover from this have "sorted_wrt (sw_less u) (sort_Slice (sw_less u) vs)"
    using installations.sort_Slice_sorted [of u vs] by (rule strictly_sorted)
  ultimately show ?thesis
    using vs NormalizeAndDeduplicate_order [of "\<lambda>xs. xs" u items, folded vs_def] unfolding r by simp
qed

theorem dedup_correct_witness:
  "sorted_wrt (sw_less (\<lambda>r. r)) (NormalizeAndDeduplicate (\<lambda>r. r) rev contoso_twice)
    \<and> sw_Fingerprint (\<lambda>r. r) ` set (NormalizeAndDeduplicate (\<lambda>r. r) rev contoso_twice) =
      sw_Fingerprint (\<lambda>r. r) ` set (named contoso_twice)"
  using dedup_correct [of rev "\<lambda>r. r" contoso_twice] mset_rev by blast

text \<open>
  Canonical lists are fixed points: deduplicating twice, as the collector and the engine do one after
  the other, is deduplicating once.
\<close>

theorem dedup_idempotent:
  assumes "\<And>xs. mset (range_order xs) = mset xs" and "\<And>xs. mset (range_order' xs) = mset xs"
  shows "NormalizeAndDeduplicate u range_order' (NormalizeAndDeduplicate u range_order items) =
    NormalizeAndDeduplicate u range_order items"
proof -
  define vs where "vs = map snd (foldl (dedup_step u) [] items)"
  define r where "r = sort_Slice (sw_less u) vs"
  have r: "NormalizeAndDeduplicate u range_order items = r"
    unfolding vs_def r_def by (rule NormalizeAndDeduplicate_order) (rule assms(1))
  have "distinct (map (sw_Fingerprint u) r)"
    unfolding r_def vs_def using dedup_values(3) by (metis mset_map mset_sort_Slice mset_eq_imp_distinct_iff)
  moreover have "\<forall>i\<in>set r. NormalizeInstallation i = i \<and> in_Name i \<noteq> []"
    using dedup_values(1) [of u items] unfolding r_def vs_def
    by (auto simp: named_def simp del: NormalizeInstallation_fields)
  ultimately have "map snd (foldl (dedup_step u) [] r) = r"
    by (simp add: dedup_loop_id comp_def)
  moreover have "sort_Slice (sw_less u) r = r"
    unfolding r_def by (rule installations.sort_Slice_id [OF installations.sort_Slice_sorted])
  moreover have "NormalizeAndDeduplicate u range_order' r = sort_Slice (sw_less u) (map snd (foldl (dedup_step u) [] r))"
    by (rule NormalizeAndDeduplicate_order) (rule assms(2))
  ultimately show ?thesis unfolding r by simp
qed

theorem dedup_idempotent_witness:
  "NormalizeAndDeduplicate (\<lambda>r. r) (\<lambda>xs. xs) (NormalizeAndDeduplicate (\<lambda>r. r) rev contoso_twice) =
    NormalizeAndDeduplicate (\<lambda>r. r) rev contoso_twice"
  using dedup_idempotent [of rev "\<lambda>xs. xs" "\<lambda>r. r" contoso_twice] by simp

text \<open>
  The preference between duplicates is not a preference for the machine-wide source, and it depends on the
  order of enumeration: of two records of one application, one of higher source rank and
  one with a longer install location, whichever comes last is kept.
\<close>

theorem dedup_keeps_the_later:
  assumes "sw_Fingerprint u a = sw_Fingerprint u b"
    and "NormalizeInstallation a = a" and "NormalizeInstallation b = b"
    and "in_Name a \<noteq> []" and "in_Name b \<noteq> []"
    and "sourceRank (in_Source b) < sourceRank (in_Source a)"
    and "length (in_InstallLocation a) < length (in_InstallLocation b)"
  shows "NormalizeAndDeduplicate u (\<lambda>xs. xs) [a, b] = [b] \<and> NormalizeAndDeduplicate u (\<lambda>xs. xs) [b, a] = [a]"
  using assms by (simp add: NormalizeAndDeduplicate_def dedup_step_def Let_def sort_Slice_def del: NormalizeInstallation_fields)

theorem dedup_keeps_the_later_witness:
  "NormalizeAndDeduplicate (\<lambda>r. r) (\<lambda>xs. xs) [contoso ''REGISTRY_MACHINE_64'' [], contoso ''REGISTRY_USER'' ''C''] =
    [contoso ''REGISTRY_USER'' ''C'']"
proof -
  have "NormalizeInstallation (contoso ''REGISTRY_MACHINE_64'' []) = contoso ''REGISTRY_MACHINE_64'' []"
    "NormalizeInstallation (contoso ''REGISTRY_USER'' ''C'') = contoso ''REGISTRY_USER'' ''C''"
    by (rule Installation.equality; simp add: contoso_def contoso_clean)+
  moreover have "sw_Fingerprint (\<lambda>r. r) (contoso ''REGISTRY_MACHINE_64'' []) = sw_Fingerprint (\<lambda>r. r) (contoso ''REGISTRY_USER'' ''C'')"
    by (simp add: sw_Fingerprint_def contoso_def)
  ultimately show ?thesis
    using dedup_keeps_the_later [of "\<lambda>r. r" "contoso ''REGISTRY_MACHINE_64'' []" "contoso ''REGISTRY_USER'' ''C''"]
    by (simp add: contoso_def sourceRank_def)
qed

end
