(* ===== verification/SoftCollect.thy ===== *)
theory SoftCollect
  imports World SoftNormalize GoTime
begin

text \<open>
  Package \<open>internal/software\<close>, \<open>collector.go\<close> and \<open>collector_windows.go\<close>: the enumeration of the three
  uninstall keys of the Windows registry. The registry is part of the environment: the names
  below a key, and for a key that opens the string values it holds.
\<close>

section \<open>Sources\<close>

record registrySource =
  rs_index :: nat
  rs_path :: string
  rs_source :: string
  rs_scope :: string

text \<open>The third source names the root of the current user; the first two differ in the view of the machine's root.\<close>

definition uninstall_path :: "string \<Rightarrow> string" where
  "uninstall_path root = root @ [CHR 0x5C] @ ''Microsoft'' @ [CHR 0x5C] @ ''Windows'' @ [CHR 0x5C]
    @ ''CurrentVersion'' @ [CHR 0x5C] @ ''Uninstall''"

definition registry_sources :: "registrySource list" where
  "registry_sources =
    [\<lparr>rs_index = 0, rs_path = uninstall_path ''SOFTWARE'', rs_source = ''REGISTRY_MACHINE_64'', rs_scope = ''MACHINE''\<rparr>,
     \<lparr>rs_index = 1, rs_path = uninstall_path ''SOFTWARE'', rs_source = ''REGISTRY_MACHINE_32'', rs_scope = ''MACHINE''\<rparr>,
     \<lparr>rs_index = 2, rs_path = uninstall_path ''Software'', rs_source = ''REGISTRY_USER'', rs_scope = ''USER''\<rparr>]"

section \<open>Items\<close>

text \<open>\<open>stringValue\<close> and \<open>mustStringValue\<close>: a value that is missing or of another type reads as empty.\<close>

definition stringValue :: "(string \<Rightarrow> string option) \<Rightarrow> string \<Rightarrow> string" where
  "stringValue key name = (case key name of Some v \<Rightarrow> TrimSpace v | None \<Rightarrow> [])"

definition parseInstallDate :: "(int \<Rightarrow> int) \<Rightarrow> string \<Rightarrow> int \<times> int" where
  "parseInstallDate zone v =
    (if length v \<noteq> 8 then (zero_time, 0)
     else case ParseLocalDay zone v of None \<Rightarrow> (zero_time, 0) | Some t \<Rightarrow> t)"

definition registry_item :: "(int \<Rightarrow> int) \<Rightarrow> (string \<Rightarrow> string option) \<Rightarrow> string \<Rightarrow> registrySource \<Rightarrow> Installation option" where
  "registry_item zone key name source =
    (case key ''DisplayName'' of
       None \<Rightarrow> None
     | Some displayName \<Rightarrow>
       if TrimSpace displayName = [] then None
       else
         (let architecture0 = stringValue key ''Architecture'';
              architecture = (if architecture0 = [] then
                  (if rs_source source = ''REGISTRY_MACHINE_64'' then ''x64''
                   else if rs_source source = ''REGISTRY_MACHINE_32'' then ''x86'' else [])
                else architecture0);
              parsed = parseInstallDate zone (stringValue key ''InstallDate'')
          in Some \<lparr>in_Name = displayName, in_DisplayName = displayName,
            in_Version = stringValue key ''DisplayVersion'', in_Publisher = stringValue key ''Publisher'',
            in_Architecture = architecture,
            in_InstallDate = (if fst parsed = zero_time then None else Some parsed),
            in_InstallLocation = stringValue key ''InstallLocation'',
            in_UninstallString = stringValue key ''UninstallString'',
            in_QuietUninstallString = stringValue key ''QuietUninstallString'',
            in_RegistryKey = rs_path source @ [CHR 0x5C] @ name,
            in_Source = rs_source source, in_Scope = rs_scope source, in_Evidence = ''Windows Registry'',
            in_FirstSeen = zero_time, in_LastSeen = zero_time\<rparr>))"

definition readRegistryItem :: "string \<Rightarrow> registrySource \<Rightarrow> Installation option go" where
  "readRegistryItem name source = do {
    key \<leftarrow> reg_open (rs_index source) name;
    zone \<leftarrow> getw (\<lambda>w. o_zone (ev w));
    State_Monad.return (case key of None \<Rightarrow> None | Some k \<Rightarrow> registry_item zone k name source)
  }"

fun read_items :: "string list \<Rightarrow> registrySource \<Rightarrow> Installation list go" where
  "read_items [] source = State_Monad.return []"
| "read_items (name # names) source = do {
    item \<leftarrow> readRegistryItem name source;
    items \<leftarrow> read_items names source;
    State_Monad.return (case item of Some i \<Rightarrow> i # items | None \<Rightarrow> items)
  }"

definition readRegistrySource :: "registrySource \<Rightarrow> Installation list result go" where
  "readRegistrySource source = do {
    names \<leftarrow> reg_names (rs_index source);
    case names of
      Inl m \<Rightarrow> State_Monad.return (Inl (Errorf m))
    | Inr ns \<Rightarrow> do { items \<leftarrow> read_items ns source; State_Monad.return (Inr items) }
  }"

section \<open>The collector\<close>

text \<open>A source that cannot be read is skipped; the context is looked at before each source.\<close>

fun collect_sources :: "registrySource list \<Rightarrow> Installation list \<Rightarrow> Installation list result go" where
  "collect_sources [] items = State_Monad.return (Inr items)"
| "collect_sources (source # sources) items = do {
    c \<leftarrow> ctx_Err;
    case c of
      Some err \<Rightarrow> State_Monad.return (Inl err)
    | None \<Rightarrow> do {
        found \<leftarrow> readRegistrySource source;
        collect_sources sources (case found of Inl _ \<Rightarrow> items | Inr is \<Rightarrow> items @ is)
      }
  }"

text \<open>\<open>NormalizeAndDeduplicate\<close> with the order Go happens to range in.\<close>

definition deduplicate :: "Installation list \<Rightarrow> Installation list go" where
  "deduplicate items = do {
    u \<leftarrow> getw (\<lambda>w. o_lower (ev w));
    order \<leftarrow> map_order (length (foldl (dedup_step u) [] items));
    State_Monad.return (NormalizeAndDeduplicate u (\<lambda>xs. map (\<lambda>i. xs ! i) order) items)
  }"

definition collectWindows :: "Installation list result go" where
  "collectWindows = do {
    r \<leftarrow> collect_sources registry_sources [];
    case r of
      Inl err \<Rightarrow> State_Monad.return (Inl err)
    | Inr items \<Rightarrow> do { out \<leftarrow> deduplicate items; State_Monad.return (Inr out) }
  }"

definition sw_Collect :: "Installation list result go" where
  "sw_Collect = collectWindows"

section \<open>Frames\<close>

lemma read_items_frame [simp]: "only_counters (snd (run_state (read_items ns source) w)) w"
  by (induction ns arbitrary: w) (simp_all add: readRegistryItem_def)

lemma collect_sources_frame [simp]: "only_counters (snd (run_state (collect_sources ss items) w)) w"
  by (induction ss arbitrary: items w) (simp_all add: readRegistrySource_def split: option.split sum.split)

lemma deduplicate_frame [simp]: "only_counters (snd (run_state (deduplicate items) w)) w"
  by (simp add: deduplicate_def)

lemma sw_Collect_frame [simp]: "only_counters (snd (run_state sw_Collect w)) w"
  by (simp add: sw_Collect_def collectWindows_def split: sum.split)

section \<open>What is collected\<close>

lemma map_nth_perm: "mset order = mset [0..<length xs] \<Longrightarrow> mset (map (\<lambda>i. xs ! i) order) = mset xs"
  by (metis map_nth mset_map)

lemma deduplicate_result:
  assumes "perm_ok w"
  shows "fst (run_state (deduplicate items) w) = NormalizeAndDeduplicate (o_lower (ev w)) (\<lambda>xs. xs) items"
proof -
  let ?u = "o_lower (ev w)"
  let ?order = "o_perm (ev w) (n_map w) (length (foldl (dedup_step ?u) [] items))"
  have "mset ?order = mset [0..<length (map snd (foldl (dedup_step ?u) [] items))]"
    using assms unfolding env_perm_ok_def by simp
  then have "NormalizeAndDeduplicate ?u (\<lambda>xs. map (\<lambda>i. xs ! i) ?order) items =
      sort_Slice (sw_less ?u) (map snd (foldl (dedup_step ?u) [] items))"
    by (intro NormalizeAndDeduplicate_order map_nth_perm)
  then show ?thesis
    using NormalizeAndDeduplicate_order [of "\<lambda>xs. xs" ?u items] by (simp add: deduplicate_def map_order_def)
qed

end
