(* ===== verification/GoFloat.thy ===== *)
theory GoFloat
  imports Complex_Main Prelude
begin

text \<open>
  Go's \<open>float64\<close>: IEEE 754 binary64 with rounding to nearest, ties to even. A finite number is a sign and
  a rational magnitude, so that zero is signed; \<open>round_mag\<close> rounds a positive rational to 53
  significant bits, or to a multiple of the smallest subnormal. The interface \<open>rounding\<close> says what
  the bounds on computed percentages and scores rest on.
\<close>

section \<open>Powers of two and binary exponents\<close>

definition pow2 :: "int \<Rightarrow> rat" where
  "pow2 k = (if 0 \<le> k then 2 ^ nat k else 1 / 2 ^ nat (- k))"

fun bits :: "nat \<Rightarrow> nat" where
  "bits n = (if n = 0 then 0 else Suc (bits (n div 2)))"

declare bits.simps [simp del]

definition binexp :: "rat \<Rightarrow> int" where
  "binexp x =
    (let (p, q) = quotient_of x;
         k = int (bits (nat p)) - int (bits (nat q))
     in if pow2 k \<le> x then k else k - 1)"

lemma pow2_pos [simp]: "0 < pow2 k"
  by (simp add: pow2_def)

lemma pow2_nonneg [simp]: "0 \<le> pow2 k"
  by (rule order_less_imp_le) simp

lemma pow2_add: "pow2 (i + j) = pow2 i * pow2 j"
proof -
  have "pow2 k = 2 powi k" for k
    by (simp add: pow2_def power_int_def power_inverse field_simps)
  then show ?thesis by (simp add: power_int_add)
qed

lemma pow2_nat: "pow2 (int n) = 2 ^ n"
  by (simp add: pow2_def)

lemma pow2_mono: "i \<le> j \<Longrightarrow> pow2 i \<le> pow2 j"
proof -
  assume "i \<le> j"
  then have "pow2 j = pow2 i * 2 ^ nat (j - i)"
    using pow2_add [of i "j - i"] pow2_nat [of "nat (j - i)"] by simp
  moreover have "pow2 i * 1 \<le> pow2 i * 2 ^ nat (j - i)" by (rule mult_left_mono) simp_all
  ultimately show ?thesis by simp
qed

lemma pow2_Suc: "pow2 (i + 1) = 2 * pow2 i"
  using pow2_add [of i 1] by (simp add: pow2_def)

lemma bits_bounds: "0 < n \<Longrightarrow> 2 ^ (bits n - 1) \<le> n \<and> n < 2 ^ bits n \<and> 0 < bits n"
proof (induction n rule: bits.induct)
  case (1 n)
  show ?case
  proof (cases "n div 2 = 0")
    case True
    with 1 have "n = 1" by simp
    then show ?thesis by (simp add: bits.simps)
  next
    case False
    with 1 have IH: "2 ^ (bits (n div 2) - 1) \<le> n div 2" "n div 2 < 2 ^ bits (n div 2)" "0 < bits (n div 2)"
      by auto
    have b: "bits n = Suc (bits (n div 2))" using 1 by (simp add: bits.simps [of n])
    have "(2::nat) ^ bits (n div 2) = 2 * 2 ^ (bits (n div 2) - 1)"
      using IH(3) by (simp flip: power_Suc)
    moreover have "2 * (n div 2) \<le> n" "n < 2 * (n div 2) + 2" by simp_all
    moreover have "n div 2 + 1 \<le> 2 ^ bits (n div 2)" using IH(2) by simp
    ultimately have "2 ^ bits (n div 2) \<le> n" "n < 2 * 2 ^ bits (n div 2)" using IH(1) by linarith+
    then show ?thesis using b by simp
  qed
qed

lemma bits_bounds_rat:
  assumes "0 < p"
  shows "(2::rat) * 2 ^ (bits (nat p) - 1) = 2 ^ bits (nat p)"
    and "(2::rat) ^ (bits (nat p) - 1) \<le> of_int p" and "of_int p < (2::rat) ^ bits (nat p)"
proof -
  have n: "0 < nat p" "of_nat (nat p) = (of_int p :: rat)" using assms by simp_all
  note bb = bits_bounds [OF n(1)]
  then have "of_nat (2 ^ (bits (nat p) - 1)) \<le> (of_nat (nat p) :: rat)" "of_nat (nat p) < (of_nat (2 ^ bits (nat p)) :: rat)"
    unfolding of_nat_le_iff of_nat_less_iff by simp_all
  then show "(2::rat) ^ (bits (nat p) - 1) \<le> of_int p" "of_int p < (2::rat) ^ bits (nat p)"
    unfolding n(2) by simp_all
  show "(2::rat) * 2 ^ (bits (nat p) - 1) = 2 ^ bits (nat p)"
    using bb by (simp flip: power_Suc)
qed

lemma binexp_bounds:
  assumes "0 < x"
  shows "pow2 (binexp x) \<le> x \<and> x < pow2 (binexp x + 1)"
proof -
  obtain p q where pq: "quotient_of x = (p, q)" by (cases "quotient_of x")
  have q: "0 < q" using quotient_of_denom_pos [OF pq] .
  have x: "x = of_int p / of_int q" using quotient_of_div [OF pq] .
  with assms q have p: "0 < p" by (simp add: zero_less_divide_iff)
  define a b where "a = bits (nat p)" and "b = bits (nat q)"
  note a = bits_bounds_rat [OF p, folded a_def]
  note b = bits_bounds_rat [OF q, folded b_def]
  define k where "k = int a - int b"
  have pa: "pow2 (int a) = 2 ^ a" "pow2 (int b) = 2 ^ b" by (rule pow2_nat)+
  have kb: "pow2 k * 2 ^ b = 2 ^ a"
    using pow2_add [of k "int b"] pa by (simp add: k_def)
  have q0: "(0::rat) < of_int q" using q by simp
  have up: "x < pow2 (k + 1)"
  proof -
    have "of_int p < pow2 k * 2 ^ b" using a kb by simp
    also have "(2::rat) ^ b \<le> 2 * of_int q" using b(1,2) by linarith
    then have "pow2 k * 2 ^ b \<le> pow2 k * (2 * of_int q)" by (intro mult_left_mono) simp_all
    finally show ?thesis using q0 by (simp add: x pow2_Suc pos_divide_less_eq)
  qed
  have low: "pow2 (k - 1) \<le> x"
  proof -
    have "pow2 (k - 1) * 2 = pow2 k" using pow2_Suc [of "k - 1"] by simp
    have "pow2 (k - 1) * of_int q \<le> pow2 (k - 1) * 2 ^ b" using b by (intro mult_left_mono) auto
    moreover have "pow2 (k - 1) * 2 ^ b = 2 ^ (a - 1)"
          proof -
      have "2 * (pow2 (k - 1) * 2 ^ b) = pow2 k * 2 ^ b" using \<open>pow2 (k - 1) * 2 = pow2 k\<close> by simp
      also have "\<dots> = 2 * 2 ^ (a - 1)" unfolding kb a(1) by (rule refl)
      finally show ?thesis by simp
    qed
    ultimately have "pow2 (k - 1) * of_int q \<le> of_int p" using a(2) by (metis order_trans)
    then show ?thesis using q0 by (simp add: x pos_le_divide_eq)
  qed
  show ?thesis
    using up low by (simp add: binexp_def pq a_def [symmetric] b_def [symmetric] k_def [symmetric] Let_def)
qed

lemma binexp_mono:
  assumes "0 < x" and "x \<le> y"
  shows "binexp x \<le> binexp y"
proof (rule ccontr)
  assume "\<not> ?thesis"
  then have "pow2 (binexp y + 1) \<le> pow2 (binexp x)" by (intro pow2_mono) simp
  with assms binexp_bounds [of x] binexp_bounds [of y] show False by simp
qed

section \<open>Rounding\<close>

text \<open>To the nearest integer, ties to even, and to the nearest magnitude of the format.\<close>

definition round_even :: "rat \<Rightarrow> int" where
  "round_even x =
    (let n = \<lfloor>x\<rfloor>; d = x - of_int n
     in if d < 1 / 2 then n else if 1 / 2 < d then n + 1 else if even n then n else n + 1)"

definition quantum :: "rat \<Rightarrow> rat" where
  "quantum x = pow2 (max (binexp x) (-1022) - 52)"

definition round_mag :: "rat \<Rightarrow> rat" where
  "round_mag x = (if x \<le> 0 then 0 else of_int (round_even (x / quantum x)) * quantum x)"

lemma round_even_of_int [simp]: "round_even (of_int n) = n"
  by (simp add: round_even_def)

lemma round_even_mono:
  assumes "x \<le> y"
  shows "round_even x \<le> round_even y"
proof (cases "\<lfloor>x\<rfloor> = \<lfloor>y\<rfloor>")
  case True
  with assms show ?thesis by (auto simp: round_even_def Let_def)
next
  case False
  then have "\<lfloor>x\<rfloor> + 1 \<le> \<lfloor>y\<rfloor>" using floor_mono [OF assms] by simp
  moreover have "round_even x \<le> \<lfloor>x\<rfloor> + 1" "\<lfloor>y\<rfloor> \<le> round_even y" by (auto simp: round_even_def Let_def)
  ultimately show ?thesis by simp
qed

lemma quantum_pos [simp]: "0 < quantum x"
  by (simp add: quantum_def)

lemma round_mag_nonneg: "0 \<le> round_mag x"
proof (cases "x \<le> 0")
  case False
  then have "0 \<le> x / quantum x" using quantum_pos [of x] by (simp add: less_imp_le)
  then have "round_even 0 \<le> round_even (x / quantum x)" by (rule round_even_mono)
  moreover have "round_even 0 = 0" using round_even_of_int [of 0] by simp
  ultimately show ?thesis using False quantum_pos [of x] by (simp add: round_mag_def less_imp_le)
qed (simp add: round_mag_def)

text \<open>Whatever is a multiple of the quantum of its binade stays as it is.\<close>

lemma round_mag_multiple: "0 < x \<Longrightarrow> x = of_int m * quantum x \<Longrightarrow> round_mag x = x"
  by (metis round_mag_def round_even_of_int quantum_pos nonzero_mult_div_cancel_right less_irrefl not_le)

lemma round_mag_mono:
  assumes "x \<le> y"
  shows "round_mag x \<le> round_mag y"
proof (cases "x \<le> 0")
  case True
  then show ?thesis using round_mag_nonneg [of y] by (simp add: round_mag_def)
next
  case False
  with assms have pos: "0 < x" "0 < y" by simp_all
  define ex where "ex = max (binexp x) (-1022)"
  define ey where "ey = max (binexp y) (-1022)"
  have q: "quantum x = pow2 (ex - 52)" "quantum y = pow2 (ey - 52)"
    by (simp_all add: quantum_def ex_def ey_def)
  have r: "round_mag x = of_int (round_even (x / quantum x)) * quantum x"
    "round_mag y = of_int (round_even (y / quantum y)) * quantum y"
    using pos by (simp_all add: round_mag_def)
  have le: "ex \<le> ey" using binexp_mono [OF pos(1) assms] by (simp add: ex_def ey_def)
  show ?thesis
  proof (cases "ex = ey")
    case True
    then have "x / quantum x \<le> y / quantum y"
      using assms quantum_pos [of y] by (simp add: q divide_right_mono)
    then show ?thesis
      unfolding r using True round_even_mono quantum_pos [of y] by (simp add: q)
  next
    case False
    with le have lt: "ex + 1 \<le> ey" "ey = binexp y" by (auto simp: ex_def ey_def)
    have "x \<le> pow2 (ex + 1)"
      using binexp_bounds [OF pos(1)] pow2_mono [of "binexp x + 1" "ex + 1"] by (simp add: ex_def)
    also have split_x: "pow2 (ex + 1) = of_int (2 ^ 53) * quantum x"
      using pow2_add [of 53 "ex - 52"] pow2_nat [of 53] by (simp add: q add.commute)
    finally have "x / quantum x \<le> of_int (2 ^ 53)"
      using quantum_pos [of x] by (simp add: pos_divide_le_eq del: of_int_power)
    from round_even_mono [OF this] have "round_mag x \<le> of_int (2 ^ 53) * quantum x"
      unfolding r round_even_of_int using quantum_pos [of x]
      by (intro mult_right_mono) (simp_all add: less_imp_le del: of_int_power)
    also have "\<dots> \<le> pow2 ey" using pow2_mono [OF lt(1)] split_x by simp
    also have split_y: "pow2 ey = of_int (2 ^ 52) * quantum y"
      using pow2_add [of 52 "ey - 52"] pow2_nat [of 52] by (simp add: q add.commute)
    also have "\<dots> \<le> round_mag y"
    proof -
      have "of_int (2 ^ 52) \<le> y / quantum y"
        using binexp_bounds [OF pos(2)] lt(2) split_y quantum_pos [of y]
        by (simp add: pos_le_divide_eq del: of_int_power)
      from round_even_mono [OF this] show ?thesis
        unfolding r round_even_of_int using quantum_pos [of y]
        by (intro mult_right_mono) (simp_all add: less_imp_le del: of_int_power)
    qed
    finally show ?thesis .
  qed
qed

text \<open>Integers up to \<open>2 ^ 53\<close> are exact.\<close>

lemma round_mag_int:
  assumes "0 \<le> n" and "n \<le> 2 ^ 53"
  shows "round_mag (of_int n) = of_int n"
proof (cases "n = 0")
  case True
  then show ?thesis by (simp add: round_mag_def)
next
  case False
  with assms have pos: "0 < n" by simp
  let ?e = "binexp (of_int n)"
  have be: "pow2 ?e \<le> of_int n" "of_int n < pow2 (?e + 1)"
    using binexp_bounds [of "of_int n"] pos by simp_all
  have "0 \<le> ?e"
  proof (rule ccontr)
    assume "\<not> 0 \<le> ?e"
    then have "pow2 (?e + 1) \<le> pow2 0" by (intro pow2_mono) simp
    with be(2) have "of_int n < (1::rat)" by (simp add: pow2_def)
    with pos show False by simp
  qed
  then have q: "quantum (of_int n) = pow2 (?e - 52)" by (simp add: quantum_def)
  show ?thesis
  proof (cases "?e \<le> 52")
    case True
    then have "quantum (of_int n) * pow2 (52 - ?e) = 1"
      using pow2_add [of "?e - 52" "52 - ?e"] by (simp add: q pow2_def)
    moreover have "pow2 (52 - ?e) = of_int (2 ^ nat (52 - ?e))" using True by (simp add: pow2_def)
    ultimately have "of_int n = of_int (n * 2 ^ nat (52 - ?e)) * quantum (of_int n)"
      by (simp add: mult.assoc mult.commute)
    then show ?thesis using pos round_mag_multiple [of "of_int n" "n * 2 ^ nat (52 - ?e)"] by simp
  next
    case False
    then have e: "of_int (2 ^ 53) \<le> pow2 ?e" using pow2_mono [of 53 ?e] pow2_nat [of 53] by simp
    also note be(1)
    finally have "n = 2 ^ 53" using assms(2) unfolding of_int_le_iff by simp
    then have "of_int n = pow2 ?e" using e be(1) by simp
    also have "\<dots> = of_int (2 ^ 52) * quantum (of_int n)"
      using pow2_add [of 52 "?e - 52"] pow2_nat [of 52] by (simp add: q)
    finally show ?thesis using pos round_mag_multiple [of "of_int n" "2 ^ 52"] by simp
  qed
qed

text \<open>The laws of rounding that bounds on computed values need.\<close>

locale rounding =
  fixes rnd :: "rat \<Rightarrow> rat"
  assumes rnd_mono: "x \<le> y \<Longrightarrow> rnd x \<le> rnd y"
    and rnd_int: "0 \<le> n \<Longrightarrow> n \<le> 2 ^ 53 \<Longrightarrow> rnd (of_int n) = of_int n"
begin

lemma rnd_between:
  assumes "of_int a \<le> x" and "x \<le> of_int b" and "0 \<le> a" and "b \<le> 2 ^ 53"
  shows "of_int a \<le> rnd x" and "rnd x \<le> of_int b"
proof -
  have "a \<le> b" using assms(1,2) by linarith
  then show "of_int a \<le> rnd x" "rnd x \<le> of_int b"
    using rnd_mono [OF assms(1)] rnd_mono [OF assms(2)] rnd_int [of a] rnd_int [of b] assms(3,4) by simp_all
qed

end

interpretation binary64: rounding round_mag
  by unfold_locales (simp_all add: round_mag_mono round_mag_int)

section \<open>The type and its operations\<close>

text \<open>Not a number, an infinity or a finite number, with the sign first.\<close>

datatype f64 = NaN | Inf bool | Fin bool rat

fun f_val :: "f64 \<Rightarrow> rat" where
  "f_val (Fin s m) = (if s then - m else m)"
| "f_val v = 0"

text \<open>The float of an exact result; \<open>s\<close> is the sign an exact zero gets.\<close>

definition f_round :: "bool \<Rightarrow> rat \<Rightarrow> f64" where
  "f_round s x =
    (if x = 0 then Fin s 0
     else let m = round_mag \<bar>x\<bar> in if 2 ^ 1024 \<le> m then Inf (x < 0) else Fin (x < 0) m)"

definition f_of_int :: "int \<Rightarrow> f64" where
  "f_of_int n = f_round False (of_int n)"

fun f_neg :: "f64 \<Rightarrow> f64" where
  "f_neg NaN = NaN"
| "f_neg (Inf s) = Inf (\<not> s)"
| "f_neg (Fin s m) = Fin (\<not> s) m"

fun f_add :: "f64 \<Rightarrow> f64 \<Rightarrow> f64" where
  "f_add (Fin s m) (Fin t n) = f_round (s \<and> t) (f_val (Fin s m) + f_val (Fin t n))"
| "f_add (Inf s) (Inf t) = (if s = t then Inf s else NaN)"
| "f_add (Inf s) (Fin t n) = Inf s"
| "f_add (Fin s m) (Inf t) = Inf t"
| "f_add _ _ = NaN"

definition f_sub :: "f64 \<Rightarrow> f64 \<Rightarrow> f64" where
  "f_sub a b = f_add a (f_neg b)"

fun f_mul :: "f64 \<Rightarrow> f64 \<Rightarrow> f64" where
  "f_mul (Fin s m) (Fin t n) = f_round (s \<noteq> t) (f_val (Fin s m) * f_val (Fin t n))"
| "f_mul (Inf s) (Inf t) = Inf (s \<noteq> t)"
| "f_mul (Inf s) (Fin t n) = (if n = 0 then NaN else Inf (s \<noteq> t))"
| "f_mul (Fin s m) (Inf t) = (if m = 0 then NaN else Inf (s \<noteq> t))"
| "f_mul _ _ = NaN"

fun f_div :: "f64 \<Rightarrow> f64 \<Rightarrow> f64" where
  "f_div (Fin s m) (Fin t n) =
    (if n = 0 then (if m = 0 then NaN else Inf (s \<noteq> t))
     else f_round (s \<noteq> t) (f_val (Fin s m) / f_val (Fin t n)))"
| "f_div (Inf s) (Fin t n) = Inf (s \<noteq> t)"
| "f_div (Fin s m) (Inf t) = Fin (s \<noteq> t) 0"
| "f_div _ _ = NaN"

fun f_lt :: "f64 \<Rightarrow> f64 \<Rightarrow> bool" where
  "f_lt (Fin s m) (Fin t n) \<longleftrightarrow> f_val (Fin s m) < f_val (Fin t n)"
| "f_lt (Inf s) (Inf t) \<longleftrightarrow> s \<and> \<not> t"
| "f_lt (Inf s) (Fin t n) \<longleftrightarrow> s"
| "f_lt (Fin s m) (Inf t) \<longleftrightarrow> \<not> t"
| "f_lt _ _ \<longleftrightarrow> False"

fun f_le :: "f64 \<Rightarrow> f64 \<Rightarrow> bool" where
  "f_le (Fin s m) (Fin t n) \<longleftrightarrow> f_val (Fin s m) \<le> f_val (Fin t n)"
| "f_le (Inf s) (Inf t) \<longleftrightarrow> s \<or> \<not> t"
| "f_le (Inf s) (Fin t n) \<longleftrightarrow> s"
| "f_le (Fin s m) (Inf t) \<longleftrightarrow> \<not> t"
| "f_le _ _ \<longleftrightarrow> False"

fun f_eq :: "f64 \<Rightarrow> f64 \<Rightarrow> bool" where
  "f_eq (Fin s m) (Fin t n) \<longleftrightarrow> f_val (Fin s m) = f_val (Fin t n)"
| "f_eq (Inf s) (Inf t) \<longleftrightarrow> s = t"
| "f_eq _ _ \<longleftrightarrow> False"

text \<open>
  Conversion to \<open>int64\<close> truncates; out of range Go leaves it to the machine, which on amd64 returns
  the least integer.
\<close>

definition f_int64 :: "f64 \<Rightarrow> int" where
  "f_int64 v =
    (case v of
       Fin s m \<Rightarrow>
         (let n = (if s then - \<lfloor>m\<rfloor> else \<lfloor>m\<rfloor>) in if - (2 ^ 63) \<le> n \<and> n < 2 ^ 63 then n else - (2 ^ 63))
     | _ \<Rightarrow> - (2 ^ 63))"

section \<open>Bounds on results\<close>

text \<open>A finite float between two integers.\<close>

definition f_between :: "int \<Rightarrow> int \<Rightarrow> f64 \<Rightarrow> bool" where
  "f_between a b v \<longleftrightarrow> (\<exists>s m. v = Fin s m) \<and> of_int a \<le> f_val v \<and> f_val v \<le> of_int b"

lemma f_between_Fin [simp]: "f_between a b (Fin s m) \<longleftrightarrow> of_int a \<le> f_val (Fin s m) \<and> f_val (Fin s m) \<le> of_int b"
  unfolding f_between_def by blast

lemma f_round_between:
  assumes "of_int a \<le> x" and "x \<le> of_int b" and "0 \<le> a" and "b \<le> 2 ^ 53"
  shows "f_between a b (f_round s x)"
proof -
  have x: "0 \<le> x" using assms(1,3) by (metis of_int_0_le_iff order_trans)
  note r = binary64.rnd_between [OF assms]
  have "of_int b \<le> (of_int (2 ^ 53) :: rat)" using assms(4) unfolding of_int_le_iff .
  then have "round_mag x < 2 ^ 1024" using r(2) by simp
  then show ?thesis using x r assms(1,2) by (auto simp: f_round_def f_between_def Let_def)
qed

lemma f_between_add:
  assumes "f_between a b v" and "f_between c d w" and "0 \<le> a" and "0 \<le> c" and "b + d \<le> 2 ^ 53"
  shows "f_between (a + c) (b + d) (f_add v w)"
proof -
  obtain s m t n where vw: "v = Fin s m" "w = Fin t n" using assms(1,2) by (auto simp: f_between_def)
  have "of_int (a + c) \<le> f_val v + f_val w" "f_val v + f_val w \<le> of_int (b + d)"
    using assms(1,2) by (simp_all add: f_between_def)
  then have "f_between (a + c) (b + d) (f_round (s \<and> t) (f_val v + f_val w))"
    using assms(3-5) by (intro f_round_between) simp_all
  then show ?thesis by (simp add: vw)
qed

lemma f_between_mono: "f_between a b v \<Longrightarrow> c \<le> a \<Longrightarrow> b \<le> d \<Longrightarrow> f_between c d v"
  using order_trans [of "of_int c :: rat" "of_int a" "f_val v"] order_trans [of "f_val v" "of_int b :: rat" "of_int d"]
  by (simp add: f_between_def)

text \<open>The value of a rounded result in that range, and that rounding keeps the order of results.\<close>

lemma f_round_val:
  assumes "0 \<le> x" and "x \<le> of_int b" and "b \<le> 2 ^ 53"
  shows "f_val (f_round s x) = round_mag x"
proof -
  have "f_between 0 b (f_round s x)" by (rule f_round_between) (use assms in simp_all)
  then show ?thesis using assms(1) binary64.rnd_int [of 0] by (auto simp: f_round_def Let_def f_between_def split: if_splits)
qed

lemma f_round_val_mono:
  assumes "0 \<le> x" and "x \<le> y" and "y \<le> of_int b" and "b \<le> 2 ^ 53"
  shows "f_val (f_round s x) \<le> f_val (f_round t y)"
  using f_round_val [of x b s] f_round_val [of y b t] binary64.rnd_mono [OF assms(2)] assms by simp

lemma f_of_int_small:
  assumes "0 < n" and "n \<le> 2 ^ 53"
  shows "f_of_int n = Fin False (of_int n)"
proof -
  have "of_int n \<le> (of_int (2 ^ 53) :: rat)" using assms(2) unfolding of_int_le_iff .
  then have "(of_int n :: rat) < 2 ^ 1024" by simp
  then show ?thesis using assms binary64.rnd_int [of n] by (simp add: f_of_int_def f_round_def Let_def)
qed

lemma f_add_val_mono:
  assumes "f_between 0 a u" and "f_between 0 b v" and "f_between 0 a u'" and "f_between 0 b v'" and "a + b \<le> 2 ^ 53"
    and "f_val u \<le> f_val u'" and "f_val v \<le> f_val v'"
  shows "f_val (f_add u v) \<le> f_val (f_add u' v')"
proof -
  obtain s m t n s' m' t' n' where vs: "u = Fin s m" "v = Fin t n" "u' = Fin s' m'" "v' = Fin t' n'"
    using assms(1-4) by (auto simp: f_between_def)
  have "f_val (f_round (s \<and> t) (f_val u + f_val v)) \<le> f_val (f_round (s' \<and> t') (f_val u' + f_val v'))"
    by (rule f_round_val_mono [where b = "a + b"]) (use assms in \<open>auto simp: f_between_def add_mono\<close>)
  then show ?thesis unfolding vs by simp
qed

section \<open>Evaluating a rounding\<close>

lemma binexp_eq:
  assumes "pow2 e \<le> x" and "x < pow2 (e + 1)"
  shows "binexp x = e"
proof -
  have x: "0 < x" using assms(1) pow2_pos [of e] by linarith
  note b = binexp_bounds [OF x]
  have "\<not> e + 1 \<le> binexp x" using pow2_mono [of "e + 1" "binexp x"] assms(2) b by linarith
  moreover have "\<not> binexp x + 1 \<le> e" using pow2_mono [of "binexp x + 1" e] assms(1) b by linarith
  ultimately show ?thesis by linarith
qed

lemma round_even_eq:
  assumes "of_int n - 1 / 2 < x" and "x < of_int n + 1 / 2"
  shows "round_even x = n"
proof (cases "of_int n \<le> x")
  case True
  then have "\<lfloor>x\<rfloor> = n" using assms(2) by linarith
  then show ?thesis using assms(2) by (simp add: round_even_def Let_def)
next
  case False
  then have "\<lfloor>x\<rfloor> = n - 1" using assms(1) by linarith
  then show ?thesis using assms(1) by (simp add: round_even_def Let_def)
qed

lemma round_mag_eval:
  assumes "pow2 e \<le> x" and "x < pow2 (e + 1)" and "-1022 \<le> e"
    and "of_int n - 1 / 2 < x / pow2 (e - 52)" and "x / pow2 (e - 52) < of_int n + 1 / 2"
  shows "round_mag x = of_int n * pow2 (e - 52)"
proof -
  have "0 < x" using assms(1) pow2_pos [of e] by linarith
  moreover have "round_even (x / pow2 (e - 52)) = n" using assms(4,5) by (rule round_even_eq)
  ultimately show ?thesis using assms(3) binexp_eq [OF assms(1,2)] by (simp add: round_mag_def quantum_def)
qed

lemma round_even_close: "\<bar>of_int (round_even x) - x\<bar> \<le> 1 / 2"
proof -
  have "of_int \<lfloor>x\<rfloor> \<le> x" "x < of_int \<lfloor>x\<rfloor> + 1" by linarith+
  then show ?thesis by (auto simp: round_even_def Let_def abs_le_iff)
qed

text \<open>Rounding is off by at most half a unit in the last place.\<close>

lemma round_mag_error:
  assumes "0 \<le> x" and "x < pow2 (e + 1)" and "-1022 \<le> e"
  shows "\<bar>round_mag x - x\<bar> \<le> pow2 (e - 52) / 2"
proof (cases "x = 0")
  case False
  then have x: "0 < x" using assms(1) by simp
  have "\<not> e + 1 \<le> binexp x" using pow2_mono [of "e + 1" "binexp x"] assms(2) binexp_bounds [OF x] by linarith
  then have q: "quantum x \<le> pow2 (e - 52)" unfolding quantum_def using assms(3) by (intro pow2_mono) simp
  let ?k = "x / quantum x"
  have "quantum x \<noteq> 0" using quantum_pos [of x] by (metis less_irrefl)
  then have "?k * quantum x = x" by simp
  then have "round_mag x - x = (of_int (round_even ?k) - ?k) * quantum x"
    using x by (simp add: round_mag_def left_diff_distrib)
  then have "\<bar>round_mag x - x\<bar> = \<bar>of_int (round_even ?k) - ?k\<bar> * quantum x" by (simp add: abs_mult abs_of_pos [OF quantum_pos])
  also have "\<dots> \<le> 1 / 2 * quantum x" by (rule mult_right_mono [OF round_even_close less_imp_le [OF quantum_pos]])
  finally show ?thesis using q by simp
qed (simp add: round_mag_def less_imp_le)

text \<open>A difference from a bound, and the quotient of two numbers of bytes as a percentage.\<close>

lemma f_sub_between:
  assumes "f_between 0 a v" and "0 \<le> a" and "a \<le> 2 ^ 53"
  shows "f_between 0 a (f_sub (Fin False (of_int a)) v)"
proof -
  obtain s m where v: "v = Fin s m" using assms(1) by (auto simp: f_between_def)
  have "f_between 0 a (f_round (False \<and> \<not> s) (of_int a - f_val v))"
    using assms by (intro f_round_between) (auto simp: f_between_def)
  then show ?thesis by (cases s) (simp_all add: v f_sub_def)
qed

lemma f_mul_bound:
  assumes "f_between 0 a v" and "0 \<le> r" and "of_int a * r \<le> of_int c" and "c \<le> 2 ^ 53" and "round_mag (of_int a * r) \<le> of_int b"
    and "0 \<le> b"
  shows "f_between 0 b (f_mul v (Fin False r))"
proof -
  obtain s m where v: "v = Fin s m" using assms(1) by (auto simp: f_between_def)
  let ?x = "f_val v * r"
  have x: "0 \<le> ?x" "?x \<le> of_int a * r" using assms(1,2) by (auto simp: f_between_def intro: mult_right_mono)
  have "f_between 0 c (f_round (s \<noteq> False) ?x)" using x assms(3,4) by (intro f_round_between) auto
  moreover have "f_val (f_round (s \<noteq> False) ?x) = round_mag ?x" using x assms(3,4) by (intro f_round_val [where b = c]) auto
  moreover have "round_mag ?x \<le> of_int b" using round_mag_mono [OF x(2)] assms(5) by (rule order_trans)
  ultimately show ?thesis by (simp add: v f_between_def)
qed

section \<open>Unsigned integers as floats\<close>

lemma round_2_64: "round_mag (2 ^ 64) = 2 ^ 64"
  by (subst round_mag_eval [where e = 64 and n = "2 ^ 52"]) (simp_all add: pow2_def)

lemma f_of_int_u64:
  assumes "0 \<le> n" and "n \<le> 2 ^ 64"
  shows "f_of_int n = Fin False (round_mag (of_int n))"
proof -
  have "(of_int n :: rat) \<le> of_int (2 ^ 64)" using assms(2) unfolding of_int_le_iff .
  then have "round_mag (of_int n) \<le> round_mag (2 ^ 64)" by (intro round_mag_mono) simp
  then have "round_mag (of_int n) < 2 ^ 1024" unfolding round_2_64 by simp
  moreover have "round_mag 0 = 0" using binary64.rnd_int [of 0] by simp
  ultimately show ?thesis using assms(1) by (auto simp: f_of_int_def f_round_def Let_def)
qed

lemma percentage_between:
  assumes "0 \<le> i" and "i \<le> j" and "0 < j" and "j \<le> 2 ^ 64"
  shows "f_between 0 100 (f_mul (f_div (f_of_int i) (f_of_int j)) (Fin False 100))"
proof -
  define a b where "a = round_mag (of_int i)" and "b = round_mag (of_int j)"
  have "(1::rat) \<le> of_int j" using assms(3) by linarith
  then have "round_mag 1 \<le> b" unfolding b_def by (rule round_mag_mono)
  then have b: "1 \<le> b" using binary64.rnd_int [of 1] by simp
  have ab: "a \<le> b" unfolding a_def b_def by (rule round_mag_mono) (unfold of_int_le_iff, rule assms(2))
  have a: "0 \<le> a" unfolding a_def by (rule round_mag_nonneg)
  have "f_between 0 1 (f_round False (a / b))" using a b ab by (intro f_round_between) simp_all
  then have "f_between 0 100 (f_mul (f_round False (a / b)) (Fin False 100))"
    using binary64.rnd_int [of 100] by (intro f_mul_bound [where a = 1 and c = 100]) simp_all
  moreover have "i \<le> 2 ^ 64" using assms(2,4) by linarith
  ultimately show ?thesis
    using b assms by (simp add: f_of_int_u64 a_def [symmetric] b_def [symmetric])
qed

end
