(* ===== verification/GoNumText.thy ===== *)
theory GoNumText
  imports GoFloat GoTime
begin

text \<open>
  Numbers and text: the value of a decimal literal, \<open>strconv.ParseFloat\<close>, \<open>strconv.FormatFloat\<close> in the
  two forms the agent uses (two decimals, and the shortest form of \<open>encoding/json\<close>), \<open>fmt.Sscanf\<close> with
  \<open>%f\<close>, and \<open>time.ParseDuration\<close>.
\<close>

section \<open>Decimal literals\<close>

text \<open>Sign, digits before and after the point, and exponent of \<open>-12.5e3\<close> and the like.\<close>

definition split_sign :: "string \<Rightarrow> bool \<times> string" where
  "split_sign s =
    (case s of [] \<Rightarrow> (False, [])
     | c # r \<Rightarrow> if c = CHR ''-'' then (True, r) else if c = CHR ''+'' then (False, r) else (False, s))"

definition signed_digits :: "string \<Rightarrow> int" where
  "signed_digits s = (let (neg, ds) = split_sign s in if neg then - int (digits_val ds) else int (digits_val ds))"

definition pow10 :: "int \<Rightarrow> rat" where
  "pow10 k = (if 0 \<le> k then 10 ^ nat k else 1 / 10 ^ nat (- k))"

definition is_exp :: "char \<Rightarrow> bool" where
  "is_exp c \<longleftrightarrow> c = CHR ''e'' \<or> c = CHR ''E''"

definition lit_mag :: "string \<Rightarrow> rat" where
  "lit_mag s =
    (let mant = takeWhile (\<lambda>c. \<not> is_exp c) s;
         ex = drop (Suc (length mant)) s;
         whole = takeWhile is_digit mant;
         frac = drop (Suc (length whole)) mant
     in of_nat (digits_val (whole @ frac)) * pow10 (signed_digits ex - int (length frac)))"

text \<open>\<open>strconv.ParseFloat\<close> of a well-formed literal; a value out of range is an error.\<close>

definition ParseFloat :: "string \<Rightarrow> f64 option" where
  "ParseFloat lit =
    (let (neg, s) = split_sign lit;
         v = f_round neg (if neg then - lit_mag s else lit_mag s)
     in case v of Inf _ \<Rightarrow> None | _ \<Rightarrow> Some v)"

section \<open>Formatting\<close>

text \<open>\<open>FormatFloat(v, 'f', 2, 64)\<close>: the exact value rounded to two decimals, ties to even.\<close>

definition FormatFloat2 :: "f64 \<Rightarrow> string" where
  "FormatFloat2 v =
    (case v of
       NaN \<Rightarrow> ''NaN''
     | Inf s \<Rightarrow> if s then ''-Inf'' else ''+Inf''
     | Fin s m \<Rightarrow>
       (let n = round_even (m * 100)
        in (if s then ''-'' else []) @ FormatInt (n div 100) @ ''.'' @ pad 2 (n mod 100)))"

text \<open>
  The shortest decimal that reads back as the same float: \<open>shortest m\<close> is a pair of digits \<open>d\<close> and an
  exponent \<open>k\<close> with \<open>d * 10 ^ k\<close> rounding to \<open>m\<close>, with as few digits as possible and as close
  to \<open>m\<close> as possible. Seventeen digits always suffice.
\<close>

definition decexp :: "rat \<Rightarrow> int" where
  "decexp m =
    (if 1 \<le> m then int (length (nat_digits (nat \<lfloor>m\<rfloor>))) - 1
     else - int (length (nat_digits (nat (\<lceil>1 / m\<rceil> - 1)))))"

definition reads_back :: "rat \<Rightarrow> int \<Rightarrow> int \<Rightarrow> bool" where
  "reads_back m k d \<longleftrightarrow> round_mag (of_int d * pow10 k) = m"

definition candidate :: "rat \<Rightarrow> int \<Rightarrow> int option" where
  "candidate m k =
    (let x = m / pow10 k; d = \<lfloor>x\<rfloor>; down = reads_back m k d; up = reads_back m k (d + 1)
     in if down \<and> up then Some (round_even x) else if down then Some d else if up then Some (d + 1) else None)"

fun shortest_from :: "nat \<Rightarrow> nat \<Rightarrow> rat \<Rightarrow> int \<times> int" where
  "shortest_from 0 n m = (let k = decexp m - int n + 1 in (round_even (m / pow10 k), k))"
| "shortest_from (Suc more) n m =
    (let k = decexp m - int n + 1
     in case candidate m k of Some d \<Rightarrow> if d = 10 ^ n then (10 ^ (n - 1), k + 1) else (d, k) | None \<Rightarrow> shortest_from more (Suc n) m)"

definition shortest :: "rat \<Rightarrow> int \<times> int" where
  "shortest m = shortest_from 16 1 m"

definition fixed_point :: "int \<Rightarrow> int \<Rightarrow> string" where
  "fixed_point d k =
    (let ds = FormatInt d; n = length ds
     in if 0 \<le> k then ds @ replicate (nat k) (CHR ''0'')
        else if nat (- k) < n then take (n - nat (- k)) ds @ ''.'' @ drop (n - nat (- k)) ds
        else ''0.'' @ replicate (nat (- k) - n) (CHR ''0'') @ ds)"

definition scientific :: "int \<Rightarrow> int \<Rightarrow> string" where
  "scientific d k =
    (let ds = FormatInt d; e = k + int (length ds) - 1
     in take 1 ds @ (if length ds = 1 then [] else ''.'' @ drop 1 ds) @ ''e''
        @ (if e < 0 then ''-'' else ''+'') @ FormatInt \<bar>e\<bar>)"

text \<open>A float in JSON, which has no infinities.\<close>

definition json_float :: "f64 \<Rightarrow> string option" where
  "json_float v =
    (case v of
       Fin s m \<Rightarrow>
         (let t = (if m = 0 then ''0''
                   else let (d, k) = shortest m
                        in if m < round_mag (pow10 (-6)) \<or> pow10 21 \<le> m then scientific d k else fixed_point d k)
          in Some ((if s then ''-'' else []) @ t))
     | _ \<Rightarrow> None)"

section \<open>Scanning a float\<close>

text \<open>
  \<open>fmt.Sscanf(s, "%f", &v)\<close>: the longest prefix that looks like a decimal float is converted, what follows
  it is ignored. A prefix without digits, with underscores or out of range is an error. Leading
  white space and hexadecimal floats, which the agent never stores, are not modelled and give an error.
\<close>

definition digit_or_us :: "char \<Rightarrow> bool" where
  "digit_or_us c \<longleftrightarrow> is_digit c \<or> c = CHR ''_''"

definition scan_float_token :: "string \<Rightarrow> (string \<times> string \<times> string option) \<times> bool" where
  "scan_float_token s =
    (let (neg, r0) = split_sign s;
         whole = takeWhile digit_or_us r0;
         r1 = drop (length whole) r0;
         frac = (if r1 \<noteq> [] \<and> hd r1 = CHR ''.'' then takeWhile digit_or_us (tl r1) else []);
         r2 = (if r1 \<noteq> [] \<and> hd r1 = CHR ''.'' then drop (length frac) (tl r1) else r1);
         ex = (if r2 \<noteq> [] \<and> is_exp (hd r2) then
                 (let (_, r3) = split_sign (tl r2);
                      ds = takeWhile digit_or_us r3
                  in Some (take (length (tl r2) - length r3) (tl r2) @ ds))
               else None)
     in ((whole, frac, ex), neg))"

definition float_of_token :: "(string \<times> string \<times> string option) \<times> bool \<Rightarrow> f64 option" where
  "float_of_token t =
    (let ((whole, frac, ex), neg) = t;
         e = (case ex of None \<Rightarrow> '''' | Some e \<Rightarrow> ''e'' @ e);
         ex_ok = (case ex of None \<Rightarrow> True
           | Some x \<Rightarrow> snd (split_sign x) \<noteq> [] \<and> list_all is_digit (snd (split_sign x)))
     in if whole @ frac = [] \<or> \<not> list_all is_digit (whole @ frac) \<or> \<not> ex_ok
        then None
        else ParseFloat ((if neg then ''-'' else []) @ whole @ ''.'' @ frac @ e))"

definition Sscanf_f :: "string \<Rightarrow> f64 option" where
  "Sscanf_f s = float_of_token (scan_float_token s)"

section \<open>Durations\<close>

text \<open>The digits of a whole part as an unsigned number below \<open>2 ^ 63\<close> or that bound, and the rest.\<close>

fun leadingInt :: "nat \<Rightarrow> string \<Rightarrow> (nat \<times> string) option" where
  "leadingInt x [] = Some (x, [])"
| "leadingInt x (c # s) =
    (if \<not> is_digit c then Some (x, c # s)
     else if 2 ^ 63 div 10 < x then None
     else if 2 ^ 63 < x * 10 + digit_val c then None
     else leadingInt (x * 10 + digit_val c) s)"

text \<open>The digits of a fraction; once they overflow, further digits are dropped.\<close>

fun leadingFraction :: "nat \<Rightarrow> nat \<Rightarrow> bool \<Rightarrow> string \<Rightarrow> nat \<times> nat \<times> string" where
  "leadingFraction x scale overflow [] = (x, scale, [])"
| "leadingFraction x scale overflow (c # s) =
    (if \<not> is_digit c then (x, scale, c # s)
     else if overflow \<or> (2 ^ 63 - 1) div 10 < x \<or> 2 ^ 63 < x * 10 + digit_val c
       then leadingFraction x scale True s
     else leadingFraction (x * 10 + digit_val c) (scale * 10) False s)"

definition unitMap :: "string \<Rightarrow> nat option" where
  "unitMap u = map_of
    [(''ns'', 1), (''us'', 1000), ([CHR 0xC2, CHR 0xB5] @ ''s'', 1000), ([CHR 0xCE, CHR 0xBC] @ ''s'', 1000),
     (''ms'', 1000000), (''s'', 1000000000), (''m'', 60000000000), (''h'', 3600000000000)] u"

text \<open>One term of a duration, such as \<open>1.5h\<close>: its nanoseconds and the rest.\<close>

definition fraction_ns :: "nat \<Rightarrow> nat \<Rightarrow> nat \<Rightarrow> nat" where
  "fraction_ns f scale unit =
    (if f = 0 then 0
     else nat \<lfloor>f_val (f_mul (f_of_int (int f)) (f_div (f_of_int (int unit)) (f_of_int (int scale))))\<rfloor>)"

definition duration_term :: "string \<Rightarrow> (nat \<times> string) option" where
  "duration_term s =
    (if s = [] \<or> \<not> (hd s = CHR ''.'' \<or> is_digit (hd s)) then None
     else case leadingInt 0 s of
       None \<Rightarrow> None
     | Some (v, s1) \<Rightarrow>
       (let point = (s1 \<noteq> [] \<and> hd s1 = CHR ''.'');
            (f, scale, s2) = (if point then leadingFraction 0 1 False (tl s1) else (0, 1, s1));
            pre = (length s1 \<noteq> length s);
            post = (point \<and> length s2 \<noteq> length (tl s1));
            u = takeWhile (\<lambda>c. c \<noteq> CHR ''.'' \<and> \<not> is_digit c) s2
        in if \<not> pre \<and> \<not> post \<or> u = [] then None
           else case unitMap u of
             None \<Rightarrow> None
           | Some unit \<Rightarrow>
             if 2 ^ 63 div unit < v then None
             else (let total = v * unit + fraction_ns f scale unit
                   in if 2 ^ 63 < total then None else Some (total, drop (length u) s2))))"

fun duration_terms :: "nat \<Rightarrow> nat \<Rightarrow> string \<Rightarrow> nat option" where
  "duration_terms 0 d s = None"
| "duration_terms (Suc fuel) d s =
    (if s = [] then Some d
     else case duration_term s of
       None \<Rightarrow> None
     | Some (v, r) \<Rightarrow> if 2 ^ 63 < d + v then None else duration_terms fuel (d + v) r)"

text \<open>Every term consumes at least one byte, so one unit of fuel per byte and one more is enough.\<close>

definition ParseDuration :: "string \<Rightarrow> int option" where
  "ParseDuration s0 =
    (let (neg, s) = split_sign s0
     in if s = ''0'' then Some 0
        else if s = [] then None
        else case duration_terms (Suc (length s)) 0 s of
          None \<Rightarrow> None
        | Some d \<Rightarrow> if neg then Some (- int d) else if 2 ^ 63 - 1 < int d then None else Some (int d))"

lemma leadingInt_length: "leadingInt x s = Some (v, r) \<Longrightarrow> length r \<le> length s"
  by (induction x s rule: leadingInt.induct) (auto split: if_splits)

lemma leadingFraction_length: "leadingFraction x sc ov s = (f, sc', r) \<Longrightarrow> length r \<le> length s"
  by (induction x sc ov s rule: leadingFraction.induct) (auto split: if_splits)

lemma duration_term_length:
  assumes "duration_term s = Some (v, r)"
  shows "length r < length s"
proof -
  obtain w s1 where s1: "leadingInt 0 s = Some (w, s1)"
    using assms by (auto simp: duration_term_def split: if_splits option.splits)
  define point where "point = (s1 \<noteq> [] \<and> hd s1 = CHR ''.'')"
  obtain f sc s2 where s2: "(if point then leadingFraction 0 1 False (tl s1) else (0, 1, s1)) = (f, sc, s2)"
    by (metis prod_cases3)
  let ?u = "takeWhile (\<lambda>c. c \<noteq> CHR ''.'' \<and> \<not> is_digit c) s2"
  have "length s2 \<le> length s"
    using leadingInt_length [OF s1] s2 leadingFraction_length [of 0 1 False "tl s1" f sc s2]
    by (auto split: if_splits)
  moreover have "?u \<noteq> []" and "r = drop (length ?u) s2"
    using assms s1 s2 by (auto simp: duration_term_def point_def Let_def split: if_splits option.splits)
  moreover from this have "0 < length ?u" "0 < length s2" unfolding length_greater_0_conv by auto
  moreover have "length r = length s2 - length ?u" using \<open>r = drop (length ?u) s2\<close> length_drop by metis
  ultimately show ?thesis by linarith
qed

lemma duration_fuel_enough:
  "length s < fuel \<Longrightarrow> length s < fuel' \<Longrightarrow> duration_terms fuel d s = duration_terms fuel' d s"
proof (induction fuel arbitrary: fuel' d s)
  case (Suc fuel)
  then obtain g where "fuel' = Suc g" by (cases fuel') auto
  have "duration_terms fuel (d + v) r = duration_terms g (d + v) r" if "duration_term s = Some (v, r)" for v r
    using Suc.IH [of r g "d + v"] duration_term_length [OF that] Suc.prems \<open>fuel' = Suc g\<close> by simp
  then show ?case unfolding \<open>fuel' = Suc g\<close> by (simp split: option.split)
qed simp

lemma duration_terms_bound: "duration_terms fuel d s = Some v \<Longrightarrow> d \<le> 2 ^ 63 \<Longrightarrow> v \<le> 2 ^ 63"
  by (induction fuel d s rule: duration_terms.induct) (auto split: if_splits option.splits)

lemma ParseDuration_range:
  assumes "ParseDuration s = Some d"
  shows "- (2 ^ 63) \<le> d \<and> d < 2 ^ 63"
proof -
  obtain neg t where sp: "split_sign s = (neg, t)" by (cases "split_sign s")
  have "int v \<le> 2 ^ 63" if "duration_terms (Suc (length t)) 0 t = Some v" for v
    using duration_terms_bound [OF that] by simp
  then show ?thesis
    using assms unfolding ParseDuration_def sp
    by (auto simp del: duration_terms.simps split: if_splits option.splits)
qed

end
