(* ===== verification/GoUnmarshal.thy ===== *)
theory GoUnmarshal
  imports GoJson GoNumText "HOL-Library.Word"
begin

text \<open>
  \<open>json.Unmarshal\<close> into the three kinds of targets the agent uses: a \<open>map[string]any\<close>, a struct with
  string and number fields, and a struct with \<open>json.RawMessage\<close> fields, which keep the text of the
  value. Struct fields are matched without regard to letter case, \<open>null\<close> leaves a string or number
  field alone, and any value of a wrong type makes the whole call an error.
\<close>

section \<open>Generic maps\<close>

text \<open>A number that does not fit a float is an error, wherever it stands.\<close>

fun numbers_ok :: "json \<Rightarrow> bool" where
  "numbers_ok (JNum t) \<longleftrightarrow> ParseFloat t \<noteq> None"
| "numbers_ok (JArr es) \<longleftrightarrow> list_all numbers_ok es"
| "numbers_ok (JObj ms) \<longleftrightarrow> list_all (\<lambda>m. numbers_ok (snd m)) ms"
| "numbers_ok _ \<longleftrightarrow> True"

definition Unmarshal_map :: "string \<Rightarrow> (string \<Rightarrow> json option) option" where
  "Unmarshal_map s =
    (case json_parse s of
       Some JNull \<Rightarrow> Some (\<lambda>_. None)
     | Some (JObj ms) \<Rightarrow> if numbers_ok (JObj ms) then Some (json_member (JObj ms)) else None
     | _ \<Rightarrow> None)"

section \<open>Struct fields\<close>

text \<open>The case folding of field names, for names in ASCII: two runes beyond ASCII fold to letters.\<close>

definition fold_rune :: "nat \<Rightarrow> nat" where
  "fold_rune r =
    (if r < 0x80 then byte_val (ascii_lower (byte_of r))
     else if r = 0x17F then byte_val (CHR ''s'')
     else if r = 0x212A then byte_val (CHR ''k'')
     else r)"

definition names_field :: "string \<Rightarrow> string \<Rightarrow> bool" where
  "names_field name key \<longleftrightarrow> map fold_rune (runes key) = map fold_rune (runes name)"

text \<open>The members of the object a text holds; none for \<open>null\<close>, an error for anything else.\<close>

definition Unmarshal_object :: "string \<Rightarrow> (string \<times> json) list option" where
  "Unmarshal_object s =
    (case json_parse s of Some JNull \<Rightarrow> Some [] | Some (JObj ms) \<Rightarrow> Some ms | _ \<Rightarrow> None)"

definition string_field :: "string \<Rightarrow> (string \<times> json) list \<Rightarrow> string" where
  "string_field name ms =
    foldl (\<lambda>old m. if names_field name (fst m) then (case snd m of JStr s \<Rightarrow> s | _ \<Rightarrow> old) else old) [] ms"

definition string_ok :: "string \<Rightarrow> (string \<times> json) list \<Rightarrow> bool" where
  "string_ok name ms \<longleftrightarrow>
    list_all (\<lambda>m. names_field name (fst m) \<longrightarrow> (case snd m of JStr _ \<Rightarrow> True | JNull \<Rightarrow> True | _ \<Rightarrow> False)) ms"

definition float_field :: "string \<Rightarrow> (string \<times> json) list \<Rightarrow> f64" where
  "float_field name ms =
    foldl (\<lambda>old m. if names_field name (fst m)
      then (case snd m of JNum t \<Rightarrow> (case ParseFloat t of Some v \<Rightarrow> v | None \<Rightarrow> old) | _ \<Rightarrow> old) else old) (Fin False 0) ms"

definition float_ok :: "string \<Rightarrow> (string \<times> json) list \<Rightarrow> bool" where
  "float_ok name ms \<longleftrightarrow>
    list_all (\<lambda>m. names_field name (fst m) \<longrightarrow>
      (case snd m of JNum t \<Rightarrow> ParseFloat t \<noteq> None | JNull \<Rightarrow> True | _ \<Rightarrow> False)) ms"

section \<open>Raw fields\<close>

text \<open>The members of a valid object with the text of each value; \<open>s\<close> begins at a key.\<close>

fun raw_members :: "nat \<Rightarrow> string \<Rightarrow> (string \<times> string) list" where
  "raw_members 0 s = []"
| "raw_members (Suc fuel) s =
    (case scan_string (drop 1 (skip_ws s)) of
       None \<Rightarrow> []
     | Some (key, r1) \<Rightarrow>
       (let v = skip_ws (drop 1 (skip_ws r1))
        in case p_value (2 * length v + 2) 1 v of
          None \<Rightarrow> []
        | Some (_, r) \<Rightarrow>
          (unquote key, take (length v - length r) v)
          # (if take 1 (skip_ws r) = '','' then raw_members fuel (drop 1 (skip_ws r)) else [])))"

text \<open>The members of the object a valid text holds; each takes at least one byte.\<close>

definition raw_object :: "string \<Rightarrow> (string \<times> string) list" where
  "raw_object s =
    (if take 1 (skip_ws s) = ''{'' \<and> take 1 (skip_ws (drop 1 (skip_ws s))) \<noteq> ''}''
     then raw_members (length s) (drop 1 (skip_ws s)) else [])"

definition raw_field :: "string \<Rightarrow> (string \<times> string) list \<Rightarrow> string" where
  "raw_field name ms = foldl (\<lambda>old m. if names_field name (fst m) then snd m else old) [] ms"

section \<open>Evaluation on concrete documents\<close>

lemma names_field_ascii:
  assumes "is_ascii name" and "is_ascii key"
  shows "names_field name key \<longleftrightarrow> map ascii_lower key = map ascii_lower name"
proof -
  have fold: "map fold_rune (runes s) = map byte_val (map ascii_lower s)" if "is_ascii s" for s
    using that unfolding runes_ascii [OF that]
    by (induction s) (simp_all add: is_ascii_def fold_rune_def byte_of_def byte_val_def)
  have "inj byte_val" by (rule inj_on_inverseI [of _ byte_of]) (simp add: byte_of_def byte_val_def)
  then show ?thesis unfolding names_field_def fold [OF assms(1)] fold [OF assms(2)] using inj_map_eq_map by blast
qed

lemmas raw_numeral = raw_members.simps(2) [of "pred_numeral k", folded numeral_eq_Suc] for k

lemmas field_eval = string_field_def string_ok_def raw_field_def names_field_ascii is_ascii_def byte_val_def
  ascii_lower_def byte_of_def

section \<open>Decoding into a given value\<close>

text \<open>
  A decoder takes a JSON value and the Go value it is stored into. As \<open>encoding/json\<close> does, a value of the wrong type
  leaves its target alone and decoding goes on, with an error at the end; an error of an \<open>Unmarshaler\<close> stops
  it. The elements of an array are decoded into those the slice already has, then into zero values.
\<close>

datatype dstat = DOk | DType | DAbort

fun worse :: "dstat \<Rightarrow> dstat \<Rightarrow> dstat" where
  "worse DOk b = b"
| "worse DType b = (if b = DAbort then DAbort else DType)"
| "worse DAbort b = DAbort"

type_synonym 'a dec = "json \<Rightarrow> 'a \<Rightarrow> 'a \<times> dstat"

definition dec_string :: "string dec" where
  "dec_string j old = (case j of JStr s \<Rightarrow> (s, DOk) | JNull \<Rightarrow> (old, DOk) | _ \<Rightarrow> (old, DType))"

definition dec_bool :: "bool dec" where
  "dec_bool j old = (case j of JBool b \<Rightarrow> (b, DOk) | JNull \<Rightarrow> (old, DOk) | _ \<Rightarrow> (old, DType))"

definition dec_float :: "f64 dec" where
  "dec_float j old =
    (case j of
       JNum t \<Rightarrow> (case ParseFloat t of Some v \<Rightarrow> (v, DOk) | None \<Rightarrow> (old, DType))
     | JNull \<Rightarrow> (old, DOk) | _ \<Rightarrow> (old, DType))"

definition dec_word :: "('w::len) word dec" where
  "dec_word j old =
    (case j of
       JNum t \<Rightarrow>
         if t \<noteq> [] \<and> list_all is_digit t \<and> digits_val t < 2 ^ LENGTH('w) then (of_nat (digits_val t), DOk) else (old, DType)
     | JNull \<Rightarrow> (old, DOk) | _ \<Rightarrow> (old, DType))"

text \<open>\<open>time.Time\<close> has an unmarshaler; its text is taken without escapes.\<close>

definition dec_time :: "(int \<times> int) dec" where
  "dec_time j old =
    (case j of
       JStr s \<Rightarrow> (case ParseZoned s of Some t \<Rightarrow> (t, DOk) | None \<Rightarrow> (old, DAbort))
     | JNull \<Rightarrow> (old, DOk) | _ \<Rightarrow> (old, DAbort))"

fun dec_elems :: "'a \<Rightarrow> 'a dec \<Rightarrow> json list \<Rightarrow> 'a list \<Rightarrow> 'a list \<times> dstat" where
  "dec_elems zero dec [] olds = ([], DOk)"
| "dec_elems zero dec (e # es) olds =
    (let (v, s) = dec e (case olds of o1 # _ \<Rightarrow> o1 | [] \<Rightarrow> zero)
     in if s = DAbort then (v # drop 1 olds, DAbort)
        else (let (vs, s') = dec_elems zero dec es (drop 1 olds) in (v # vs, worse s s')))"

definition dec_list :: "'a \<Rightarrow> 'a dec \<Rightarrow> 'a list dec" where
  "dec_list zero dec j old =
    (case j of JArr es \<Rightarrow> dec_elems zero dec es old | JNull \<Rightarrow> ([], DOk) | _ \<Rightarrow> (old, DType))"

text \<open>A slice that may be nil.\<close>

definition dec_slice :: "'a \<Rightarrow> 'a dec \<Rightarrow> 'a list option dec" where
  "dec_slice zero dec j old =
    (case j of
       JArr es \<Rightarrow> (let (vs, s) = dec_elems zero dec es (case old of Some xs \<Rightarrow> xs | None \<Rightarrow> []) in (Some vs, s))
     | JNull \<Rightarrow> (None, DOk) | _ \<Rightarrow> (old, DType))"

text \<open>A struct, by the decoders of its fields, each with the name it goes by.\<close>

definition dec_at :: "('r \<Rightarrow> 'a) \<Rightarrow> (('a \<Rightarrow> 'a) \<Rightarrow> 'r \<Rightarrow> 'r) \<Rightarrow> 'a dec \<Rightarrow> 'r dec" where
  "dec_at get upd dec j r = (let (v, s) = dec j (get r) in (upd (\<lambda>_. v) r, s))"

fun dec_fields :: "(string \<times> 'r dec) list \<Rightarrow> (string \<times> json) list \<Rightarrow> 'r \<Rightarrow> 'r \<times> dstat" where
  "dec_fields fs [] r = (r, DOk)"
| "dec_fields fs (m # ms) r =
    (case find (\<lambda>f. names_field (fst f) (fst m)) fs of
       None \<Rightarrow> dec_fields fs ms r
     | Some f \<Rightarrow>
       (let (r1, s) = snd f (snd m) r
        in if s = DAbort then (r1, DAbort) else (let (r2, s') = dec_fields fs ms r1 in (r2, worse s s'))))"

definition dec_struct :: "(string \<times> 'r dec) list \<Rightarrow> 'r dec" where
  "dec_struct fs j r = (case j of JObj ms \<Rightarrow> dec_fields fs ms r | JNull \<Rightarrow> (r, DOk) | _ \<Rightarrow> (r, DType))"

text \<open>\<open>json.Unmarshal\<close>: nothing is stored from a text that is not JSON.\<close>

definition Unmarshal :: "'a dec \<Rightarrow> string \<Rightarrow> 'a \<Rightarrow> 'a \<times> bool" where
  "Unmarshal dec text old =
    (case json_parse text of None \<Rightarrow> (old, False) | Some j \<Rightarrow> (let (v, s) = dec j old in (v, s = DOk)))"

end
