(* ===== verification/SoftEngine.thy ===== *)
theory SoftEngine
  imports Sync SoftCollect GoUnmarshal
begin

text \<open>
  Package \<open>internal/software\<close>, \<open>engine.go\<close>: one pass of the software inventory (\<open>RunOnce\<close>), its interval and
  its loop. The payload is the JSON text of \<open>models.go\<close>; a pass uploads only when the fingerprint
  of agent and items differs from the stored one.
\<close>

section \<open>Payload and report\<close>

definition Endpoint :: string where "Endpoint = ''/api/agent/software''"

definition sw_DefaultInterval :: int where "sw_DefaultInterval = 24 * Hour"

record sw_Payload =
  sp_AgentUUID :: string
  sp_CollectedAt :: int
  sp_Items :: "Installation list"

record sw_Report =
  sr_CollectDuration :: int
  sr_UploadDuration :: int
  sr_PayloadSize :: int
  sr_SoftwareCount :: int
  sr_ChangedItems :: int
  sr_SkippedItems :: int
  sr_Fingerprint :: string
  sr_Result :: string

definition sw_failed :: sw_Report where
  "sw_failed = \<lparr>sr_CollectDuration = 0, sr_UploadDuration = 0, sr_PayloadSize = 0, sr_SoftwareCount = 0,
    sr_ChangedItems = 0, sr_SkippedItems = 0, sr_Fingerprint = [], sr_Result = ''FAILED''\<rparr>"

text \<open>The JSON of an installation, fields in the order of the struct, empty ones left out where tagged so.\<close>

definition omitempty :: "string \<Rightarrow> string \<Rightarrow> (string \<times> json) list" where
  "omitempty name v = (if v = [] then [] else [(name, JStr v)])"

definition installation_json :: "Installation \<Rightarrow> json option" where
  "installation_json i =
    (let front = [(''name'', JStr (in_Name i)), (''displayName'', JStr (in_DisplayName i))]
           @ omitempty ''version'' (in_Version i) @ omitempty ''publisher'' (in_Publisher i)
           @ omitempty ''architecture'' (in_Architecture i);
         back = omitempty ''installLocation'' (in_InstallLocation i)
           @ omitempty ''uninstallString'' (in_UninstallString i)
           @ omitempty ''quietUninstallString'' (in_QuietUninstallString i)
           @ omitempty ''registryKey'' (in_RegistryKey i) @ [(''source'', JStr (in_Source i))]
           @ omitempty ''scope'' (in_Scope i) @ omitempty ''evidence'' (in_Evidence i)
     in case in_InstallDate i of
          None \<Rightarrow> Some (JObj (front @ back))
        | Some t \<Rightarrow> map_option (\<lambda>s. JObj (front @ [(''installDate'', JStr s)] @ back)) (time_text t))"

fun all_some :: "'a option list \<Rightarrow> 'a list option" where
  "all_some [] = Some []"
| "all_some (None # xs) = None"
| "all_some (Some x # xs) = map_option (\<lambda>ys. x # ys) (all_some xs)"

text \<open>\<open>json.Marshal\<close> of a payload and of what is fingerprinted; the text of its error is not modelled.\<close>

definition sw_marshal :: "sw_Payload \<Rightarrow> string result" where
  "sw_marshal p =
    (case (time_text (sp_CollectedAt p, 0), all_some (map installation_json (sp_Items p))) of
       (Some t, Some items) \<Rightarrow>
         Inr (json_print (JObj [(''agentUuid'', JStr (sp_AgentUUID p)), (''collectedAt'', JStr t), (''items'', JArr items)]))
     | _ \<Rightarrow> Inl (Errorf ''json''))"

definition payloadFingerprint :: "sw_Payload \<Rightarrow> string" where
  "payloadFingerprint p =
    (let data = (case all_some (map installation_json (sp_Items p)) of
                   Some items \<Rightarrow> json_print (JObj [(''agentUuid'', JStr (sp_AgentUUID p)), (''items'', JArr items)])
                 | None \<Rightarrow> [])
     in hex_EncodeToString (sha256_Sum256 data))"

section \<open>The interval\<close>

definition sw_parseInterval :: "json option \<Rightarrow> int" where
  "sw_parseInterval v =
    (case v of
       Some (JStr s) \<Rightarrow> (case ParseDuration s of Some d \<Rightarrow> if 0 < d then d else 0 | None \<Rightarrow> 0)
     | Some (JNum t) \<Rightarrow>
       (case ParseFloat t of
          Some f \<Rightarrow> if f_lt (Fin False 0) f then wrap64 (f_int64 f * Second) else 0
        | None \<Rightarrow> 0)
     | _ \<Rightarrow> 0)"

definition sw_keys :: "string list" where
  "sw_keys = [''softwareInventoryInterval'', ''software_inventory_interval'', ''softwareInterval'', ''software_interval'']"

definition first_interval :: "(string \<Rightarrow> json option) \<Rightarrow> string list \<Rightarrow> int" where
  "first_interval raw keys =
    (case find (\<lambda>key. 0 < sw_parseInterval (raw key)) keys of
       Some key \<Rightarrow> sw_parseInterval (raw key)
     | None \<Rightarrow> sw_DefaultInterval)"

definition sw_interval :: "int go" where
  "sw_interval = do {
    r \<leftarrow> Get ''portal_configuration'';
    State_Monad.return (case r of
      Inr (Some v) \<Rightarrow>
        (case Unmarshal_map v of Some raw \<Rightarrow> first_interval raw sw_keys | None \<Rightarrow> sw_DefaultInterval)
    | _ \<Rightarrow> sw_DefaultInterval)
  }"

section \<open>One pass\<close>

text \<open>The part after the payload is marshalled: skip, or upload and remember the fingerprint.\<close>

definition sw_upload :: "engine \<Rightarrow> int \<Rightarrow> sw_Payload \<Rightarrow> string \<Rightarrow> (sw_Report \<times> error option) go" where
  "sw_upload e collectDuration payload encoded = do {
    let n = int (length (sp_Items payload));
    let fingerprint = payloadFingerprint payload;
    previous \<leftarrow> Get ''software_last_fingerprint'';
    if (case previous of Inr (Some p) \<Rightarrow> p | _ \<Rightarrow> []) = fingerprint then
      State_Monad.return (sw_failed\<lparr>sr_CollectDuration := collectDuration, sr_SoftwareCount := n,
        sr_SkippedItems := n, sr_Fingerprint := fingerprint, sr_Result := ''SKIPPED''\<rparr>, None)
    else do {
      uploadStarted \<leftarrow> Time_Now;
      sent \<leftarrow> SendJSON e Endpoint SoftwareType (Inr encoded);
      uploaded \<leftarrow> Time_Now;
      let report = sw_failed\<lparr>sr_CollectDuration := collectDuration, sr_UploadDuration := uploaded - uploadStarted,
        sr_PayloadSize := int (length encoded), sr_SoftwareCount := n, sr_ChangedItems := n,
        sr_Fingerprint := fingerprint, sr_Result := []\<rparr>;
      case snd sent of
        Some err \<Rightarrow>
          if errors_Is err ErrQueued then do {
            Put ''software_last_fingerprint'' fingerprint;
            State_Monad.return (report\<lparr>sr_Result := ''QUEUED''\<rparr>, Some err)
          }
          else State_Monad.return (report\<lparr>sr_Result := ''FAILED''\<rparr>, Some err)
      | None \<Rightarrow> do {
          Put ''software_last_fingerprint'' fingerprint;
          now \<leftarrow> Time_Now;
          Put ''software_last_success'' (FormatRFC3339Nano now);
          State_Monad.return (report\<lparr>sr_Result := ''SENT''\<rparr>, None)
        }
    }
  }"

definition sw_RunOnce :: "engine \<Rightarrow> (sw_Report \<times> error option) go" where
  "sw_RunOnce e = do {
    c \<leftarrow> ctx_Err;
    case c of
      Some err \<Rightarrow> State_Monad.return (sw_failed, Some err)
    | None \<Rightarrow> do {
        Flush e;
        uuid \<leftarrow> Get ''agent_uuid'';
        case uuid of
          Inl err \<Rightarrow> State_Monad.return (sw_failed, Some err)
        | Inr None \<Rightarrow> State_Monad.return (sw_failed, Some ErrNotRegistered)
        | Inr (Some agentUUID) \<Rightarrow>
          if agentUUID = [] then State_Monad.return (sw_failed, Some ErrNotRegistered)
          else do {
            collectStarted \<leftarrow> Time_Now;
            collected \<leftarrow> sw_Collect;
            case collected of
              Inl err \<Rightarrow> do {
                t \<leftarrow> Time_Now;
                State_Monad.return (sw_failed\<lparr>sr_CollectDuration := t - collectStarted\<rparr>, Some err)
              }
            | Inr found \<Rightarrow> do {
                items \<leftarrow> deduplicate found;
                t \<leftarrow> Time_Now;
                now \<leftarrow> Time_Now;
                let payload = \<lparr>sp_AgentUUID = agentUUID, sp_CollectedAt = now, sp_Items = items\<rparr>;
                case sw_marshal payload of
                  Inl err \<Rightarrow> State_Monad.return (sw_failed\<lparr>sr_CollectDuration := t - collectStarted\<rparr>, Some err)
                | Inr encoded \<Rightarrow> sw_upload e (t - collectStarted) payload encoded
              }
          }
      }
  }"

text \<open>
  \<open>Run\<close> waits one interval before each pass. Each unit of fuel is one turn of the loop, which ends only
  with the context; the result says whether it ended.
\<close>

fun sw_Run :: "nat \<Rightarrow> engine \<Rightarrow> bool go" where
  "sw_Run 0 e = State_Monad.return False"
| "sw_Run (Suc fuel) e = do {
    d \<leftarrow> sw_interval;
    done \<leftarrow> select_done d;
    if done then State_Monad.return True
    else do { sw_RunOnce e; sw_Run fuel e }
  }"

section \<open>Frames\<close>

lemma sw_upload_frame [simp]:
  "ev (snd (run_state (sw_upload e cd p enc) w)) = ev w"
  "history_tab (snd (run_state (sw_upload e cd p enc) w)) = history_tab w"
  "config_file (snd (run_state (sw_upload e cd p enc) w)) = config_file w"
  by (simp_all add: sw_upload_def Let_def split: option.split)

lemma sw_RunOnce_frame [simp]:
  "ev (snd (run_state (sw_RunOnce e) w)) = ev w"
  "history_tab (snd (run_state (sw_RunOnce e) w)) = history_tab w"
  "config_file (snd (run_state (sw_RunOnce e) w)) = config_file w"
  by (simp_all add: sw_RunOnce_def Let_def split: option.split sum.split)

lemma sw_upload_wf: "queue_wf w \<Longrightarrow> queue_wf (snd (run_state (sw_upload e cd p enc) w))"
  by (simp add: sw_upload_def Let_def SendJSON_wf split: option.split)

lemma sw_RunOnce_wf: "queue_wf w \<Longrightarrow> queue_wf (snd (run_state (sw_RunOnce e) w))"
  by (simp add: sw_RunOnce_def Let_def Flush_wf sw_upload_wf split: option.split sum.split)

section \<open>Intervals are positive\<close>

lemma sw_parseInterval_range: "- (2 ^ 63) \<le> sw_parseInterval v \<and> sw_parseInterval v < 2 ^ 63"
  using wrap64_range ParseDuration_range
  by (auto simp: sw_parseInterval_def split: option.split json.split)

lemma first_interval_range: "0 < first_interval raw keys \<and> first_interval raw keys < 2 ^ 63"
  using sw_parseInterval_range
  by (auto simp: first_interval_def sw_DefaultInterval_def find_Some_iff split: option.split)

section \<open>What a pass leaves behind\<close>

lemma fingerprint_nonempty: "payloadFingerprint p \<noteq> []"
proof -
  have "length (payloadFingerprint p) = 64" by (simp add: payloadFingerprint_def Let_def)
  then show ?thesis by force
qed

text \<open>The four outcomes of an upload, by the fingerprint stored before and the error of \<open>SendJSON\<close>.\<close>

definition sw_outcome :: "string \<Rightarrow> world \<Rightarrow> (sw_Report \<times> error option) \<times> world \<Rightarrow> bool" where
  "sw_outcome fp w res \<longleftrightarrow>
    (let rep = fst (fst res); err = snd (fst res); w' = snd res; last = ''software_last_fingerprint'' in
      sr_Fingerprint rep = fp
      \<and> (if kv w last = Some fp
         then sr_Result rep = ''SKIPPED'' \<and> err = None \<and> wire w' = wire w \<and> kv w' = kv w \<and> queue_tab w' = queue_tab w
         else if err = None then sr_Result rep = ''SENT'' \<and> kv w' last = Some fp
         else if is_queued err then sr_Result rep = ''QUEUED'' \<and> kv w' last = Some fp
         else sr_Result rep = ''FAILED'' \<and> kv w' = kv w))"

lemma sw_upload_outcome:
  assumes "sql_ok w"
  shows "sw_outcome (payloadFingerprint p) w (run_state (sw_upload e cd p encoded) w)"
  using assms fingerprint_nonempty [of p]
  by (auto simp: sw_outcome_def sw_upload_def Let_def run_simps is_queued_def kv_Put split: option.split)

text \<open>How a pass ends: before the fingerprint is computed, with nothing stored, or with an outcome of the upload.\<close>

lemma ctx_Err_error: "fst (run_state ctx_Err w) = Some err \<Longrightarrow> err = CtxCanceled"
  by (auto simp: ctx_Err_def split: option.splits if_splits)

lemma collect_sources_error: "fst (run_state (collect_sources ss items) w) = Inl err \<Longrightarrow> err = CtxCanceled"
  by (induction ss arbitrary: items w) (auto split: option.splits dest: ctx_Err_error)

lemma sw_Collect_error: "fst (run_state sw_Collect w) = Inl err \<Longrightarrow> err = CtxCanceled"
  by (auto simp: sw_Collect_def collectWindows_def split: sum.splits dest: collect_sources_error)

text \<open>A pass that ends early: nothing is stored and nothing is queued.\<close>

definition sw_early :: "world \<Rightarrow> (sw_Report \<times> error option) \<times> world \<Rightarrow> bool" where
  "sw_early w res \<longleftrightarrow>
    sr_Result (fst (fst res)) = ''FAILED'' \<and> sr_Fingerprint (fst (fst res)) = []
    \<and> snd (fst res) \<noteq> None \<and> \<not> is_queued (snd (fst res)) \<and> kv (snd res) = kv w"

text \<open>The items a pass on this machine may have read.\<close>

definition sw_reading :: "world \<Rightarrow> Installation list \<Rightarrow> bool" where
  "sw_reading w items \<longleftrightarrow> (\<exists>v found. ev v = ev w \<and> fst (run_state sw_Collect v) = Inr found
    \<and> items = fst (run_state (deduplicate found) (snd (run_state sw_Collect v))))"

lemma sw_RunOnce_cases:
  fixes e w
  assumes "sql_ok w"
  defines "flushed \<equiv> snd (run_state (Flush e) (snd (run_state ctx_Err w)))"
  shows "(\<exists>p v. kv w ''agent_uuid'' = Some (sp_AgentUUID p) \<and> sw_reading w (sp_Items p) \<and> (\<exists>data. sw_marshal p = Inr data)
      \<and> ev v = ev w \<and> kv v = kv w \<and> wire v = wire flushed \<and> queue_tab v = queue_tab flushed
      \<and> sw_outcome (payloadFingerprint p) v (run_state (sw_RunOnce e) w))
    \<or> sw_early w (run_state (sw_RunOnce e) w)"
proof (cases "fst (run_state ctx_Err w)")
  case (Some err)
  then show ?thesis
    using ctx_Err_error [OF Some] by (simp add: sw_RunOnce_def sw_early_def sw_failed_def is_queued_def)
next
  case None
  have fl: "ev flushed = ev w" "config_tab flushed = config_tab w" by (simp_all add: flushed_def)
  then have uuid: "fst (run_state (Get ''agent_uuid'') flushed) = Inr (kv w ''agent_uuid'')"
    using assms(1) by (simp add: run_simps)
  show ?thesis
  proof (cases "\<exists>u. kv w ''agent_uuid'' = Some u \<and> u \<noteq> []")
    case False
    with None uuid fl show ?thesis
      by (auto simp: sw_RunOnce_def sw_early_def sw_failed_def is_queued_def flushed_def [symmetric] split: option.split)
  next
    case True
    then obtain u where u: "kv w ''agent_uuid'' = Some u" "u \<noteq> []" by blast
    define w1 where "w1 = snd (run_state Time_Now (snd (run_state (Get ''agent_uuid'') flushed)))"
    show ?thesis
    proof (cases "fst (run_state sw_Collect w1)")
      case (Inl err)
      then have "sw_early w (run_state (sw_RunOnce e) w)"
        using None uuid u fl sw_Collect_error [OF Inl]
        by (simp add: sw_RunOnce_def sw_early_def sw_failed_def is_queued_def flushed_def [symmetric] w1_def [symmetric])
          (simp add: w1_def)
      then show ?thesis ..
    next
      case (Inr found)
      define w2 where "w2 = snd (run_state sw_Collect w1)"
      define w3 where "w3 = snd (run_state Time_Now (snd (run_state Time_Now (snd (run_state (deduplicate found) w2)))))"
      define p where "p = \<lparr>sp_AgentUUID = u,
        sp_CollectedAt = fst (run_state Time_Now (snd (run_state Time_Now (snd (run_state (deduplicate found) w2))))),
        sp_Items = fst (run_state (deduplicate found) w2)\<rparr>"
      define cd where "cd = fst (run_state Time_Now (snd (run_state (deduplicate found) w2)))
        - fst (run_state Time_Now (snd (run_state (Get ''agent_uuid'') flushed)))"
      have w3: "ev w3 = ev w" "config_tab w3 = config_tab w" "wire w3 = wire flushed" "queue_tab w3 = queue_tab flushed"
        by (simp_all add: w3_def w2_def w1_def fl)
      have run: "run_state (sw_RunOnce e) w =
        (case sw_marshal p of
           Inl err \<Rightarrow> ((sw_failed\<lparr>sr_CollectDuration := cd\<rparr>, Some err), w3)
         | Inr encoded \<Rightarrow> run_state (sw_upload e cd p encoded) w3)"
        using None uuid u Inr
        by (simp add: sw_RunOnce_def flushed_def [symmetric] w1_def [symmetric] w2_def [symmetric] Let_def)
          (simp add: w3_def [symmetric] p_def [symmetric] cd_def [symmetric] split: sum.split)
      show ?thesis
      proof (cases "sw_marshal p")
        case (Inl err)
        then have "sw_early w (run_state (sw_RunOnce e) w)"
          using w3 unfolding run
          by (auto simp: sw_early_def sw_failed_def is_queued_def sw_marshal_def split: option.splits)
        then show ?thesis ..
      next
        case (Inr encoded)
        have "sw_outcome (payloadFingerprint p) w3 (run_state (sw_RunOnce e) w)"
          using sw_upload_outcome [of w3 p e cd encoded] assms(1) w3 Inr unfolding run by simp
        moreover have "sw_reading w (sp_Items p)"
          unfolding sw_reading_def p_def w2_def
          using \<open>fst (run_state sw_Collect w1) = Inr found\<close> by (intro exI [of _ w1] exI [of _ found]) (simp add: w1_def fl)
        moreover have "sp_AgentUUID p = u" by (simp add: p_def)
        ultimately show ?thesis
          using w3 u(1) Inr by (intro disjI1 exI [of _ p] exI [of _ w3]) simp
      qed
    qed
  qed
qed

section \<open>A concrete machine\<close>

text \<open>A machine without software, whose empty report was already accepted, with a clock that stands still.\<close>

definition empty_report :: sw_Payload where
  "empty_report = \<lparr>sp_AgentUUID = ''u'', sp_CollectedAt = 0, sp_Items = []\<rparr>"

definition world2 :: world where
  "world2 = world0\<lparr>ev := env0\<lparr>o_time := \<lambda>_. 0\<rparr>, config_tab :=
    [''agent_uuid'' \<mapsto> \<lparr>c_value = ''u'', c_updated_at = []\<rparr>,
     ''software_last_fingerprint'' \<mapsto> \<lparr>c_value = payloadFingerprint empty_report, c_updated_at = []\<rparr>]\<rparr>"

lemma world2_marshal: "\<exists>enc. sw_marshal empty_report = Inr enc"
  by (simp add: sw_marshal_def empty_report_def time_text_epoch)

lemma world2_collects:
  assumes "ev w = ev world2"
  shows "fst (run_state (deduplicate []) w) = []" and "fst (run_state sw_Collect w) = Inr []"
proof -
  have E: "ev w = env0\<lparr>o_time := \<lambda>_. 0\<rparr>" using assms by (simp add: world2_def)
  have none: "fst (run_state (collect_sources ss []) v) = Inr []" if "ev v = ev w" for ss v
    using that E by (induction ss arbitrary: v) (simp_all add: ctx_Err_def readRegistrySource_def reg_names_def env0_def)
  have dd: "fst (run_state (deduplicate []) v) = []" if "ev v = ev w" for v
    using that E by (simp add: deduplicate_def map_order_def NormalizeAndDeduplicate_def sort_Slice_def env0_def)
  show "fst (run_state (deduplicate []) w) = []" "fst (run_state sw_Collect w) = Inr []"
    by (simp_all add: sw_Collect_def collectWindows_def none dd)
qed

lemma world2_skips:
  assumes "ev w = ev world2" and "config_tab w = config_tab world2"
  shows "sr_Result (fst (fst (run_state (sw_RunOnce e) w))) = ''SKIPPED''"
    and "sr_Fingerprint (fst (fst (run_state (sw_RunOnce e) w))) = payloadFingerprint empty_report"
    and "config_tab (snd (run_state (sw_RunOnce e) w)) = config_tab world2"
proof -
  have E: "ev w = env0\<lparr>o_time := \<lambda>_. 0\<rparr>" using assms(1) by (simp add: world2_def)
  then have sq: "sql_ok w" by (simp add: env_sql_ok_def env0_def)
  have ctx: "fst (run_state ctx_Err v) = None" if "ev v = ev w" for v
    using that E by (simp add: ctx_Err_def env0_def)
  have now: "fst (run_state Time_Now v) = 0" if "ev v = ev w" for v
    using that E by (simp add: Time_Now_def)
  have col: "fst (run_state (deduplicate []) v) = []" "fst (run_state sw_Collect v) = Inr []" if "ev v = ev w" for v
    using world2_collects [of v] that assms(1) by simp_all
  have kv: "kv v ''agent_uuid'' = Some ''u''" "kv v ''software_last_fingerprint'' = Some (payloadFingerprint empty_report)"
    if "config_tab v = config_tab w" for v
    using that assms(2) by (simp_all add: world2_def tab_value_def)
  obtain enc where enc: "sw_marshal \<lparr>sp_AgentUUID = ''u'', sp_CollectedAt = 0, sp_Items = []\<rparr> = Inr enc"
    using world2_marshal by (auto simp: empty_report_def)
  note run = sw_RunOnce_def ctx now col kv enc sq run_simps sw_upload_def Let_def sw_failed_def empty_report_def
  show "sr_Result (fst (fst (run_state (sw_RunOnce e) w))) = ''SKIPPED''"
    "sr_Fingerprint (fst (fst (run_state (sw_RunOnce e) w))) = payloadFingerprint empty_report"
    "config_tab (snd (run_state (sw_RunOnce e) w)) = config_tab world2"
    by (simp_all add: run assms(2))
qed

section \<open>Properties\<close>

text \<open>
  The loop never spins: whatever the Portal configured, valid or not, the interval is positive and a
  64-bit duration, also where the multiplication of seconds wraps around.
\<close>

theorem sw_interval_positive:
  "0 < fst (run_state sw_interval w) \<and> fst (run_state sw_interval w) < 2 ^ 63"
  using first_interval_range
  by (auto simp: sw_interval_def sw_DefaultInterval_def split: sum.split option.split)

text \<open>
  C30. The outcome of a pass and what it leaves in the database agree: a payload the Portal acknowledged or
  the queue accepted is remembered by its fingerprint, one equal to the remembered one is skipped, and a
  pass that failed stores nothing, so that the next one tries again. The error is nil exactly for a
  pass that sent or skipped, and says queued exactly for one that queued.
\<close>

theorem sw_RunOnce_outcome:
  assumes "sql_ok w" and "run_state (sw_RunOnce e) w = ((rep, err), w')"
  shows "(if sr_Result rep = ''SENT'' then err = None \<and> kv w' ''software_last_fingerprint'' = Some (sr_Fingerprint rep)
      else if sr_Result rep = ''QUEUED'' then is_queued err \<and> kv w' ''software_last_fingerprint'' = Some (sr_Fingerprint rep)
      else if sr_Result rep = ''SKIPPED'' then err = None \<and> kv w' = kv w
        \<and> kv w ''software_last_fingerprint'' = Some (sr_Fingerprint rep)
      else sr_Result rep = ''FAILED'' \<and> err \<noteq> None \<and> \<not> is_queued err \<and> kv w' = kv w)"
  using sw_RunOnce_cases [OF assms(1), of e] assms(2)
  by (auto simp: sw_outcome_def sw_early_def Let_def is_queued_def split: if_splits)

theorem sw_RunOnce_outcome_witness:
  "\<exists>rep err w'. run_state (sw_RunOnce engine1) world1 = ((rep, err), w') \<and> sr_Result rep = ''FAILED'' \<and> kv w' = kv world1"
proof -
  obtain rep err w' where run: "run_state (sw_RunOnce engine1) world1 = ((rep, err), w')" by (metis surj_pair)
  have w: "sql_ok world1" "never_cancelled world1" using world1_ready world1_facts by (simp_all add: ready_def)
  have "kv world1 ''agent_uuid'' = None" by (simp add: world1_def tab_value_def)
  then have "sr_Result rep = ''FAILED''"
    using run w by (auto simp: sw_RunOnce_def run_simps sw_failed_def)
  then show ?thesis using sw_RunOnce_outcome [OF w(1) run] run by simp
qed

text \<open>
  C18. No software report goes out twice: after a pass that sent, queued or skipped, a later pass that computes
  the same fingerprint skips, makes no request but those of the queue flush and stores nothing, whatever ran
  in between, as long as the remembered fingerprint stayed.
\<close>

theorem sw_unchanged_is_skipped:
  assumes "sql_ok w" and "run_state (sw_RunOnce e) w = ((rep, err), w')"
    and "sr_Result rep \<in> {''SENT'', ''QUEUED'', ''SKIPPED''}"
    and "sql_ok v" and "kv v ''software_last_fingerprint'' = kv w' ''software_last_fingerprint''"
    and "run_state (sw_RunOnce e) v = ((rep2, err2), v')" and "sr_Fingerprint rep2 = sr_Fingerprint rep"
  shows "sr_Result rep2 = ''SKIPPED'' \<and> err2 = None \<and> kv v' = kv v
    \<and> wire v' = wire (snd (run_state (Flush e) (snd (run_state ctx_Err v))))"
proof -
  let ?last = "''software_last_fingerprint''"
  obtain fp x where fp: "fp \<noteq> []" "kv x = kv w" "sw_outcome fp x ((rep, err), w')"
    using sw_RunOnce_cases [OF assms(1), of e] assms(2,3) fingerprint_nonempty by (auto simp: sw_early_def)
  then have rep: "sr_Fingerprint rep = fp" and stored: "kv w' ?last = Some fp"
    using assms(3) by (auto simp: sw_outcome_def Let_def split: if_splits)
  then obtain fp2 y where y: "fp2 \<noteq> []" "kv y = kv v"
    "wire y = wire (snd (run_state (Flush e) (snd (run_state ctx_Err v))))" "sw_outcome fp2 y ((rep2, err2), v')"
    using sw_RunOnce_cases [OF assms(4), of e] assms(6,7) fp(1) fingerprint_nonempty by (auto simp: sw_early_def)
  then have "kv y ?last = Some fp2" using stored rep assms(5,7) by (simp add: sw_outcome_def Let_def)
  with y show ?thesis by (simp add: sw_outcome_def Let_def)
qed

theorem sw_unchanged_is_skipped_witness:
  "\<exists>rep2 err2 v'. run_state (sw_RunOnce engine1) (snd (run_state (sw_RunOnce engine1) world2)) = ((rep2, err2), v')
    \<and> sr_Result rep2 = ''SKIPPED'' \<and> err2 = None"
proof -
  obtain rep err w' where run: "run_state (sw_RunOnce engine1) world2 = ((rep, err), w')" by (metis surj_pair)
  obtain rep2 err2 v' where run2: "run_state (sw_RunOnce engine1) w' = ((rep2, err2), v')" by (metis surj_pair)
  have first: "sr_Result rep = ''SKIPPED''" "sr_Fingerprint rep = payloadFingerprint empty_report"
    "config_tab w' = config_tab world2" "ev w' = ev world2"
    using world2_skips [of world2 engine1] sw_RunOnce_frame [of engine1 world2] run by simp_all
  have "sr_Fingerprint rep2 = sr_Fingerprint rep"
    using world2_skips(2) [of w' engine1] run2 first by simp
  moreover have "sql_ok world2" "sql_ok w'" using first(4) by (simp_all add: world2_def env_sql_ok_def env0_def)
  ultimately show ?thesis
    using sw_unchanged_is_skipped [OF _ run _ _ _ run2] run2 run first by simp
qed

end
