(* ===== verification/InvTypes.thy ===== *)
theory InvTypes
  imports GoUnmarshal World
begin

text \<open>
  Package \<open>internal/inventory\<close>, \<open>types.go\<close>: the hardware snapshot and what is reported about it. A slice that
  the agent only ever appends to is a list, whose empty value is the nil slice; the three string slices of an
  adapter may be nil or empty, which JSON tells apart, so they are options.
\<close>

section \<open>Hardware\<close>

record General =
  gn_ComputerName :: string
  gn_MachineUUID :: string
  gn_SerialNumber :: string
  gn_AssetTag :: string
  gn_Manufacturer :: string
  gn_Model :: string
  gn_ProductName :: string

record OperatingSystem =
  os_Edition :: string
  os_Version :: string
  os_BuildNumber :: string
  os_Architecture :: string
  os_InstallDate :: string
  os_LastBootTime :: string
  os_Domain :: string
  os_Workgroup :: string
  os_Timezone :: string

record CPU =
  cp_Model :: string
  cp_Manufacturer :: string
  cp_Socket :: string
  cp_LogicalCores :: u32
  cp_PhysicalCores :: u32
  cp_Threads :: u32
  cp_ClockMHz :: u32

record MemoryModule =
  mm_Locator :: string
  mm_Manufacturer :: string
  mm_PartNumber :: string
  mm_Capacity :: u64
  mm_SpeedMHz :: u32

record Memory =
  rm_TotalBytes :: u64
  rm_UsedBytes :: u64
  rm_AvailableBytes :: u64
  rm_TotalGB :: f64
  rm_UsedGB :: f64
  rm_AvailableGB :: f64
  rm_UsagePercent :: f64
  rm_Slots :: u32
  rm_Modules :: "MemoryModule list"

record StorageDevice =
  sd_DeviceID :: string
  sd_Type :: string
  sd_Model :: string
  sd_SerialNumber :: string
  sd_Health :: string
  sd_SMARTStatus :: string
  sd_TotalBytes :: u64
  sd_FreeBytes :: u64
  sd_UsedBytes :: u64
  sd_CapacityGB :: f64
  sd_UsedGB :: f64
  sd_FreeGB :: f64
  sd_Filesystem :: string
  sd_DriveType :: string

record DiskInventory =
  di_TotalBytes :: u64
  di_UsedBytes :: u64
  di_FreeBytes :: u64
  di_TotalGB :: f64
  di_UsedGB :: f64
  di_FreeGB :: f64
  di_Model :: string
  di_Type :: string
  di_SerialNumber :: string
  di_Health :: string
  di_SMARTStatus :: string
  di_Devices :: "StorageDevice list"

record NetworkAdapter =
  na_Name :: string
  na_Description :: string
  na_IPAddress :: "string list option"
  na_MACAddress :: string
  na_Gateway :: "string list option"
  na_DNS :: "string list option"
  na_DHCP :: bool
  na_DHCPServer :: string
  na_LinkSpeed :: u64
  na_Status :: string

record Motherboard =
  mb_Manufacturer :: string
  mb_Product :: string
  mb_SerialNumber :: string

record BIOS =
  bi_Manufacturer :: string
  bi_Version :: string
  bi_SerialNumber :: string
  bi_ReleaseDate :: string

record SecurityState =
  ss_Available :: bool
  ss_Enabled :: bool
  ss_Status :: string

record Security =
  sc_TPM :: SecurityState
  sc_SecureBoot :: SecurityState
  sc_BitLocker :: SecurityState
  sc_Defender :: SecurityState
  sc_Firewall :: SecurityState

record Monitor =
  mo_Name :: string
  mo_Manufacturer :: string
  mo_SerialNumber :: string
  mo_Width :: u32
  mo_Height :: u32

record GPU =
  gp_Name :: string
  gp_DriverVersion :: string
  gp_Width :: u32
  gp_Height :: u32

record Users =
  us_Current :: string
  us_Last :: string

record Hardware =
  hw_General :: General
  hw_OperatingSystem :: OperatingSystem
  hw_CPU :: CPU
  hw_RAM :: Memory
  hw_Disk :: DiskInventory
  hw_Storage :: "StorageDevice list"
  hw_NIC :: "NetworkAdapter list"
  hw_Network :: "NetworkAdapter list"
  hw_Motherboard :: Motherboard
  hw_BIOS :: BIOS
  hw_Security :: Security
  hw_Monitor :: "Monitor list"
  hw_GPU :: "GPU list"
  hw_Users :: Users
  hw_SerialNumber :: string

section \<open>Reports\<close>

record AssetLinkHints =
  al_SerialNumber :: string
  al_MachineUUID :: string
  al_Hostname :: string
  al_ExistingAgentUUID :: string
  al_Priority :: "string list"
  al_Action :: string

record HardwareChange =
  hc_Section :: string
  hc_Type :: string
  hc_Detail :: string

text \<open>A timestamp is its instant with its zone offset.\<close>

record InventoryHistoryEvent =
  ie_Timestamp :: "int \<times> int"
  ie_Fingerprint :: string
  ie_Changes :: "HardwareChange list option"

record HealthAssessment =
  ha_CPU :: f64
  ha_Memory :: f64
  ha_Disk :: f64
  ha_Heartbeat :: f64
  ha_PortalLatency :: f64
  ha_Security :: f64
  ha_TPM :: f64
  ha_BitLocker :: f64
  ha_Defender :: f64
  ha_Firewall :: f64
  ha_Overall :: f64
  ha_Status :: string
  ha_Explanations :: "string list"

record inv_Payload =
  ip_Timestamp :: int
  ip_AgentUUID :: string
  ip_AgentVersion :: string
  ip_Hostname :: string
  ip_Fingerprint :: string
  ip_ChangedItems :: int
  ip_Changes :: "HardwareChange list"
  ip_AssetLink :: AssetLinkHints
  ip_Health :: HealthAssessment
  ip_Hardware :: Hardware

record inv_Report =
  ir_CollectDuration :: int
  ir_UploadDuration :: int
  ir_Duration :: int
  ir_PayloadSize :: int
  ir_HardwareCount :: int
  ir_ChangedItems :: int
  ir_SkippedItems :: int
  ir_Fingerprint :: string
  ir_Queued :: bool
  ir_Result :: string

section \<open>Zero values\<close>

definition zero_f :: f64 where "zero_f = Fin False 0"

definition zero_General :: General where
  "zero_General = \<lparr>gn_ComputerName = [], gn_MachineUUID = [], gn_SerialNumber = [], gn_AssetTag = [],
    gn_Manufacturer = [], gn_Model = [], gn_ProductName = []\<rparr>"

definition zero_OperatingSystem :: OperatingSystem where
  "zero_OperatingSystem = \<lparr>os_Edition = [], os_Version = [], os_BuildNumber = [], os_Architecture = [],
    os_InstallDate = [], os_LastBootTime = [], os_Domain = [], os_Workgroup = [], os_Timezone = []\<rparr>"

definition zero_CPU :: CPU where
  "zero_CPU = \<lparr>cp_Model = [], cp_Manufacturer = [], cp_Socket = [], cp_LogicalCores = 0, cp_PhysicalCores = 0,
    cp_Threads = 0, cp_ClockMHz = 0\<rparr>"

definition zero_MemoryModule :: MemoryModule where
  "zero_MemoryModule = \<lparr>mm_Locator = [], mm_Manufacturer = [], mm_PartNumber = [], mm_Capacity = 0, mm_SpeedMHz = 0\<rparr>"

definition zero_Memory :: Memory where
  "zero_Memory = \<lparr>rm_TotalBytes = 0, rm_UsedBytes = 0, rm_AvailableBytes = 0, rm_TotalGB = zero_f, rm_UsedGB = zero_f,
    rm_AvailableGB = zero_f, rm_UsagePercent = zero_f, rm_Slots = 0, rm_Modules = []\<rparr>"

definition zero_StorageDevice :: StorageDevice where
  "zero_StorageDevice = \<lparr>sd_DeviceID = [], sd_Type = [], sd_Model = [], sd_SerialNumber = [], sd_Health = [],
    sd_SMARTStatus = [], sd_TotalBytes = 0, sd_FreeBytes = 0, sd_UsedBytes = 0, sd_CapacityGB = zero_f,
    sd_UsedGB = zero_f, sd_FreeGB = zero_f, sd_Filesystem = [], sd_DriveType = []\<rparr>"

definition zero_DiskInventory :: DiskInventory where
  "zero_DiskInventory = \<lparr>di_TotalBytes = 0, di_UsedBytes = 0, di_FreeBytes = 0, di_TotalGB = zero_f, di_UsedGB = zero_f,
    di_FreeGB = zero_f, di_Model = [], di_Type = [], di_SerialNumber = [], di_Health = [], di_SMARTStatus = [],
    di_Devices = []\<rparr>"

definition zero_NetworkAdapter :: NetworkAdapter where
  "zero_NetworkAdapter = \<lparr>na_Name = [], na_Description = [], na_IPAddress = None, na_MACAddress = [], na_Gateway = None,
    na_DNS = None, na_DHCP = False, na_DHCPServer = [], na_LinkSpeed = 0, na_Status = []\<rparr>"

definition zero_Motherboard :: Motherboard where
  "zero_Motherboard = \<lparr>mb_Manufacturer = [], mb_Product = [], mb_SerialNumber = []\<rparr>"

definition zero_BIOS :: BIOS where
  "zero_BIOS = \<lparr>bi_Manufacturer = [], bi_Version = [], bi_SerialNumber = [], bi_ReleaseDate = []\<rparr>"

definition zero_SecurityState :: SecurityState where
  "zero_SecurityState = \<lparr>ss_Available = False, ss_Enabled = False, ss_Status = []\<rparr>"

definition zero_Security :: Security where
  "zero_Security = \<lparr>sc_TPM = zero_SecurityState, sc_SecureBoot = zero_SecurityState, sc_BitLocker = zero_SecurityState,
    sc_Defender = zero_SecurityState, sc_Firewall = zero_SecurityState\<rparr>"

definition zero_Monitor :: Monitor where
  "zero_Monitor = \<lparr>mo_Name = [], mo_Manufacturer = [], mo_SerialNumber = [], mo_Width = 0, mo_Height = 0\<rparr>"

definition zero_GPU :: GPU where
  "zero_GPU = \<lparr>gp_Name = [], gp_DriverVersion = [], gp_Width = 0, gp_Height = 0\<rparr>"

definition zero_Users :: Users where
  "zero_Users = \<lparr>us_Current = [], us_Last = []\<rparr>"

definition zero_Hardware :: Hardware where
  "zero_Hardware = \<lparr>hw_General = zero_General, hw_OperatingSystem = zero_OperatingSystem, hw_CPU = zero_CPU,
    hw_RAM = zero_Memory, hw_Disk = zero_DiskInventory, hw_Storage = [], hw_NIC = [], hw_Network = [],
    hw_Motherboard = zero_Motherboard, hw_BIOS = zero_BIOS, hw_Security = zero_Security, hw_Monitor = [], hw_GPU = [],
    hw_Users = zero_Users, hw_SerialNumber = []\<rparr>"

definition zero_inv_Report :: inv_Report where
  "zero_inv_Report = \<lparr>ir_CollectDuration = 0, ir_UploadDuration = 0, ir_Duration = 0, ir_PayloadSize = 0,
    ir_HardwareCount = 0, ir_ChangedItems = 0, ir_SkippedItems = 0, ir_Fingerprint = [], ir_Queued = False, ir_Result = []\<rparr>"

definition zero_HardwareChange :: HardwareChange where
  "zero_HardwareChange = \<lparr>hc_Section = [], hc_Type = [], hc_Detail = []\<rparr>"

definition zero_InventoryHistoryEvent :: InventoryHistoryEvent where
  "zero_InventoryHistoryEvent = \<lparr>ie_Timestamp = (zero_time, 0), ie_Fingerprint = [], ie_Changes = None\<rparr>"

end
