(* ===== verification/InvJson.thy ===== *)
theory InvJson
  imports InvTypes
begin

text \<open>
  The JSON form of the types of \<open>inventory/types.go\<close>, written by \<open>json.Marshal\<close> and read back by \<open>json.Unmarshal\<close>.
  Marshalling fails on a float that is infinite or not a number, so a value is marshalled from its tree and the list
  of its floats.
\<close>

section \<open>Writing\<close>

definition jS :: "string \<Rightarrow> string \<Rightarrow> string \<times> json" where "jS name v = (name, JStr v)"

definition jB :: "string \<Rightarrow> bool \<Rightarrow> string \<times> json" where "jB name v = (name, JBool v)"

definition jW :: "string \<Rightarrow> 'w::len word \<Rightarrow> string \<times> json" where "jW name v = (name, JNum (FormatInt (uint v)))"

definition jF :: "string \<Rightarrow> f64 \<Rightarrow> string \<times> json" where
  "jF name v = (name, JNum (case json_float v of Some t \<Rightarrow> t | None \<Rightarrow> []))"

definition jList :: "('a \<Rightarrow> json) \<Rightarrow> 'a list \<Rightarrow> json" where
  "jList f xs = (if xs = [] then JNull else JArr (map f xs))"

definition jSlice :: "('a \<Rightarrow> json) \<Rightarrow> 'a list option \<Rightarrow> json" where
  "jSlice f xs = (case xs of None \<Rightarrow> JNull | Some ys \<Rightarrow> JArr (map f ys))"

definition jOmit :: "string \<Rightarrow> string \<Rightarrow> (string \<times> json) list" where
  "jOmit name v = (if v = [] then [] else [jS name v])"

definition General_json :: "General \<Rightarrow> json" where
  "General_json g = JObj
    [jS ''computerName'' (gn_ComputerName g), jS ''machineUuid'' (gn_MachineUUID g),
     jS ''serialNumber'' (gn_SerialNumber g), jS ''assetTag'' (gn_AssetTag g),
     jS ''manufacturer'' (gn_Manufacturer g), jS ''model'' (gn_Model g), jS ''productName'' (gn_ProductName g)]"

definition OperatingSystem_json :: "OperatingSystem \<Rightarrow> json" where
  "OperatingSystem_json v = JObj
    [jS ''edition'' (os_Edition v), jS ''version'' (os_Version v), jS ''buildNumber'' (os_BuildNumber v),
     jS ''architecture'' (os_Architecture v), jS ''installDate'' (os_InstallDate v),
     jS ''lastBootTime'' (os_LastBootTime v), jS ''domain'' (os_Domain v), jS ''workgroup'' (os_Workgroup v),
     jS ''timezone'' (os_Timezone v)]"

definition CPU_json :: "CPU \<Rightarrow> json" where
  "CPU_json v = JObj
    [jS ''model'' (cp_Model v), jS ''manufacturer'' (cp_Manufacturer v), jS ''socket'' (cp_Socket v),
     jW ''logicalCores'' (cp_LogicalCores v), jW ''physicalCores'' (cp_PhysicalCores v),
     jW ''threads'' (cp_Threads v), jW ''clockMHz'' (cp_ClockMHz v)]"

definition MemoryModule_json :: "MemoryModule \<Rightarrow> json" where
  "MemoryModule_json v = JObj
    [jS ''locator'' (mm_Locator v), jS ''manufacturer'' (mm_Manufacturer v), jS ''partNumber'' (mm_PartNumber v),
     jW ''capacityBytes'' (mm_Capacity v), jW ''speedMHz'' (mm_SpeedMHz v)]"

definition Memory_json :: "Memory \<Rightarrow> json" where
  "Memory_json v = JObj
    [jW ''totalBytes'' (rm_TotalBytes v), jW ''usedBytes'' (rm_UsedBytes v),
     jW ''availableBytes'' (rm_AvailableBytes v), jF ''totalGb'' (rm_TotalGB v), jF ''usedGb'' (rm_UsedGB v),
     jF ''availableGb'' (rm_AvailableGB v), jF ''usagePercent'' (rm_UsagePercent v), jW ''slots'' (rm_Slots v),
     (''modules'', jList MemoryModule_json (rm_Modules v))]"

definition StorageDevice_json :: "StorageDevice \<Rightarrow> json" where
  "StorageDevice_json v = JObj
    [jS ''deviceId'' (sd_DeviceID v), jS ''type'' (sd_Type v), jS ''model'' (sd_Model v),
     jS ''serialNumber'' (sd_SerialNumber v), jS ''health'' (sd_Health v), jS ''smartStatus'' (sd_SMARTStatus v),
     jW ''totalBytes'' (sd_TotalBytes v), jW ''freeBytes'' (sd_FreeBytes v), jW ''usedBytes'' (sd_UsedBytes v),
     jF ''capacityGb'' (sd_CapacityGB v), jF ''usedGb'' (sd_UsedGB v), jF ''freeGb'' (sd_FreeGB v),
     jS ''filesystem'' (sd_Filesystem v), jS ''driveType'' (sd_DriveType v)]"

definition DiskInventory_json :: "DiskInventory \<Rightarrow> json" where
  "DiskInventory_json v = JObj
    [jW ''totalBytes'' (di_TotalBytes v), jW ''usedBytes'' (di_UsedBytes v), jW ''freeBytes'' (di_FreeBytes v),
     jF ''totalGb'' (di_TotalGB v), jF ''usedGb'' (di_UsedGB v), jF ''freeGb'' (di_FreeGB v),
     jS ''model'' (di_Model v), jS ''type'' (di_Type v), jS ''serialNumber'' (di_SerialNumber v),
     jS ''health'' (di_Health v), jS ''smartStatus'' (di_SMARTStatus v),
     (''devices'', jList StorageDevice_json (di_Devices v))]"

definition NetworkAdapter_json :: "NetworkAdapter \<Rightarrow> json" where
  "NetworkAdapter_json v = JObj
    [jS ''name'' (na_Name v), jS ''description'' (na_Description v), (''ipAddress'', jSlice JStr (na_IPAddress v)),
     jS ''macAddress'' (na_MACAddress v), (''gateway'', jSlice JStr (na_Gateway v)), (''dns'', jSlice JStr (na_DNS v)),
     jB ''dhcp'' (na_DHCP v), jS ''dhcpServer'' (na_DHCPServer v), jW ''linkSpeed'' (na_LinkSpeed v),
     jS ''status'' (na_Status v)]"

definition Motherboard_json :: "Motherboard \<Rightarrow> json" where
  "Motherboard_json v = JObj
    [jS ''manufacturer'' (mb_Manufacturer v), jS ''product'' (mb_Product v), jS ''serialNumber'' (mb_SerialNumber v)]"

definition BIOS_json :: "BIOS \<Rightarrow> json" where
  "BIOS_json v = JObj
    [jS ''manufacturer'' (bi_Manufacturer v), jS ''version'' (bi_Version v), jS ''serialNumber'' (bi_SerialNumber v),
     jS ''releaseDate'' (bi_ReleaseDate v)]"

definition SecurityState_json :: "SecurityState \<Rightarrow> json" where
  "SecurityState_json v = JObj
    [jB ''available'' (ss_Available v), jB ''enabled'' (ss_Enabled v), jS ''status'' (ss_Status v)]"

definition Security_json :: "Security \<Rightarrow> json" where
  "Security_json v = JObj
    [(''tpm'', SecurityState_json (sc_TPM v)), (''secureBoot'', SecurityState_json (sc_SecureBoot v)),
     (''bitLocker'', SecurityState_json (sc_BitLocker v)), (''windowsDefender'', SecurityState_json (sc_Defender v)),
     (''firewall'', SecurityState_json (sc_Firewall v))]"

definition Monitor_json :: "Monitor \<Rightarrow> json" where
  "Monitor_json v = JObj
    [jS ''name'' (mo_Name v), jS ''manufacturer'' (mo_Manufacturer v), jS ''serialNumber'' (mo_SerialNumber v),
     jW ''width'' (mo_Width v), jW ''height'' (mo_Height v)]"

definition GPU_json :: "GPU \<Rightarrow> json" where
  "GPU_json v = JObj
    [jS ''name'' (gp_Name v), jS ''driverVersion'' (gp_DriverVersion v), jW ''width'' (gp_Width v),
     jW ''height'' (gp_Height v)]"

definition Users_json :: "Users \<Rightarrow> json" where
  "Users_json v = JObj [jS ''current'' (us_Current v), jS ''last'' (us_Last v)]"

definition Hardware_json :: "Hardware \<Rightarrow> json" where
  "Hardware_json h = JObj
    [(''general'', General_json (hw_General h)), (''operatingSystem'', OperatingSystem_json (hw_OperatingSystem h)),
     (''cpu'', CPU_json (hw_CPU h)), (''ram'', Memory_json (hw_RAM h)), (''disk'', DiskInventory_json (hw_Disk h)),
     (''storage'', jList StorageDevice_json (hw_Storage h)), (''nic'', jList NetworkAdapter_json (hw_NIC h)),
     (''network'', jList NetworkAdapter_json (hw_Network h)), (''motherboard'', Motherboard_json (hw_Motherboard h)),
     (''bios'', BIOS_json (hw_BIOS h)), (''security'', Security_json (hw_Security h)),
     (''monitor'', jList Monitor_json (hw_Monitor h)), (''gpu'', jList GPU_json (hw_GPU h)),
     (''users'', Users_json (hw_Users h)), jS ''serialNumber'' (hw_SerialNumber h)]"

text \<open>The floats of a snapshot, and marshalling from a tree and its floats.\<close>

definition device_floats :: "StorageDevice \<Rightarrow> f64 list" where
  "device_floats d = [sd_CapacityGB d, sd_UsedGB d, sd_FreeGB d]"

definition hardware_floats :: "Hardware \<Rightarrow> f64 list" where
  "hardware_floats h =
    [rm_TotalGB (hw_RAM h), rm_UsedGB (hw_RAM h), rm_AvailableGB (hw_RAM h), rm_UsagePercent (hw_RAM h),
     di_TotalGB (hw_Disk h), di_UsedGB (hw_Disk h), di_FreeGB (hw_Disk h)]
    @ concat (map device_floats (di_Devices (hw_Disk h))) @ concat (map device_floats (hw_Storage h))"

definition finite_float :: "f64 \<Rightarrow> bool" where
  "finite_float v = (case v of Fin _ _ \<Rightarrow> True | _ \<Rightarrow> False)"

definition Marshal :: "f64 list \<Rightarrow> json \<Rightarrow> string result" where
  "Marshal floats j = (if list_all finite_float floats then Inr (json_print j) else Inl (Errorf ''json''))"

definition HardwareChange_json :: "HardwareChange \<Rightarrow> json" where
  "HardwareChange_json c = JObj [jS ''section'' (hc_Section c), jS ''type'' (hc_Type c), jS ''detail'' (hc_Detail c)]"

definition AssetLinkHints_json :: "AssetLinkHints \<Rightarrow> json" where
  "AssetLinkHints_json a = JObj
    (jOmit ''serialNumber'' (al_SerialNumber a) @ jOmit ''machineUuid'' (al_MachineUUID a)
     @ jOmit ''hostname'' (al_Hostname a) @ jOmit ''existingAgentUuid'' (al_ExistingAgentUUID a)
     @ [(''priority'', JArr (map JStr (al_Priority a))), jS ''action'' (al_Action a)])"

definition HealthAssessment_json :: "HealthAssessment \<Rightarrow> json" where
  "HealthAssessment_json a = JObj
    [jF ''cpu'' (ha_CPU a), jF ''memory'' (ha_Memory a), jF ''disk'' (ha_Disk a), jF ''heartbeat'' (ha_Heartbeat a),
     jF ''portalLatency'' (ha_PortalLatency a), jF ''security'' (ha_Security a), jF ''tpm'' (ha_TPM a),
     jF ''bitLocker'' (ha_BitLocker a), jF ''defender'' (ha_Defender a), jF ''firewall'' (ha_Firewall a),
     jF ''overall'' (ha_Overall a), jS ''status'' (ha_Status a),
     (''explanations'', jList JStr (ha_Explanations a))]"

definition health_floats :: "HealthAssessment \<Rightarrow> f64 list" where
  "health_floats a =
    [ha_CPU a, ha_Memory a, ha_Disk a, ha_Heartbeat a, ha_PortalLatency a, ha_Security a, ha_TPM a, ha_BitLocker a,
     ha_Defender a, ha_Firewall a, ha_Overall a]"

text \<open>The payload of the Portal, and one event of the local timeline; a time that cannot be written is an error.\<close>

definition inv_marshal :: "inv_Payload \<Rightarrow> string result" where
  "inv_marshal p =
    (case time_text (ip_Timestamp p, 0) of
       None \<Rightarrow> Inl (Errorf ''json'')
     | Some t \<Rightarrow>
       Marshal (health_floats (ip_Health p) @ hardware_floats (ip_Hardware p)) (JObj
         ([jS ''timestamp'' t, jS ''agentUuid'' (ip_AgentUUID p), jS ''agentVersion'' (ip_AgentVersion p),
           jS ''hostname'' (ip_Hostname p), jS ''fingerprint'' (ip_Fingerprint p),
           (''changedItems'', JNum (FormatInt (ip_ChangedItems p)))]
          @ (if ip_Changes p = [] then [] else [(''changes'', JArr (map HardwareChange_json (ip_Changes p)))])
          @ [(''assetLink'', AssetLinkHints_json (ip_AssetLink p)), (''health'', HealthAssessment_json (ip_Health p)),
             (''hardware'', Hardware_json (ip_Hardware p))])))"

definition InventoryHistoryEvent_json :: "InventoryHistoryEvent \<Rightarrow> json option" where
  "InventoryHistoryEvent_json e =
    (case time_text (ie_Timestamp e) of
       None \<Rightarrow> None
     | Some t \<Rightarrow> Some (JObj
         [jS ''timestamp'' t, jS ''fingerprint'' (ie_Fingerprint e),
          (''changes'', jSlice HardwareChange_json (ie_Changes e))]))"

section \<open>Reading\<close>

definition General_dec :: "General dec" where
  "General_dec = dec_struct
    [(''computerName'', dec_at gn_ComputerName gn_ComputerName_update dec_string),
     (''machineUuid'', dec_at gn_MachineUUID gn_MachineUUID_update dec_string),
     (''serialNumber'', dec_at gn_SerialNumber gn_SerialNumber_update dec_string),
     (''assetTag'', dec_at gn_AssetTag gn_AssetTag_update dec_string),
     (''manufacturer'', dec_at gn_Manufacturer gn_Manufacturer_update dec_string),
     (''model'', dec_at gn_Model gn_Model_update dec_string),
     (''productName'', dec_at gn_ProductName gn_ProductName_update dec_string)]"

definition OperatingSystem_dec :: "OperatingSystem dec" where
  "OperatingSystem_dec = dec_struct
    [(''edition'', dec_at os_Edition os_Edition_update dec_string),
     (''version'', dec_at os_Version os_Version_update dec_string),
     (''buildNumber'', dec_at os_BuildNumber os_BuildNumber_update dec_string),
     (''architecture'', dec_at os_Architecture os_Architecture_update dec_string),
     (''installDate'', dec_at os_InstallDate os_InstallDate_update dec_string),
     (''lastBootTime'', dec_at os_LastBootTime os_LastBootTime_update dec_string),
     (''domain'', dec_at os_Domain os_Domain_update dec_string),
     (''workgroup'', dec_at os_Workgroup os_Workgroup_update dec_string),
     (''timezone'', dec_at os_Timezone os_Timezone_update dec_string)]"

definition CPU_dec :: "CPU dec" where
  "CPU_dec = dec_struct
    [(''model'', dec_at cp_Model cp_Model_update dec_string),
     (''manufacturer'', dec_at cp_Manufacturer cp_Manufacturer_update dec_string),
     (''socket'', dec_at cp_Socket cp_Socket_update dec_string),
     (''logicalCores'', dec_at cp_LogicalCores cp_LogicalCores_update dec_word),
     (''physicalCores'', dec_at cp_PhysicalCores cp_PhysicalCores_update dec_word),
     (''threads'', dec_at cp_Threads cp_Threads_update dec_word),
     (''clockMHz'', dec_at cp_ClockMHz cp_ClockMHz_update dec_word)]"

definition MemoryModule_dec :: "MemoryModule dec" where
  "MemoryModule_dec = dec_struct
    [(''locator'', dec_at mm_Locator mm_Locator_update dec_string),
     (''manufacturer'', dec_at mm_Manufacturer mm_Manufacturer_update dec_string),
     (''partNumber'', dec_at mm_PartNumber mm_PartNumber_update dec_string),
     (''capacityBytes'', dec_at mm_Capacity mm_Capacity_update dec_word),
     (''speedMHz'', dec_at mm_SpeedMHz mm_SpeedMHz_update dec_word)]"

definition Memory_dec :: "Memory dec" where
  "Memory_dec = dec_struct
    [(''totalBytes'', dec_at rm_TotalBytes rm_TotalBytes_update dec_word),
     (''usedBytes'', dec_at rm_UsedBytes rm_UsedBytes_update dec_word),
     (''availableBytes'', dec_at rm_AvailableBytes rm_AvailableBytes_update dec_word),
     (''totalGb'', dec_at rm_TotalGB rm_TotalGB_update dec_float),
     (''usedGb'', dec_at rm_UsedGB rm_UsedGB_update dec_float),
     (''availableGb'', dec_at rm_AvailableGB rm_AvailableGB_update dec_float),
     (''usagePercent'', dec_at rm_UsagePercent rm_UsagePercent_update dec_float),
     (''slots'', dec_at rm_Slots rm_Slots_update dec_word),
     (''modules'', dec_at rm_Modules rm_Modules_update (dec_list zero_MemoryModule MemoryModule_dec))]"

definition StorageDevice_dec :: "StorageDevice dec" where
  "StorageDevice_dec = dec_struct
    [(''deviceId'', dec_at sd_DeviceID sd_DeviceID_update dec_string),
     (''type'', dec_at sd_Type sd_Type_update dec_string),
     (''model'', dec_at sd_Model sd_Model_update dec_string),
     (''serialNumber'', dec_at sd_SerialNumber sd_SerialNumber_update dec_string),
     (''health'', dec_at sd_Health sd_Health_update dec_string),
     (''smartStatus'', dec_at sd_SMARTStatus sd_SMARTStatus_update dec_string),
     (''totalBytes'', dec_at sd_TotalBytes sd_TotalBytes_update dec_word),
     (''freeBytes'', dec_at sd_FreeBytes sd_FreeBytes_update dec_word),
     (''usedBytes'', dec_at sd_UsedBytes sd_UsedBytes_update dec_word),
     (''capacityGb'', dec_at sd_CapacityGB sd_CapacityGB_update dec_float),
     (''usedGb'', dec_at sd_UsedGB sd_UsedGB_update dec_float),
     (''freeGb'', dec_at sd_FreeGB sd_FreeGB_update dec_float),
     (''filesystem'', dec_at sd_Filesystem sd_Filesystem_update dec_string),
     (''driveType'', dec_at sd_DriveType sd_DriveType_update dec_string)]"

definition DiskInventory_dec :: "DiskInventory dec" where
  "DiskInventory_dec = dec_struct
    [(''totalBytes'', dec_at di_TotalBytes di_TotalBytes_update dec_word),
     (''usedBytes'', dec_at di_UsedBytes di_UsedBytes_update dec_word),
     (''freeBytes'', dec_at di_FreeBytes di_FreeBytes_update dec_word),
     (''totalGb'', dec_at di_TotalGB di_TotalGB_update dec_float),
     (''usedGb'', dec_at di_UsedGB di_UsedGB_update dec_float),
     (''freeGb'', dec_at di_FreeGB di_FreeGB_update dec_float),
     (''model'', dec_at di_Model di_Model_update dec_string),
     (''type'', dec_at di_Type di_Type_update dec_string),
     (''serialNumber'', dec_at di_SerialNumber di_SerialNumber_update dec_string),
     (''health'', dec_at di_Health di_Health_update dec_string),
     (''smartStatus'', dec_at di_SMARTStatus di_SMARTStatus_update dec_string),
     (''devices'', dec_at di_Devices di_Devices_update (dec_list zero_StorageDevice StorageDevice_dec))]"

definition NetworkAdapter_dec :: "NetworkAdapter dec" where
  "NetworkAdapter_dec = dec_struct
    [(''name'', dec_at na_Name na_Name_update dec_string),
     (''description'', dec_at na_Description na_Description_update dec_string),
     (''ipAddress'', dec_at na_IPAddress na_IPAddress_update (dec_slice [] dec_string)),
     (''macAddress'', dec_at na_MACAddress na_MACAddress_update dec_string),
     (''gateway'', dec_at na_Gateway na_Gateway_update (dec_slice [] dec_string)),
     (''dns'', dec_at na_DNS na_DNS_update (dec_slice [] dec_string)),
     (''dhcp'', dec_at na_DHCP na_DHCP_update dec_bool),
     (''dhcpServer'', dec_at na_DHCPServer na_DHCPServer_update dec_string),
     (''linkSpeed'', dec_at na_LinkSpeed na_LinkSpeed_update dec_word),
     (''status'', dec_at na_Status na_Status_update dec_string)]"

definition Motherboard_dec :: "Motherboard dec" where
  "Motherboard_dec = dec_struct
    [(''manufacturer'', dec_at mb_Manufacturer mb_Manufacturer_update dec_string),
     (''product'', dec_at mb_Product mb_Product_update dec_string),
     (''serialNumber'', dec_at mb_SerialNumber mb_SerialNumber_update dec_string)]"

definition BIOS_dec :: "BIOS dec" where
  "BIOS_dec = dec_struct
    [(''manufacturer'', dec_at bi_Manufacturer bi_Manufacturer_update dec_string),
     (''version'', dec_at bi_Version bi_Version_update dec_string),
     (''serialNumber'', dec_at bi_SerialNumber bi_SerialNumber_update dec_string),
     (''releaseDate'', dec_at bi_ReleaseDate bi_ReleaseDate_update dec_string)]"

definition SecurityState_dec :: "SecurityState dec" where
  "SecurityState_dec = dec_struct
    [(''available'', dec_at ss_Available ss_Available_update dec_bool),
     (''enabled'', dec_at ss_Enabled ss_Enabled_update dec_bool),
     (''status'', dec_at ss_Status ss_Status_update dec_string)]"

definition Security_dec :: "Security dec" where
  "Security_dec = dec_struct
    [(''tpm'', dec_at sc_TPM sc_TPM_update SecurityState_dec),
     (''secureBoot'', dec_at sc_SecureBoot sc_SecureBoot_update SecurityState_dec),
     (''bitLocker'', dec_at sc_BitLocker sc_BitLocker_update SecurityState_dec),
     (''windowsDefender'', dec_at sc_Defender sc_Defender_update SecurityState_dec),
     (''firewall'', dec_at sc_Firewall sc_Firewall_update SecurityState_dec)]"

definition Monitor_dec :: "Monitor dec" where
  "Monitor_dec = dec_struct
    [(''name'', dec_at mo_Name mo_Name_update dec_string),
     (''manufacturer'', dec_at mo_Manufacturer mo_Manufacturer_update dec_string),
     (''serialNumber'', dec_at mo_SerialNumber mo_SerialNumber_update dec_string),
     (''width'', dec_at mo_Width mo_Width_update dec_word),
     (''height'', dec_at mo_Height mo_Height_update dec_word)]"

definition GPU_dec :: "GPU dec" where
  "GPU_dec = dec_struct
    [(''name'', dec_at gp_Name gp_Name_update dec_string),
     (''driverVersion'', dec_at gp_DriverVersion gp_DriverVersion_update dec_string),
     (''width'', dec_at gp_Width gp_Width_update dec_word),
     (''height'', dec_at gp_Height gp_Height_update dec_word)]"

definition Users_dec :: "Users dec" where
  "Users_dec = dec_struct
    [(''current'', dec_at us_Current us_Current_update dec_string),
     (''last'', dec_at us_Last us_Last_update dec_string)]"

definition Hardware_dec :: "Hardware dec" where
  "Hardware_dec = dec_struct
    [(''general'', dec_at hw_General hw_General_update General_dec),
     (''operatingSystem'', dec_at hw_OperatingSystem hw_OperatingSystem_update OperatingSystem_dec),
     (''cpu'', dec_at hw_CPU hw_CPU_update CPU_dec),
     (''ram'', dec_at hw_RAM hw_RAM_update Memory_dec),
     (''disk'', dec_at hw_Disk hw_Disk_update DiskInventory_dec),
     (''storage'', dec_at hw_Storage hw_Storage_update (dec_list zero_StorageDevice StorageDevice_dec)),
     (''nic'', dec_at hw_NIC hw_NIC_update (dec_list zero_NetworkAdapter NetworkAdapter_dec)),
     (''network'', dec_at hw_Network hw_Network_update (dec_list zero_NetworkAdapter NetworkAdapter_dec)),
     (''motherboard'', dec_at hw_Motherboard hw_Motherboard_update Motherboard_dec),
     (''bios'', dec_at hw_BIOS hw_BIOS_update BIOS_dec),
     (''security'', dec_at hw_Security hw_Security_update Security_dec),
     (''monitor'', dec_at hw_Monitor hw_Monitor_update (dec_list zero_Monitor Monitor_dec)),
     (''gpu'', dec_at hw_GPU hw_GPU_update (dec_list zero_GPU GPU_dec)),
     (''users'', dec_at hw_Users hw_Users_update Users_dec),
     (''serialNumber'', dec_at hw_SerialNumber hw_SerialNumber_update dec_string)]"

definition HardwareChange_dec :: "HardwareChange dec" where
  "HardwareChange_dec = dec_struct
    [(''section'', dec_at hc_Section hc_Section_update dec_string),
     (''type'', dec_at hc_Type hc_Type_update dec_string),
     (''detail'', dec_at hc_Detail hc_Detail_update dec_string)]"

definition InventoryHistoryEvent_dec :: "InventoryHistoryEvent dec" where
  "InventoryHistoryEvent_dec = dec_struct
    [(''timestamp'', dec_at ie_Timestamp ie_Timestamp_update dec_time),
     (''fingerprint'', dec_at ie_Fingerprint ie_Fingerprint_update dec_string),
     (''changes'', dec_at ie_Changes ie_Changes_update (dec_slice zero_HardwareChange HardwareChange_dec))]"

definition timeline_dec :: "InventoryHistoryEvent list dec" where
  "timeline_dec = dec_list zero_InventoryHistoryEvent InventoryHistoryEvent_dec"

end
