(* ===== verification/InvNormal.thy ===== *)
theory InvNormal
  imports InvJson GoSort GoCodec
begin

text \<open>
  Package \<open>internal/inventory\<close>, \<open>intelligence.go\<close>: the normal form of a snapshot, its fingerprint, the differences
  between two snapshots, and Health Engine V2. \<open>sort.Slice\<close> is stable up to twelve elements, where Go sorts by
  insertion; for longer slices the order of elements with the same key is one choice.
\<close>

section \<open>Normal form\<close>

definition bytesToGB :: "u64 \<Rightarrow> f64" where
  "bytesToGB v = f_div (f_of_int (uint v)) (Fin False (1024 * 1024 * 1024))"

definition memoryKey :: "(nat \<Rightarrow> nat) \<Rightarrow> MemoryModule \<Rightarrow> string" where
  "memoryKey u v = ToLower u (mm_Locator v @ ''|'' @ mm_PartNumber v)"

definition storageKey :: "(nat \<Rightarrow> nat) \<Rightarrow> StorageDevice \<Rightarrow> string" where
  "storageKey u v = ToLower u (sd_DeviceID v @ ''|'' @ sd_SerialNumber v @ ''|'' @ sd_Model v)"

definition networkKey :: "(nat \<Rightarrow> nat) \<Rightarrow> NetworkAdapter \<Rightarrow> string" where
  "networkKey u v = ToLower u (na_MACAddress v @ ''|'' @ na_Name v)"

definition sort_by :: "('a \<Rightarrow> string) \<Rightarrow> 'a list \<Rightarrow> 'a list" where
  "sort_by key = sort_Slice (\<lambda>x y. key x < key y)"

text \<open>A device and an adapter without what changes from day to day.\<close>

definition quiet_device :: "StorageDevice \<Rightarrow> StorageDevice" where
  "quiet_device d = d\<lparr>sd_FreeBytes := 0, sd_UsedBytes := 0, sd_UsedGB := zero_f, sd_FreeGB := zero_f,
    sd_CapacityGB := zero_f\<rparr>"

definition quiet_nic :: "NetworkAdapter \<Rightarrow> NetworkAdapter" where
  "quiet_nic n = n\<lparr>na_IPAddress := None, na_Gateway := None, na_DNS := None, na_DHCPServer := [], na_Status := []\<rparr>"

definition quiet_ram :: "(nat \<Rightarrow> nat) \<Rightarrow> Memory \<Rightarrow> Memory" where
  "quiet_ram u m = m\<lparr>rm_UsedBytes := 0, rm_AvailableBytes := 0, rm_UsedGB := zero_f, rm_AvailableGB := zero_f,
    rm_UsagePercent := zero_f, rm_Modules := sort_by (memoryKey u) (rm_Modules m)\<rparr>"

definition quiet_disk :: "(nat \<Rightarrow> nat) \<Rightarrow> DiskInventory \<Rightarrow> DiskInventory" where
  "quiet_disk u d = d\<lparr>di_FreeBytes := 0, di_UsedBytes := 0, di_TotalGB := zero_f, di_UsedGB := zero_f,
    di_FreeGB := zero_f, di_Devices := sort_by (storageKey u) (map quiet_device (di_Devices d))\<rparr>"

definition normalizedHardware :: "(nat \<Rightarrow> nat) \<Rightarrow> Hardware \<Rightarrow> Hardware" where
  "normalizedHardware u h =
    (let nic = map quiet_nic (hw_NIC h)
     in h\<lparr>hw_Users := zero_Users,
          hw_OperatingSystem := (hw_OperatingSystem h)\<lparr>os_LastBootTime := []\<rparr>,
          hw_RAM := quiet_ram u (hw_RAM h),
          hw_Disk := quiet_disk u (hw_Disk h),
          hw_Storage := sort_by (storageKey u) (map quiet_device (hw_Storage h)),
          hw_NIC := sort_by (networkKey u) nic,
          hw_Network := sort_by (networkKey u) nic,
          hw_Monitor := sort_by mo_Name (hw_Monitor h),
          hw_GPU := sort_by gp_Name (hw_GPU h)\<rparr>)"

definition inv_Fingerprint :: "(nat \<Rightarrow> nat) \<Rightarrow> Hardware \<Rightarrow> string result" where
  "inv_Fingerprint u h =
    (let n = normalizedHardware u h
     in case Marshal (hardware_floats n) (Hardware_json n) of
          Inl e \<Rightarrow> Inl (Wrapf ''marshal fingerprint: '' e [])
        | Inr data \<Rightarrow> Inr (hex_EncodeToString (sha256_Sum256 data)))"

section \<open>Differences\<close>

definition ram_equal :: "Memory \<Rightarrow> Memory \<Rightarrow> bool" where
  "ram_equal a b \<longleftrightarrow> a\<lparr>rm_TotalGB := zero_f\<rparr> = b\<lparr>rm_TotalGB := zero_f\<rparr> \<and> f_eq (rm_TotalGB a) (rm_TotalGB b)"

text \<open>The sections compared, with \<open>reflect.DeepEqual\<close> of the two normal forms.\<close>

definition sections :: "Hardware \<Rightarrow> Hardware \<Rightarrow> (string \<times> bool) list" where
  "sections l r =
    [(''general'', hw_General l = hw_General r),
     (''operatingSystem'', hw_OperatingSystem l = hw_OperatingSystem r),
     (''cpu'', hw_CPU l = hw_CPU r),
     (''memory'', ram_equal (hw_RAM l) (hw_RAM r)),
     (''storage'', hw_Storage l = hw_Storage r),
     (''network'', hw_NIC l = hw_NIC r),
     (''motherboard'', hw_Motherboard l = hw_Motherboard r),
     (''bios'', hw_BIOS l = hw_BIOS r),
     (''security'', hw_Security l = hw_Security r),
     (''display'', hw_Monitor l = hw_Monitor r),
     (''gpu'', hw_GPU l = hw_GPU r)]"

definition change_detail :: "string \<Rightarrow> string" where
  "change_detail name =
    (if name = ''memory'' then ''Memory modules or capacity changed''
     else if name = ''storage'' then ''Disk inventory changed''
     else if name = ''bios'' then ''BIOS version or identity changed''
     else if name = ''operatingSystem'' then ''Windows version or build changed''
     else if name = ''network'' then ''Network adapter identity changed''
     else ''Section changed'')"

definition DiffHardware :: "(nat \<Rightarrow> nat) \<Rightarrow> Hardware option \<Rightarrow> Hardware \<Rightarrow> HardwareChange list" where
  "DiffHardware u previous current =
    (case previous of
       None \<Rightarrow> [\<lparr>hc_Section = ''hardware'', hc_Type = ''initial'', hc_Detail = ''Initial hardware snapshot''\<rparr>]
     | Some p \<Rightarrow>
       map (\<lambda>s. \<lparr>hc_Section = fst s, hc_Type = ''changed'', hc_Detail = change_detail (fst s)\<rparr>)
         (filter (\<lambda>s. \<not> snd s) (sections (normalizedHardware u p) (normalizedHardware u current))))"

definition HardwareCount :: "Hardware \<Rightarrow> int" where
  "HardwareCount h =
    (if cp_Model (hw_CPU h) \<noteq> [] then 1 else 0)
    + (if gn_MachineUUID (hw_General h) \<noteq> [] \<or> gn_SerialNumber (hw_General h) \<noteq> [] then 1 else 0)
    + int (length (rm_Modules (hw_RAM h)) + length (di_Devices (hw_Disk h)) + length (hw_Storage h)
        + length (hw_NIC h) + length (hw_Monitor h) + length (hw_GPU h))
    + (if mb_Product (hw_Motherboard h) \<noteq> [] then 1 else 0)
    + (if bi_Version (hw_BIOS h) \<noteq> [] then 1 else 0)"

definition BuildAssetLinkHints :: "Hardware \<Rightarrow> string \<Rightarrow> string \<Rightarrow> AssetLinkHints" where
  "BuildAssetLinkHints h agentUUID hostname =
    \<lparr>al_SerialNumber = gn_SerialNumber (hw_General h), al_MachineUUID = gn_MachineUUID (hw_General h),
     al_Hostname = hostname, al_ExistingAgentUUID = agentUUID,
     al_Priority = [''serialNumber'', ''machineUuid'', ''hostname'', ''existingAgentUuid''], al_Action = ''suggest''\<rparr>"

section \<open>Health Engine V2\<close>

definition f50 :: f64 where "f50 = Fin False 50"

definition f100 :: f64 where "f100 = Fin False 100"

definition usageScore :: "f64 \<Rightarrow> f64" where
  "usageScore v = (if f_lt v zero_f \<or> f_lt f100 v then f50 else f_sub f100 v)"

definition heartbeatScore :: "(nat \<Rightarrow> nat) \<Rightarrow> string \<Rightarrow> f64" where
  "heartbeatScore up status =
    (if ToUpper up status = ''ONLINE'' then f100 else if ToUpper up status = ''PENDING'' then f50 else zero_f)"

definition latencyScore :: "f64 \<Rightarrow> f64" where
  "latencyScore v =
    (if f_lt v zero_f then f50
     else if f_le v (Fin False 200) then f100
     else if f_le v (Fin False 500) then Fin False 70
     else if f_le v (Fin False 1000) then Fin False 40
     else Fin False 10)"

definition securityScore :: "SecurityState \<Rightarrow> f64" where
  "securityScore s = (if \<not> ss_Available s then f50 else if ss_Enabled s then f100 else zero_f)"

text \<open>The weights are untyped constants, converted to the nearest float.\<close>

definition weight20 :: f64 where "weight20 = f_round False (1 / 5)"

definition weight15 :: f64 where "weight15 = f_round False (3 / 20)"

definition weight10 :: f64 where "weight10 = f_round False (1 / 10)"

definition disabled :: "SecurityState \<Rightarrow> bool" where
  "disabled s \<longleftrightarrow> ss_Available s \<and> \<not> ss_Enabled s"

definition explanations :: "f64 \<Rightarrow> f64 \<Rightarrow> f64 \<Rightarrow> string \<Rightarrow> f64 \<Rightarrow> Security \<Rightarrow> string list" where
  "explanations cpu memory disk heartbeatStatus latency security =
    (if f_le (Fin False 85) cpu then [''High CPU usage''] else [])
    @ (if f_le (Fin False 85) memory then [''High RAM usage''] else [])
    @ (if f_le (Fin False 85) disk then [''Disk almost full''] else [])
    @ (if EqualFold heartbeatStatus ''OFFLINE'' then [''Heartbeat is offline''] else [])
    @ (if f_lt (Fin False 500) latency then [''High Portal latency''] else [])
    @ (if disabled (sc_Firewall security) then [''Firewall disabled''] else [])
    @ (if disabled (sc_Defender security) then [''Windows Defender disabled''] else [])
    @ (if disabled (sc_BitLocker security) then [''BitLocker disabled''] else [])"

definition CalculateHealthV2 ::
  "(nat \<Rightarrow> nat) \<Rightarrow> f64 \<Rightarrow> f64 \<Rightarrow> f64 \<Rightarrow> string \<Rightarrow> f64 \<Rightarrow> Security \<Rightarrow> HealthAssessment" where
  "CalculateHealthV2 up cpu memory disk heartbeatStatus latency security =
    (let c = usageScore cpu; m = usageScore memory; d = usageScore disk;
         hb = heartbeatScore up heartbeatStatus; l = latencyScore latency;
         tpm = securityScore (sc_TPM security); bl = securityScore (sc_BitLocker security);
         def = securityScore (sc_Defender security); fw = securityScore (sc_Firewall security);
         sec = f_div (f_add (f_add (f_add tpm bl) def) fw) (Fin False 4);
         overall = f_add (f_add (f_add (f_add (f_add (f_mul c weight20) (f_mul m weight20)) (f_mul d weight20))
           (f_mul hb weight15)) (f_mul l weight10)) (f_mul sec weight15)
     in \<lparr>ha_CPU = c, ha_Memory = m, ha_Disk = d, ha_Heartbeat = hb, ha_PortalLatency = l, ha_Security = sec,
         ha_TPM = tpm, ha_BitLocker = bl, ha_Defender = def, ha_Firewall = fw, ha_Overall = overall,
         ha_Status = (if f_le (Fin False 80) overall then ''Healthy''
           else if f_le (Fin False 60) overall then ''Warning'' else ''Critical''),
         ha_Explanations = explanations cpu memory disk heartbeatStatus latency security\<rparr>)"

section \<open>Sorting by a key\<close>

lemma mset_sort_by [simp]: "mset (sort_by key xs) = mset xs"
  by (simp add: sort_by_def)

lemma sort_by_sort_by: "(\<And>x. key' x = key x) \<Longrightarrow> sort_by key' (sort_by key xs) = sort_by key xs"
  unfolding sort_by_def
  by (simp add: slice_order.sort_Slice_id [OF key_slice_order] slice_order.sort_Slice_sorted [OF key_slice_order])

text \<open>Two lists that hold the same elements, told apart by the key, sort alike.\<close>

lemma sort_by_perm:
  assumes "mset xs = mset ys" and "inj_on key (set xs)"
  shows "sort_by key xs = sort_by key ys"
  unfolding sort_by_def
  by (rule slice_order.sort_Slice_perm [OF key_slice_order assms(1)])
    (use assms(2) in \<open>auto simp: inj_on_def neq_iff [symmetric]\<close>)

lemma sort_by_map: "(\<And>x. key (f x) = key x) \<Longrightarrow> sort_by key (map f xs) = map f (sort_by key xs)"
proof -
  assume key: "\<And>x. key (f x) = key x"
  have "insert_by (\<lambda>x y. key x < key y) (f x) (map f ys) = map f (insert_by (\<lambda>x y. key x < key y) x ys)" for x ys
    by (induction ys) (simp_all add: key)
  then show ?thesis unfolding sort_by_def sort_Slice_def by (induction xs) simp_all
qed

section \<open>The normal form\<close>

lemma quiet_keys [simp]: "storageKey u (quiet_device d) = storageKey u d" "networkKey u (quiet_nic n) = networkKey u n"
  by (simp_all add: storageKey_def networkKey_def quiet_device_def quiet_nic_def)

lemma quiet_idem [simp]: "quiet_device (quiet_device d) = quiet_device d" "quiet_nic (quiet_nic n) = quiet_nic n"
  by (simp_all add: quiet_device_def quiet_nic_def)

lemma quiet_comp [simp]: "quiet_device \<circ> quiet_device = quiet_device" "quiet_nic \<circ> quiet_nic = quiet_nic"
  by (simp_all add: comp_def)

lemma quiet_sorted [simp]:
  "sort_by (storageKey u) (map quiet_device (sort_by (storageKey u) (map quiet_device ds))) =
    sort_by (storageKey u) (map quiet_device ds)"
  "sort_by (networkKey u) (map quiet_nic (sort_by (networkKey u) (map quiet_nic ns))) =
    sort_by (networkKey u) (map quiet_nic ns)"
  by (simp_all add: sort_by_map sort_by_sort_by)

lemma normalizedHardware_idem: "normalizedHardware u (normalizedHardware u h) = normalizedHardware u h"
  by (simp add: normalizedHardware_def Let_def quiet_ram_def quiet_disk_def sort_by_sort_by)

text \<open>
  The same machine: two snapshots that agree in everything but the volatile values and the order in which devices,
  adapters, modules, monitors and cards were enumerated.
\<close>

definition same_items :: "('a \<Rightarrow> 'b) \<Rightarrow> 'a list \<Rightarrow> 'a list \<Rightarrow> bool" where
  "same_items f xs ys \<longleftrightarrow> mset (map f xs) = mset (map f ys)"

definition same_machine :: "Hardware \<Rightarrow> Hardware \<Rightarrow> bool" where
  "same_machine h h' \<longleftrightarrow>
    hw_General h = hw_General h'
    \<and> (hw_OperatingSystem h)\<lparr>os_LastBootTime := []\<rparr> = (hw_OperatingSystem h')\<lparr>os_LastBootTime := []\<rparr>
    \<and> hw_CPU h = hw_CPU h'
    \<and> rm_TotalBytes (hw_RAM h) = rm_TotalBytes (hw_RAM h') \<and> rm_TotalGB (hw_RAM h) = rm_TotalGB (hw_RAM h')
    \<and> rm_Slots (hw_RAM h) = rm_Slots (hw_RAM h')
    \<and> same_items id (rm_Modules (hw_RAM h)) (rm_Modules (hw_RAM h'))
    \<and> di_TotalBytes (hw_Disk h) = di_TotalBytes (hw_Disk h') \<and> di_Model (hw_Disk h) = di_Model (hw_Disk h')
    \<and> di_Type (hw_Disk h) = di_Type (hw_Disk h') \<and> di_SerialNumber (hw_Disk h) = di_SerialNumber (hw_Disk h')
    \<and> di_Health (hw_Disk h) = di_Health (hw_Disk h') \<and> di_SMARTStatus (hw_Disk h) = di_SMARTStatus (hw_Disk h')
    \<and> same_items quiet_device (di_Devices (hw_Disk h)) (di_Devices (hw_Disk h'))
    \<and> same_items quiet_device (hw_Storage h) (hw_Storage h')
    \<and> same_items quiet_nic (hw_NIC h) (hw_NIC h')
    \<and> hw_Motherboard h = hw_Motherboard h' \<and> hw_BIOS h = hw_BIOS h' \<and> hw_Security h = hw_Security h'
    \<and> same_items id (hw_Monitor h) (hw_Monitor h') \<and> same_items id (hw_GPU h) (hw_GPU h')
    \<and> hw_SerialNumber h = hw_SerialNumber h'"

text \<open>The items of each kind are told apart by the key they are sorted by: items that share a key are equal.\<close>

definition told_apart :: "(nat \<Rightarrow> nat) \<Rightarrow> Hardware \<Rightarrow> bool" where
  "told_apart u h \<longleftrightarrow>
    inj_on (memoryKey u) (set (rm_Modules (hw_RAM h)))
    \<and> inj_on (storageKey u) (quiet_device ` set (di_Devices (hw_Disk h)))
    \<and> inj_on (storageKey u) (quiet_device ` set (hw_Storage h))
    \<and> inj_on (networkKey u) (quiet_nic ` set (hw_NIC h))
    \<and> inj_on mo_Name (set (hw_Monitor h)) \<and> inj_on gp_Name (set (hw_GPU h))"

lemma same_items_sort:
  "same_items f xs ys \<Longrightarrow> inj_on key (f ` set xs) \<Longrightarrow> sort_by key (map f xs) = sort_by key (map f ys)"
  unfolding same_items_def by (rule sort_by_perm) simp_all

lemma same_machine_normal:
  assumes "same_machine h h'" and "told_apart u h"
  shows "normalizedHardware u h = normalizedHardware u h'"
proof -
  have ram: "quiet_ram u (hw_RAM h) = quiet_ram u (hw_RAM h')"
    using assms same_items_sort [of id "rm_Modules (hw_RAM h)" "rm_Modules (hw_RAM h')" "memoryKey u"]
    by (simp add: same_machine_def told_apart_def quiet_ram_def)
  have disk: "quiet_disk u (hw_Disk h) = quiet_disk u (hw_Disk h')"
    using assms same_items_sort [of quiet_device "di_Devices (hw_Disk h)" "di_Devices (hw_Disk h')" "storageKey u"]
    by (simp add: same_machine_def told_apart_def quiet_disk_def)
  have lists: "sort_by (storageKey u) (map quiet_device (hw_Storage h)) = sort_by (storageKey u) (map quiet_device (hw_Storage h'))"
    "sort_by (networkKey u) (map quiet_nic (hw_NIC h)) = sort_by (networkKey u) (map quiet_nic (hw_NIC h'))"
    "sort_by mo_Name (hw_Monitor h) = sort_by mo_Name (hw_Monitor h')"
    "sort_by gp_Name (hw_GPU h) = sort_by gp_Name (hw_GPU h')"
    using assms same_items_sort [of quiet_device "hw_Storage h" "hw_Storage h'" "storageKey u"]
      same_items_sort [of quiet_nic "hw_NIC h" "hw_NIC h'" "networkKey u"]
      same_items_sort [of id "hw_Monitor h" "hw_Monitor h'" mo_Name] same_items_sort [of id "hw_GPU h" "hw_GPU h'" gp_Name]
    by (simp_all add: same_machine_def told_apart_def)
  show ?thesis
    using assms(1) by (simp add: normalizedHardware_def Let_def ram disk lists same_machine_def)
qed

lemma f_eq_refl: "v \<noteq> NaN \<Longrightarrow> f_eq v v"
  by (cases v) simp_all

lemma DiffHardware_same:
  assumes "normalizedHardware u p = normalizedHardware u h" and "rm_TotalGB (hw_RAM h) \<noteq> NaN"
  shows "DiffHardware u (Some p) h = []"
proof -
  have "rm_TotalGB (hw_RAM (normalizedHardware u h)) = rm_TotalGB (hw_RAM h)"
    by (simp add: normalizedHardware_def quiet_ram_def Let_def)
  then show ?thesis using assms by (simp add: DiffHardware_def sections_def ram_equal_def f_eq_refl)
qed

section \<open>Scores\<close>

lemma weight20: "weight20 = Fin False (3602879701896397 / 18014398509481984)"
proof -
  have "round_mag (1 / 5) = 3602879701896397 / 18014398509481984"
    by (subst round_mag_eval [where e = "-3" and n = 7205759403792794]) (simp_all add: pow2_def)
  then show ?thesis by (simp add: weight20_def f_round_def)
qed

lemma weight15: "weight15 = Fin False (5404319552844595 / 36028797018963968)"
proof -
  have "round_mag (3 / 20) = 5404319552844595 / 36028797018963968"
    by (subst round_mag_eval [where e = "-3" and n = 5404319552844595]) (simp_all add: pow2_def)
  then show ?thesis by (simp add: weight15_def f_round_def)
qed

lemma weight10: "weight10 = Fin False (3602879701896397 / 36028797018963968)"
proof -
  have "round_mag (1 / 10) = 3602879701896397 / 36028797018963968"
    by (subst round_mag_eval [where e = "-4" and n = 7205759403792794]) (simp_all add: pow2_def)
  then show ?thesis by (simp add: weight10_def f_round_def)
qed

text \<open>A score of at most 100 contributes at most its weight, rounding included.\<close>

lemma weighted:
  assumes "f_between 0 100 v"
  shows "f_between 0 20 (f_mul v weight20)" and "f_between 0 15 (f_mul v weight15)" and "f_between 0 10 (f_mul v weight10)"
proof -
  have "round_mag (of_int 100 * (3602879701896397 / 18014398509481984)) = 20"
    by (subst round_mag_eval [where e = 4 and n = 5629499534213120]) (simp_all add: pow2_def)
  then show "f_between 0 20 (f_mul v weight20)"
    unfolding weight20 using assms by (intro f_mul_bound [where a = 100 and c = 21]) simp_all
  have "round_mag (of_int 100 * (5404319552844595 / 36028797018963968)) = 15"
    by (subst round_mag_eval [where e = 3 and n = 8444249301319680]) (simp_all add: pow2_def)
  then show "f_between 0 15 (f_mul v weight15)"
    unfolding weight15 using assms by (intro f_mul_bound [where a = 100 and c = 16]) simp_all
  have "round_mag (of_int 100 * (3602879701896397 / 36028797018963968)) = 10"
    by (subst round_mag_eval [where e = 3 and n = 5629499534213120]) (simp_all add: pow2_def)
  then show "f_between 0 10 (f_mul v weight10)"
    unfolding weight10 using assms by (intro f_mul_bound [where a = 100 and c = 11]) simp_all
qed

lemma scores_between:
  "v \<noteq> NaN \<Longrightarrow> f_between 0 100 (usageScore v)"
  "f_between 0 100 (heartbeatScore up s)" "f_between 0 100 (latencyScore v)" "f_between 0 100 (securityScore st)"
proof -
  show "f_between 0 100 (usageScore v)" if num: "v \<noteq> NaN"
  proof (cases "f_lt v zero_f \<or> f_lt f100 v")
    case False
    then obtain s m where "v = Fin s m" using num by (cases v) (auto simp: zero_f_def f100_def)
    then have "f_between 0 100 v" using False by (simp add: zero_f_def f100_def)
    then show ?thesis using False f_sub_between [of 100 v] by (simp add: usageScore_def f100_def)
  qed (simp add: usageScore_def f50_def)
qed (simp_all add: heartbeatScore_def latencyScore_def securityScore_def zero_f_def f50_def f100_def)

lemma security_between:
  assumes "f_between 0 100 a" "f_between 0 100 b" "f_between 0 100 c" "f_between 0 100 d"
  shows "f_between 0 100 (f_div (f_add (f_add (f_add a b) c) d) (Fin False 4))"
proof -
  have "f_between 0 400 (f_add (f_add (f_add a b) c) d)"
    using f_between_add [OF f_between_add [OF f_between_add [OF assms(1,2)] assms(3)] assms(4)] by simp
  moreover from this obtain s m where t: "f_add (f_add (f_add a b) c) d = Fin s m" by (auto simp: f_between_def)
  ultimately have "f_between 0 100 (f_round (s \<noteq> False) (f_val (Fin s m) / 4))"
    by (intro f_round_between) auto
  then show ?thesis by (simp add: t)
qed

lemma overall_V2_between:
  assumes "f_between 0 100 c" "f_between 0 100 m" "f_between 0 100 d" "f_between 0 100 hb" "f_between 0 100 l" "f_between 0 100 sec"
  shows "f_between 0 100 (f_add (f_add (f_add (f_add (f_add (f_mul c weight20) (f_mul m weight20)) (f_mul d weight20))
    (f_mul hb weight15)) (f_mul l weight10)) (f_mul sec weight15))"
proof -
  note w = weighted(1) [OF assms(1)] weighted(1) [OF assms(2)] weighted(1) [OF assms(3)] weighted(2) [OF assms(4)]
    weighted(3) [OF assms(5)] weighted(2) [OF assms(6)]
  have "f_between 0 40 (f_add (f_mul c weight20) (f_mul m weight20))" using f_between_add [OF w(1,2)] by simp
  from f_between_add [OF this w(3)] have "f_between 0 60 (f_add (f_add (f_mul c weight20) (f_mul m weight20)) (f_mul d weight20))"
    by simp
  from f_between_add [OF this w(4)] have "f_between 0 75 (f_add (f_add (f_add (f_mul c weight20) (f_mul m weight20))
      (f_mul d weight20)) (f_mul hb weight15))" by simp
  from f_between_add [OF this w(5)] have "f_between 0 85 (f_add (f_add (f_add (f_add (f_mul c weight20) (f_mul m weight20))
      (f_mul d weight20)) (f_mul hb weight15)) (f_mul l weight10))" by simp
  from f_between_add [OF this w(6)] show ?thesis by simp
qed

lemma health_V2_floats:
  assumes "cpu \<noteq> NaN" and "memory \<noteq> NaN" and "disk \<noteq> NaN"
    and "a = CalculateHealthV2 up cpu memory disk status latency security"
  shows "\<forall>v\<in>set (health_floats a). f_between 0 100 v"
proof -
  let ?s = "securityScore"
  note sc = scores_between(1) [OF assms(1)] scores_between(1) [OF assms(2)] scores_between(1) [OF assms(3)]
  note sec = security_between [of "?s (sc_TPM security)" "?s (sc_BitLocker security)" "?s (sc_Defender security)"
      "?s (sc_Firewall security)", OF scores_between(4) scores_between(4) scores_between(4) scores_between(4)]
  note all = overall_V2_between [OF sc scores_between(2) [of up status] scores_between(3) [of latency] sec]
  show ?thesis
    using all sc sec scores_between(2-4) unfolding assms(4) health_floats_def
    by (simp add: CalculateHealthV2_def Let_def)
qed

section \<open>Concrete machines\<close>

definition drive_c :: StorageDevice where
  "drive_c = zero_StorageDevice\<lparr>sd_DeviceID := ''C:'', sd_TotalBytes := 100, sd_FreeBytes := 40\<rparr>"

definition drive_d :: StorageDevice where
  "drive_d = zero_StorageDevice\<lparr>sd_DeviceID := ''D:'', sd_TotalBytes := 200\<rparr>"

definition machine_with :: "StorageDevice list \<Rightarrow> string \<Rightarrow> Hardware" where
  "machine_with ds user = zero_Hardware\<lparr>hw_Disk := zero_DiskInventory\<lparr>di_TotalBytes := 300, di_Devices := ds\<rparr>,
    hw_Users := \<lparr>us_Current = user, us_Last = []\<rparr>\<rparr>"

lemma drive_keys: "storageKey u drive_c = ''c:||''" "storageKey u drive_d = ''d:||''"
proof -
  have "map ascii_lower ''C:||'' = ''c:||''" "map ascii_lower ''D:||'' = ''d:||''" by code_simp+
  then show "storageKey u drive_c = ''c:||''" "storageKey u drive_d = ''d:||''"
    by (simp_all add: storageKey_def drive_c_def drive_d_def zero_StorageDevice_def ToLower_def is_ascii_def byte_val_def)
qed

lemma machines_same:
  "same_machine (machine_with [drive_c, drive_d] ''a'') (machine_with [drive_d, drive_c\<lparr>sd_FreeBytes := 7\<rparr>] ''b'')"
  "told_apart u (machine_with [drive_c, drive_d] ''a'')"
proof -
  have c: "quiet_device (drive_c\<lparr>sd_FreeBytes := 7\<rparr>) = quiet_device drive_c" by (simp add: quiet_device_def)
  then have "same_items quiet_device [drive_c, drive_d] [drive_d, drive_c\<lparr>sd_FreeBytes := 7\<rparr>]"
    by (simp add: same_items_def)
  then show "same_machine (machine_with [drive_c, drive_d] ''a'') (machine_with [drive_d, drive_c\<lparr>sd_FreeBytes := 7\<rparr>] ''b'')"
    by (simp add: same_machine_def machine_with_def zero_Hardware_def zero_DiskInventory_def same_items_def zero_Memory_def)
  show "told_apart u (machine_with [drive_c, drive_d] ''a'')"
    by (auto simp add: told_apart_def machine_with_def zero_Hardware_def zero_DiskInventory_def zero_Memory_def drive_keys)
qed

section \<open>Properties\<close>

text \<open>
  C17. The fingerprint identifies the machine, not the moment, as long as the keys the items are sorted by tell them apart:
  for two snapshots that differ only in volatile values (free space, memory in use, addresses, users, boot time) and in
  the order in which Windows enumerated the items, no two different items of a kind having the same key (the name of a
  monitor or of a card, the locator and part number of a module, the MAC address and name of an adapter, the letter, serial
  number and model of a device), the fingerprints are equal and comparing them reports no change. (Without it they need not
  be: \<open>swapped_monitors\<close> in \<open>Unchanged\<close>.)
\<close>

theorem fingerprint_identifies:
  assumes "same_machine h h'" and "told_apart u h" and "rm_TotalGB (hw_RAM h') \<noteq> NaN"
  shows "inv_Fingerprint u h = inv_Fingerprint u h' \<and> DiffHardware u (Some h) h' = []"
  using same_machine_normal [OF assms(1,2)] DiffHardware_same [OF _ assms(3), of u h]
  by (simp add: inv_Fingerprint_def)

theorem fingerprint_identifies_witness:
  "DiffHardware (\<lambda>r. r) (Some (machine_with [drive_c, drive_d] ''a''))
    (machine_with [drive_d, drive_c\<lparr>sd_FreeBytes := 7\<rparr>] ''b'') = []"
  using fingerprint_identifies [OF machines_same] by (simp add: machine_with_def zero_Hardware_def zero_Memory_def zero_f_def)

text \<open>
  The normal form is one: normalising again changes nothing, and the fingerprint of a snapshot is the fingerprint
  of its normal form.
\<close>

theorem normal_form_idempotent:
  "normalizedHardware u (normalizedHardware u h) = normalizedHardware u h
    \<and> inv_Fingerprint u (normalizedHardware u h) = inv_Fingerprint u h"
  by (simp add: inv_Fingerprint_def normalizedHardware_idem)

text \<open>The change report leaves out the logical volumes.\<close>

lemma DiffHardware_disk:
  assumes "rm_TotalGB (hw_RAM h) \<noteq> NaN"
  shows "DiffHardware u (Some h) (h\<lparr>hw_Disk := d\<rparr>) = []"
proof -
  have "rm_TotalGB (hw_RAM (normalizedHardware u h)) \<noteq> NaN"
    using assms by (simp add: normalizedHardware_def quiet_ram_def Let_def)
  moreover have "normalizedHardware u (h\<lparr>hw_Disk := d\<rparr>) = (normalizedHardware u h)\<lparr>hw_Disk := quiet_disk u d\<rparr>"
    by (simp add: normalizedHardware_def Let_def)
  ultimately show ?thesis by (simp add: DiffHardware_def sections_def ram_equal_def f_eq_refl)
qed

text \<open>
  Every score of Health Engine V2 and the overall score are floats between 0 and 100, whatever the readings, the
  state of the heartbeat and the security state, with all roundings of the weighted sum.
\<close>

theorem health_V2_bounds:
  assumes "cpu \<noteq> NaN" and "memory \<noteq> NaN" and "disk \<noteq> NaN"
    and "a = CalculateHealthV2 up cpu memory disk status latency security"
  shows "(\<forall>v\<in>set (health_floats a). f_between 0 100 v)
    \<and> (ha_Status a = ''Healthy'' \<longleftrightarrow> 80 \<le> f_val (ha_Overall a))
    \<and> (ha_Status a = ''Critical'' \<longleftrightarrow> f_val (ha_Overall a) < 60)"
proof -
  note floats = health_V2_floats [OF assms]
  then obtain s m where "ha_Overall a = Fin s m" by (auto simp: health_floats_def f_between_def)
  moreover have "ha_Status a = (if f_le (Fin False 80) (ha_Overall a) then ''Healthy''
      else if f_le (Fin False 60) (ha_Overall a) then ''Warning'' else ''Critical'')"
    unfolding assms(4) CalculateHealthV2_def Let_def by simp
  ultimately show ?thesis using floats by auto
qed

theorem health_V2_bounds_witness:
  "f_between 0 100 (ha_Overall (CalculateHealthV2 (\<lambda>r. r) (Fin True 1) (Fin False 37) (Fin False 90) ''ONLINE'' (Fin True 1)
    zero_Security))"
  using health_V2_bounds [OF _ _ _ refl, of "Fin True 1" "Fin False 37" "Fin False 90"] by (simp add: health_floats_def)

end
