(* ===== verification/InvCollect.thy ===== *)
theory InvCollect
  imports InvNormal
begin

text \<open>
  Package \<open>internal/inventory\<close>, \<open>collector_windows.go\<close>: how a snapshot is put together from the rows of the WMI queries
  and the registry (\<open>WmiRows\<close>). One definition per query, in the order of the source; \<open>u\<close> is the lower case table. The
  queries are read at one moment. Integer arithmetic is that of 32 and 64 bit words, so sums and products
  wrap around as in the source.
\<close>

section \<open>Helpers\<close>

definition cleanStrings :: "string list \<Rightarrow> string list" where
  "cleanStrings vs = filter (\<lambda>v. v \<noteq> []) (map TrimSpace vs)"

definition boolStatus :: "bool \<Rightarrow> bool \<Rightarrow> string" where
  "boolStatus enabled available = (if \<not> available then ''unknown'' else if enabled then ''enabled'' else ''disabled'')"

definition normalizeStorageType :: "(nat \<Rightarrow> nat) \<Rightarrow> string \<Rightarrow> string \<Rightarrow> string" where
  "normalizeStorageType u mediaType model =
    (let v = ToLower u (mediaType @ '' '' @ model)
     in if Contains v ''nvme'' then ''NVMe''
        else if Contains v ''ssd'' \<or> Contains v ''solid'' then ''SSD''
        else if Contains v ''hdd'' \<or> Contains v ''hard'' then ''HDD''
        else ''unknown'')"

definition driveTypeName :: "u32 \<Rightarrow> string" where
  "driveTypeName v =
    (if v = 3 then ''fixed'' else if v = 2 then ''removable'' else if v = 4 then ''network''
     else if v = 5 then ''optical'' else ''unknown'')"

definition networkStatus :: "u32 \<Rightarrow> string" where
  "networkStatus v = (if v = 2 then ''up'' else if v = 7 then ''down'' else ''unknown'')"

definition registryDWORD :: "wmi \<Rightarrow> string \<Rightarrow> string \<Rightarrow> u32 \<times> bool" where
  "registryDWORD q path name = (case wq_dword q path name of None \<Rightarrow> (0, False) | Some v \<Rightarrow> (ucast v, True))"

definition registryString :: "wmi \<Rightarrow> string \<Rightarrow> string \<Rightarrow> string" where
  "registryString q path name = (case wq_string q path name of None \<Rightarrow> [] | Some v \<Rightarrow> TrimSpace v)"

definition reg_path :: "string list \<Rightarrow> string" where
  "reg_path parts = Join parts [CHR 0x5C]"

definition timezone :: "wmi \<Rightarrow> string" where
  "timezone q =
    (let v = registryString q (reg_path [''SYSTEM'', ''CurrentControlSet'', ''Control'', ''TimeZoneInformation'']) ''TimeZoneKeyName''
     in if v \<noteq> [] then v else wq_location q)"

definition collectSMARTStatus :: "wmi \<Rightarrow> string" where
  "collectSMARTStatus q =
    (case wq_smart q of
       None \<Rightarrow> ''unknown''
     | Some vs \<Rightarrow> if vs = [] then ''unknown'' else if list_ex (\<lambda>v. v) vs then ''failure'' else ''healthy'')"

section \<open>System, firmware and operating system\<close>

definition with_system :: "wmi \<Rightarrow> Hardware \<Rightarrow> Hardware" where
  "with_system q h =
    (case wq_systems q of [] \<Rightarrow> h
     | s # _ \<Rightarrow> h\<lparr>
         hw_General := (hw_General h)\<lparr>gn_ComputerName := TrimSpace (ws_Name s),
           gn_Manufacturer := TrimSpace (ws_Manufacturer s), gn_Model := TrimSpace (ws_Model s)\<rparr>,
         hw_OperatingSystem := (hw_OperatingSystem h)\<lparr>os_Domain := TrimSpace (ws_Domain s),
           os_Workgroup := (if \<not> ws_PartOfDomain s then TrimSpace (ws_Domain s) else os_Workgroup (hw_OperatingSystem h))\<rparr>,
         hw_Users := (hw_Users h)\<lparr>us_Current := TrimSpace (ws_UserName s)\<rparr>,
         hw_RAM := (hw_RAM h)\<lparr>rm_TotalBytes := ws_TotalPhysicalMemory s\<rparr>\<rparr>)"

definition with_product :: "wmi \<Rightarrow> Hardware \<Rightarrow> Hardware" where
  "with_product q h =
    (case wq_products q of [] \<Rightarrow> h
     | p # _ \<Rightarrow>
       (let g = (hw_General h)\<lparr>gn_MachineUUID := TrimSpace (wp_UUID p)\<rparr>;
            g1 = (if gn_ProductName g = [] then g\<lparr>gn_ProductName := TrimSpace (wp_Name p)\<rparr> else g);
            g2 = (if gn_Manufacturer g1 = [] then g1\<lparr>gn_Manufacturer := TrimSpace (wp_Vendor p)\<rparr> else g1)
        in h\<lparr>hw_General := g2\<rparr>))"

definition with_enclosure :: "wmi \<Rightarrow> Hardware \<Rightarrow> Hardware" where
  "with_enclosure q h =
    (case wq_enclosures q of [] \<Rightarrow> h
     | e # _ \<Rightarrow>
       (let g = (hw_General h)\<lparr>gn_AssetTag := TrimSpace (we_SMBIOSAssetTag e)\<rparr>
        in h\<lparr>hw_General := (if gn_SerialNumber g = [] then g\<lparr>gn_SerialNumber := TrimSpace (we_SerialNumber e)\<rparr> else g)\<rparr>))"

definition with_bios :: "wmi \<Rightarrow> Hardware \<Rightarrow> Hardware" where
  "with_bios q h =
    (let h1 = (case wq_bios q of [] \<Rightarrow> h
       | b # _ \<Rightarrow>
         (let h0 = h\<lparr>hw_BIOS := \<lparr>bi_Manufacturer = TrimSpace (wb_Manufacturer b), bi_Version = TrimSpace (wb_SMBIOSBIOSVersion b),
                bi_SerialNumber = TrimSpace (wb_SerialNumber b), bi_ReleaseDate = TrimSpace (wb_ReleaseDate b)\<rparr>\<rparr>
          in if gn_SerialNumber (hw_General h0) = []
             then h0\<lparr>hw_General := (hw_General h0)\<lparr>gn_SerialNumber := bi_SerialNumber (hw_BIOS h0)\<rparr>\<rparr> else h0))
     in h1\<lparr>hw_SerialNumber := gn_SerialNumber (hw_General h1)\<rparr>)"

definition with_board :: "wmi \<Rightarrow> Hardware \<Rightarrow> Hardware" where
  "with_board q h =
    (case wq_boards q of [] \<Rightarrow> h
     | b # _ \<Rightarrow> h\<lparr>hw_Motherboard := \<lparr>mb_Manufacturer = TrimSpace (wm_Manufacturer b),
         mb_Product = TrimSpace (wm_Product b), mb_SerialNumber = TrimSpace (wm_SerialNumber b)\<rparr>\<rparr>)"

text \<open>The gigabytes of a memory section and the percentage in use.\<close>

definition usage_percent :: "u64 \<Rightarrow> u64 \<Rightarrow> f64" where
  "usage_percent used all = f_mul (f_div (f_of_int (uint used)) (f_of_int (uint all))) (Fin False 100)"

definition ram_scaled :: "Memory \<Rightarrow> Memory" where
  "ram_scaled m = m\<lparr>rm_TotalGB := bytesToGB (rm_TotalBytes m), rm_AvailableGB := bytesToGB (rm_AvailableBytes m),
    rm_UsedGB := bytesToGB (rm_UsedBytes m),
    rm_UsagePercent := (if 0 < rm_TotalBytes m then usage_percent (rm_UsedBytes m) (rm_TotalBytes m) else rm_UsagePercent m)\<rparr>"

definition ram_from_os :: "row_os \<Rightarrow> Memory \<Rightarrow> Memory" where
  "ram_from_os r m =
    (if 0 < wo_TotalVisibleMemorySize r then
       (let avail = wo_FreePhysicalMemory r * 1024; all = wo_TotalVisibleMemorySize r * 1024
        in ram_scaled (m\<lparr>rm_AvailableBytes := avail, rm_TotalBytes := all,
             rm_UsedBytes := (if avail < all then all - avail else rm_UsedBytes m)\<rparr>))
     else m)"

definition with_os :: "wmi \<Rightarrow> Hardware \<Rightarrow> Hardware" where
  "with_os q h =
    (let h1 = (case wq_os q of [] \<Rightarrow> h
       | r # _ \<Rightarrow> h\<lparr>hw_OperatingSystem := \<lparr>os_Edition = TrimSpace (wo_Caption r), os_Version = TrimSpace (wo_Version r),
           os_BuildNumber = TrimSpace (wo_BuildNumber r), os_Architecture = TrimSpace (wo_OSArchitecture r),
           os_InstallDate = TrimSpace (wo_InstallDate r), os_LastBootTime = TrimSpace (wo_LastBootUpTime r),
           os_Domain = os_Domain (hw_OperatingSystem h), os_Workgroup = os_Workgroup (hw_OperatingSystem h),
           os_Timezone = timezone q\<rparr>, hw_RAM := ram_from_os r (hw_RAM h)\<rparr>);
         h2 = (if os_Timezone (hw_OperatingSystem h1) = []
           then h1\<lparr>hw_OperatingSystem := (hw_OperatingSystem h1)\<lparr>os_Timezone := timezone q\<rparr>\<rparr> else h1)
     in if 0 < rm_TotalBytes (hw_RAM h2) \<and> f_eq (rm_TotalGB (hw_RAM h2)) zero_f
        then h2\<lparr>hw_RAM := ram_scaled (hw_RAM h2)\<rparr> else h2)"

section \<open>Processors and memory modules\<close>

definition add_processor :: "CPU \<Rightarrow> row_cpu \<Rightarrow> CPU" where
  "add_processor c p =
    \<lparr>cp_Model = TrimSpace (wc_Name p), cp_Manufacturer = TrimSpace (wc_Manufacturer p),
     cp_Socket = TrimSpace (wc_SocketDesignation p),
     cp_LogicalCores = cp_LogicalCores c + wc_NumberOfLogicalProcessors p,
     cp_PhysicalCores = cp_PhysicalCores c + wc_NumberOfCores p, cp_Threads = cp_Threads c + wc_ThreadCount p,
     cp_ClockMHz = (if cp_ClockMHz c < wc_MaxClockSpeed p then wc_MaxClockSpeed p else cp_ClockMHz c)\<rparr>"

definition with_processors :: "wmi \<Rightarrow> Hardware \<Rightarrow> Hardware" where
  "with_processors q h = h\<lparr>hw_CPU := foldl add_processor (hw_CPU h) (wq_processors q)\<rparr>"

definition memory_module :: "row_memory \<Rightarrow> MemoryModule" where
  "memory_module r = \<lparr>mm_Locator = TrimSpace (wr_DeviceLocator r), mm_Manufacturer = TrimSpace (wr_Manufacturer r),
    mm_PartNumber = TrimSpace (wr_PartNumber r), mm_Capacity = wr_Capacity r, mm_SpeedMHz = wr_Speed r\<rparr>"

definition with_memory :: "wmi \<Rightarrow> Hardware \<Rightarrow> Hardware" where
  "with_memory q h = h\<lparr>hw_RAM := (hw_RAM h)\<lparr>rm_Slots := of_nat (length (wq_memory q)),
    rm_Modules := rm_Modules (hw_RAM h) @ map memory_module (wq_memory q)\<rparr>\<rparr>"

section \<open>Volumes and drives\<close>

definition volume_device :: "(nat \<Rightarrow> nat) \<Rightarrow> row_logical \<Rightarrow> StorageDevice" where
  "volume_device u d =
    (let used = (if wl_FreeSpace d \<le> wl_Size d then wl_Size d - wl_FreeSpace d else 0)
     in zero_StorageDevice\<lparr>sd_DeviceID := TrimSpace (wl_DeviceID d),
          sd_Type := normalizeStorageType u (FormatInt (uint (wl_MediaType d))) [],
          sd_TotalBytes := wl_Size d, sd_FreeBytes := wl_FreeSpace d, sd_UsedBytes := used,
          sd_CapacityGB := bytesToGB (wl_Size d), sd_UsedGB := bytesToGB used, sd_FreeGB := bytesToGB (wl_FreeSpace d),
          sd_Filesystem := TrimSpace (wl_FileSystem d), sd_DriveType := driveTypeName (wl_DriveType d)\<rparr>)"

definition add_volume :: "(nat \<Rightarrow> nat) \<Rightarrow> DiskInventory \<Rightarrow> row_logical \<Rightarrow> DiskInventory" where
  "add_volume u i d =
    (if wl_Size d = 0 then i
     else i\<lparr>di_Devices := di_Devices i @ [volume_device u d], di_TotalBytes := di_TotalBytes i + wl_Size d,
       di_FreeBytes := di_FreeBytes i + wl_FreeSpace d\<rparr>)"

definition with_volumes :: "(nat \<Rightarrow> nat) \<Rightarrow> wmi \<Rightarrow> Hardware \<Rightarrow> Hardware" where
  "with_volumes u q h =
    (let i = foldl (add_volume u) (hw_Disk h) (wq_logical q)
     in h\<lparr>hw_Disk := (if di_FreeBytes i \<le> di_TotalBytes i then i\<lparr>di_UsedBytes := di_TotalBytes i - di_FreeBytes i\<rparr> else i)\<rparr>)"

text \<open>A volume takes over what a drive says when its identifier begins with that of the drive.\<close>

definition identify_volume :: "(nat \<Rightarrow> nat) \<Rightarrow> string \<Rightarrow> row_drive \<Rightarrow> StorageDevice \<Rightarrow> StorageDevice" where
  "identify_volume u smart d v =
    (if HasPrefix (sd_DeviceID v) (wd_DeviceID d)
     then v\<lparr>sd_Model := TrimSpace (wd_Model d), sd_SerialNumber := TrimSpace (wd_SerialNumber d),
       sd_Health := TrimSpace (wd_Status d), sd_SMARTStatus := smart,
       sd_Type := normalizeStorageType u (wd_MediaType d) (wd_Model d)\<rparr>
     else v)"

definition drive_device :: "(nat \<Rightarrow> nat) \<Rightarrow> string \<Rightarrow> row_drive \<Rightarrow> StorageDevice" where
  "drive_device u smart d =
    zero_StorageDevice\<lparr>sd_DeviceID := TrimSpace (wd_DeviceID d), sd_Type := normalizeStorageType u (wd_MediaType d) (wd_Model d),
      sd_Model := TrimSpace (wd_Model d), sd_SerialNumber := TrimSpace (wd_SerialNumber d), sd_Health := TrimSpace (wd_Status d),
      sd_SMARTStatus := smart, sd_TotalBytes := wd_Size d, sd_CapacityGB := bytesToGB (wd_Size d)\<rparr>"

definition add_drive :: "(nat \<Rightarrow> nat) \<Rightarrow> string \<Rightarrow> Hardware \<Rightarrow> row_drive \<Rightarrow> Hardware" where
  "add_drive u smart h d =
    (let i = (hw_Disk h)\<lparr>di_Devices := map (identify_volume u smart d) (di_Devices (hw_Disk h))\<rparr>
     in if 0 < wd_Size d
        then h\<lparr>hw_Storage := hw_Storage h @ [drive_device u smart d],
               hw_Disk := (if di_Model i = []
                 then i\<lparr>di_Model := TrimSpace (wd_Model d), di_Type := normalizeStorageType u (wd_MediaType d) (wd_Model d),
                   di_SerialNumber := TrimSpace (wd_SerialNumber d), di_Health := TrimSpace (wd_Status d),
                   di_SMARTStatus := smart\<rparr>
                 else i)\<rparr>
        else h\<lparr>hw_Disk := i\<rparr>)"

definition with_drives :: "(nat \<Rightarrow> nat) \<Rightarrow> wmi \<Rightarrow> Hardware \<Rightarrow> Hardware" where
  "with_drives u q h =
    (let h1 = foldl (add_drive u (collectSMARTStatus q)) h (wq_drives q); i = hw_Disk h1
     in h1\<lparr>hw_Disk := i\<lparr>di_TotalGB := bytesToGB (di_TotalBytes i), di_UsedGB := bytesToGB (di_UsedBytes i),
       di_FreeGB := bytesToGB (di_FreeBytes i)\<rparr>\<rparr>)"

section \<open>Network adapters\<close>

definition adapter_nic :: "row_adapter \<Rightarrow> NetworkAdapter" where
  "adapter_nic a =
    \<lparr>na_Name = TrimSpace (wa_Description a), na_Description = TrimSpace (wa_Description a),
     na_IPAddress = Some (cleanStrings (wa_IPAddress a)), na_MACAddress = TrimSpace (wa_MACAddress a),
     na_Gateway = Some (cleanStrings (wa_DefaultIPGateway a)), na_DNS = Some (cleanStrings (wa_DNSServerSearchOrder a)),
     na_DHCP = wa_DHCPEnabled a, na_DHCPServer = TrimSpace (wa_DHCPServer a), na_LinkSpeed = 0, na_Status = ''up''\<rparr>"

definition detail_matches :: "row_detail \<Rightarrow> NetworkAdapter \<Rightarrow> bool" where
  "detail_matches d n \<longleftrightarrow>
    (TrimSpace (wn_MACAddress d) \<noteq> [] \<and> TrimSpace (wn_MACAddress d) = na_MACAddress n)
    \<or> (na_Description n \<noteq> [] \<and> TrimSpace (wn_Name d) = na_Description n)"

definition detail_nic :: "row_detail \<Rightarrow> NetworkAdapter \<Rightarrow> NetworkAdapter" where
  "detail_nic d n = n\<lparr>na_Name := TrimSpace (wn_Name d), na_LinkSpeed := wn_Speed d,
    na_Status := networkStatus (wn_NetConnectionStatus d)\<rparr>"

definition add_detail :: "NetworkAdapter list \<Rightarrow> row_detail \<Rightarrow> NetworkAdapter list" where
  "add_detail ns d =
    map (\<lambda>n. if detail_matches d n then detail_nic d n else n) ns
    @ (if \<not> list_ex (detail_matches d) ns \<and> TrimSpace (wn_Name d) \<noteq> []
       then [detail_nic d (zero_NetworkAdapter\<lparr>na_MACAddress := TrimSpace (wn_MACAddress d)\<rparr>)] else [])"

definition with_network :: "wmi \<Rightarrow> Hardware \<Rightarrow> Hardware" where
  "with_network q h =
    (let ns = foldl add_detail (hw_NIC h @ map adapter_nic (wq_adapters q)) (wq_details q)
     in h\<lparr>hw_NIC := ns, hw_Network := ns\<rparr>)"

section \<open>Displays, security, users\<close>

definition with_displays :: "wmi \<Rightarrow> Hardware \<Rightarrow> Hardware" where
  "with_displays q h = h\<lparr>
    hw_Monitor := hw_Monitor h @ map (\<lambda>m. zero_Monitor\<lparr>mo_Name := TrimSpace (wv_Name m),
      mo_SerialNumber := TrimSpace (wv_PNPDeviceID m), mo_Width := wv_ScreenWidth m, mo_Height := wv_ScreenHeight m\<rparr>)
      (wq_monitors q),
    hw_GPU := hw_GPU h @ map (\<lambda>g. \<lparr>gp_Name = TrimSpace (wg_Name g), gp_DriverVersion = TrimSpace (wg_DriverVersion g),
      gp_Width = wg_CurrentHorizontalResolution g, gp_Height = wg_CurrentVerticalResolution g\<rparr>) (wq_gpus q)\<rparr>"

definition collectSecurity :: "wmi \<Rightarrow> Security" where
  "collectSecurity q =
    (let tpm = (case wq_tpms q of None \<Rightarrow> zero_SecurityState
           | Some ts \<Rightarrow> (case ts of [] \<Rightarrow> zero_SecurityState
               | t # _ \<Rightarrow> \<lparr>ss_Available = True, ss_Enabled = wt_IsEnabled t \<and> wt_IsActivated t,
                   ss_Status = TrimSpace (wt_SpecVersion t)\<rparr>));
         (secureBoot, found) = registryDWORD q (reg_path [''SYSTEM'', ''CurrentControlSet'', ''Control'', ''SecureBoot'', ''State''])
           ''UEFISecureBootEnabled'';
         sb = \<lparr>ss_Available = found, ss_Enabled = found \<and> secureBoot = 1, ss_Status = boolStatus (found \<and> secureBoot = 1) found\<rparr>;
         bl = (case wq_volumes q of None \<Rightarrow> zero_SecurityState
           | Some vs \<Rightarrow> \<lparr>ss_Available = (vs \<noteq> []), ss_Enabled = list_ex (\<lambda>v. v = 1) vs,
               ss_Status = boolStatus (list_ex (\<lambda>v. v = 1) vs) True\<rparr>);
         (disable, disableFound) = registryDWORD q (reg_path [''SOFTWARE'', ''Microsoft'', ''Windows Defender'']) ''DisableAntiSpyware'';
         on = (\<not> disableFound \<or> disable = 0);
         def = (case wq_defender q of
             Some (r # _) \<Rightarrow>
               (let e = wf_AMServiceEnabled r \<and> wf_AntispywareEnabled r \<and> wf_AntivirusEnabled r \<and> wf_RealTimeProtectionEnabled r
                in \<lparr>ss_Available = True, ss_Enabled = e, ss_Status = boolStatus e True\<rparr>)
           | _ \<Rightarrow> \<lparr>ss_Available = True, ss_Enabled = on, ss_Status = boolStatus on True\<rparr>);
         (firewall, firewallFound) = registryDWORD q (reg_path [''SYSTEM'', ''CurrentControlSet'', ''Services'', ''SharedAccess'',
           ''Parameters'', ''FirewallPolicy'', ''StandardProfile'']) ''EnableFirewall'';
         fw = \<lparr>ss_Available = firewallFound, ss_Enabled = firewallFound \<and> firewall \<noteq> 0,
           ss_Status = boolStatus (firewall \<noteq> 0) firewallFound\<rparr>
     in \<lparr>sc_TPM = tpm, sc_SecureBoot = sb, sc_BitLocker = bl, sc_Defender = def, sc_Firewall = fw\<rparr>)"

definition with_users :: "wmi \<Rightarrow> Hardware \<Rightarrow> Hardware" where
  "with_users q h =
    (let path = reg_path [''SOFTWARE'', ''Microsoft'', ''Windows'', ''CurrentVersion'', ''Authentication'', ''LogonUI''];
         l = registryString q path ''LastLoggedOnUser''
     in h\<lparr>hw_Security := collectSecurity q,
          hw_Users := (hw_Users h)\<lparr>us_Last := (if l = [] then registryString q path ''LastLoggedOnDisplayName'' else l)\<rparr>\<rparr>)"

section \<open>The whole snapshot\<close>

definition hardware_of :: "(nat \<Rightarrow> nat) \<Rightarrow> wmi \<Rightarrow> Hardware" where
  "hardware_of u q =
    with_users q (with_displays q (with_network q (with_drives u q (with_volumes u q (with_memory q (with_processors q
      (with_os q (with_board q (with_bios q (with_enclosure q (with_product q (with_system q zero_Hardware))))))))))))"

definition inv_Collect :: "Hardware result go" where
  "inv_Collect = do {
    c \<leftarrow> ctx_Err;
    case c of
      Some err \<Rightarrow> State_Monad.return (Inl err)
    | None \<Rightarrow> do {
        u \<leftarrow> getw (\<lambda>w. o_lower (ev w));
        q \<leftarrow> wmi_read;
        State_Monad.return (Inr (hardware_of u q))
      }
  }"

lemma inv_Collect_frame [simp]: "only_counters (snd (run_state inv_Collect w)) w"
  by (simp add: inv_Collect_def split: option.split)

lemma inv_Collect_error: "fst (run_state inv_Collect w) = Inl err \<Longrightarrow> err = CtxCanceled"
  by (auto simp: inv_Collect_def ctx_Err_def split: option.splits if_splits)

section \<open>Memory in use\<close>

lemma usage_percent_between:
  assumes "used \<le> all" and "0 < all"
  shows "f_between 0 100 (usage_percent used all)"
  unfolding usage_percent_def
proof (rule percentage_between)
  show "uint used \<le> uint all" "0 < uint all" using assms by (simp_all add: word_le_def word_less_def)
  show "uint all \<le> 2 ^ 64" using uint_bounded [of all] by simp
qed simp

definition ram_ok :: "Memory \<Rightarrow> bool" where
  "ram_ok m \<longleftrightarrow> rm_UsedBytes m \<le> rm_TotalBytes m \<and> f_between 0 100 (rm_UsagePercent m)"

lemma ram_scaled_ok: "ram_ok m \<Longrightarrow> ram_ok (ram_scaled m)"
  by (simp add: ram_ok_def ram_scaled_def usage_percent_between)

lemma ram_from_os_ok:
  assumes "ram_ok m" and "rm_UsedBytes m = 0"
  shows "ram_ok (ram_from_os r m)"
proof -
  have "all - avail \<le> all" if "avail < all" for avail all :: u64
    using that by (simp add: word_sub_le order_less_imp_le)
  then have "ram_ok (m\<lparr>rm_AvailableBytes := avail, rm_TotalBytes := all,
      rm_UsedBytes := (if avail < all then all - avail else rm_UsedBytes m)\<rparr>)" for avail all
    using assms by (simp add: ram_ok_def)
  then show ?thesis using assms(1) ram_scaled_ok by (simp add: ram_from_os_def Let_def)
qed

lemma with_ram [simp]:
  "hw_RAM (with_users q h) = hw_RAM h" "hw_RAM (with_displays q h) = hw_RAM h" "hw_RAM (with_network q h) = hw_RAM h"
  "hw_RAM (with_volumes u q h) = hw_RAM h" "hw_RAM (with_processors q h) = hw_RAM h" "hw_RAM (with_board q h) = hw_RAM h"
  "hw_RAM (with_bios q h) = hw_RAM h" "hw_RAM (with_enclosure q h) = hw_RAM h" "hw_RAM (with_product q h) = hw_RAM h"
  by (simp_all add: with_users_def with_displays_def with_network_def with_volumes_def with_processors_def with_board_def
      with_bios_def with_enclosure_def with_product_def Let_def split: list.split)

lemma add_drives_frame [simp]: "hw_RAM (foldl (add_drive u s) h ds) = hw_RAM h"
  by (induction ds arbitrary: h) (simp_all add: add_drive_def Let_def)

lemma with_drives_ram [simp]: "hw_RAM (with_drives u q h) = hw_RAM h"
  by (simp add: with_drives_def Let_def)

lemma hardware_ram_ok: "ram_ok (hw_RAM (hardware_of u q))"
proof -
  define h where "h = with_board q (with_bios q (with_enclosure q (with_product q (with_system q zero_Hardware))))"
  have z: "f_between 0 100 zero_f" by (simp add: zero_f_def)
  have h: "ram_ok (hw_RAM h)" "rm_UsedBytes (hw_RAM h) = 0"
    by (simp_all add: h_def with_system_def zero_Hardware_def zero_Memory_def ram_ok_def z split: list.split)
  have "ram_ok (hw_RAM (with_os q h))"
    using h by (auto simp: with_os_def Let_def ram_from_os_ok ram_scaled_ok split: list.split)
  then show ?thesis by (simp add: hardware_of_def h_def [symmetric] with_memory_def ram_ok_def)
qed

section \<open>Volumes keep their type unknown\<close>

lemma Contains_letters: "Contains s sub \<Longrightarrow> set sub \<subseteq> set s"
proof (induction s)
  case (Cons c s)
  then show ?case using set_take_subset [of "length sub" "c # s"] by (auto simp: HasPrefix_def)
qed simp

lemma digits_lower: "list_all is_digit ds \<Longrightarrow> ToLower u (ds @ '' '') = ds @ '' ''"
proof -
  assume ds: "list_all is_digit ds"
  have "is_digit c \<Longrightarrow> ascii_lower c = c \<and> byte_val c < 0x80" for c
    by (auto simp: is_digit_def ascii_lower_def byte_val_def)
  with ds have "map ascii_lower ds = ds" "list_all (\<lambda>c. byte_val c < 0x80) ds" by (induction ds) auto
  moreover have "ascii_lower (CHR '' '') = CHR '' ''" by (simp add: ascii_lower_def)
  ultimately show ?thesis by (simp add: ToLower_def is_ascii_def byte_val_def)
qed

text \<open>The media type of a volume is a number, which names no kind of storage.\<close>

lemma volume_type: "0 \<le> n \<Longrightarrow> normalizeStorageType u (FormatInt n) [] = ''unknown''"
proof -
  assume "0 \<le> n"
  then have ds: "list_all is_digit (FormatInt n)" using nat_digits_inverse by (simp add: FormatInt_def)
  have no: "\<not> Contains (FormatInt n @ '' '') sub" if "c \<in> set sub" "\<not> is_digit c" "c \<noteq> CHR '' ''" for c sub
    using Contains_letters [of "FormatInt n @ '' ''" sub] that ds by (auto simp: list_all_iff)
  have "\<not> Contains (FormatInt n @ '' '') ''nvme''" by (rule no [of "CHR ''n''"]) (simp_all add: is_digit_def)
  moreover have "\<not> Contains (FormatInt n @ '' '') ''ssd''" by (rule no [of "CHR ''s''"]) (simp_all add: is_digit_def)
  moreover have "\<not> Contains (FormatInt n @ '' '') ''solid''" by (rule no [of "CHR ''s''"]) (simp_all add: is_digit_def)
  moreover have "\<not> Contains (FormatInt n @ '' '') ''hdd''" by (rule no [of "CHR ''h''"]) (simp_all add: is_digit_def)
  moreover have "\<not> Contains (FormatInt n @ '' '') ''hard''" by (rule no [of "CHR ''h''"]) (simp_all add: is_digit_def)
  ultimately show ?thesis by (simp add: normalizeStorageType_def digits_lower [OF ds] Let_def)
qed

section \<open>Which step sets which section\<close>

lemma with_disk [simp]:
  "hw_Disk (with_users q h) = hw_Disk h" "hw_Disk (with_displays q h) = hw_Disk h" "hw_Disk (with_network q h) = hw_Disk h"
  "hw_Disk (with_memory q h) = hw_Disk h" "hw_Disk (with_processors q h) = hw_Disk h" "hw_Disk (with_os q h) = hw_Disk h"
  "hw_Disk (with_board q h) = hw_Disk h" "hw_Disk (with_bios q h) = hw_Disk h" "hw_Disk (with_enclosure q h) = hw_Disk h"
  "hw_Disk (with_product q h) = hw_Disk h" "hw_Disk (with_system q h) = hw_Disk h"
  by (simp_all add: with_users_def with_displays_def with_network_def with_memory_def with_processors_def with_os_def
      with_board_def with_bios_def with_enclosure_def with_product_def with_system_def Let_def split: list.split)

lemma with_storage [simp]:
  "hw_Storage (with_users q h) = hw_Storage h" "hw_Storage (with_displays q h) = hw_Storage h"
  "hw_Storage (with_network q h) = hw_Storage h" "hw_Storage (with_volumes u q h) = hw_Storage h"
  "hw_Storage (with_memory q h) = hw_Storage h" "hw_Storage (with_processors q h) = hw_Storage h"
  "hw_Storage (with_os q h) = hw_Storage h" "hw_Storage (with_board q h) = hw_Storage h"
  "hw_Storage (with_bios q h) = hw_Storage h" "hw_Storage (with_enclosure q h) = hw_Storage h"
  "hw_Storage (with_product q h) = hw_Storage h" "hw_Storage (with_system q h) = hw_Storage h"
  by (simp_all add: with_users_def with_displays_def with_network_def with_volumes_def with_memory_def with_processors_def
      with_os_def with_board_def with_bios_def with_enclosure_def with_product_def with_system_def Let_def split: list.split)

lemma with_nic [simp]:
  "hw_NIC (with_users q h) = hw_NIC h" "hw_NIC (with_displays q h) = hw_NIC h" "hw_NIC (with_volumes u q h) = hw_NIC h"
  "hw_NIC (with_memory q h) = hw_NIC h" "hw_NIC (with_processors q h) = hw_NIC h" "hw_NIC (with_os q h) = hw_NIC h"
  "hw_NIC (with_board q h) = hw_NIC h" "hw_NIC (with_bios q h) = hw_NIC h" "hw_NIC (with_enclosure q h) = hw_NIC h"
  "hw_NIC (with_product q h) = hw_NIC h" "hw_NIC (with_system q h) = hw_NIC h"
  "hw_Network (with_users q h) = hw_Network h" "hw_Network (with_displays q h) = hw_Network h"
  by (simp_all add: with_users_def with_displays_def with_volumes_def with_memory_def with_processors_def
      with_os_def with_board_def with_bios_def with_enclosure_def with_product_def with_system_def Let_def split: list.split)

lemma add_drives_nic [simp]: "hw_NIC (foldl (add_drive u s) h ds) = hw_NIC h"
  by (induction ds arbitrary: h) (simp_all add: add_drive_def Let_def)

lemma add_drives_general [simp]:
  "hw_General (foldl (add_drive u s) h ds) = hw_General h" "hw_SerialNumber (foldl (add_drive u s) h ds) = hw_SerialNumber h"
  by (induction ds arbitrary: h) (simp_all add: add_drive_def Let_def)

lemma with_drives_nic [simp]:
  "hw_NIC (with_drives u q h) = hw_NIC h" "hw_General (with_drives u q h) = hw_General h"
  "hw_SerialNumber (with_drives u q h) = hw_SerialNumber h"
  by (simp_all add: with_drives_def Let_def)

lemma with_general [simp]:
  "hw_General (with_users q h) = hw_General h" "hw_General (with_displays q h) = hw_General h"
  "hw_General (with_network q h) = hw_General h" "hw_General (with_volumes u q h) = hw_General h"
  "hw_General (with_memory q h) = hw_General h" "hw_General (with_processors q h) = hw_General h"
  "hw_General (with_os q h) = hw_General h" "hw_General (with_board q h) = hw_General h"
  "hw_SerialNumber (with_users q h) = hw_SerialNumber h" "hw_SerialNumber (with_displays q h) = hw_SerialNumber h"
  "hw_SerialNumber (with_network q h) = hw_SerialNumber h" "hw_SerialNumber (with_volumes u q h) = hw_SerialNumber h"
  "hw_SerialNumber (with_memory q h) = hw_SerialNumber h" "hw_SerialNumber (with_processors q h) = hw_SerialNumber h"
  "hw_SerialNumber (with_os q h) = hw_SerialNumber h" "hw_SerialNumber (with_board q h) = hw_SerialNumber h"
  by (simp_all add: with_users_def with_displays_def with_network_def with_volumes_def with_memory_def with_processors_def
      with_os_def with_board_def Let_def split: list.split)

section \<open>Devices of a snapshot\<close>

lemma add_volumes_devices:
  "di_Devices (foldl (add_volume u) i ds) = di_Devices i @ map (volume_device u) (filter (\<lambda>d. wl_Size d \<noteq> 0) ds)"
  by (induction ds arbitrary: i) (simp_all add: add_volume_def)

lemma with_volumes_devices:
  "di_Devices (hw_Disk (with_volumes u q h)) =
    di_Devices (hw_Disk h) @ map (volume_device u) (filter (\<lambda>d. wl_Size d \<noteq> 0) (wq_logical q))"
  by (simp add: with_volumes_def add_volumes_devices Let_def)

lemma add_drives_devices:
  "di_Devices (hw_Disk (foldl (add_drive u s) h ds)) =
    map (\<lambda>v. foldl (\<lambda>v d. identify_volume u s d v) v ds) (di_Devices (hw_Disk h))"
  by (induction ds arbitrary: h) (simp_all add: add_drive_def Let_def)

lemma add_drives_storage:
  "hw_Storage (foldl (add_drive u s) h ds) = hw_Storage h @ map (drive_device u s) (filter (\<lambda>d. 0 < wd_Size d) ds)"
  by (induction ds arbitrary: h) (simp_all add: add_drive_def Let_def)

lemma hardware_devices:
  "di_Devices (hw_Disk (hardware_of u q)) =
    map (\<lambda>v. foldl (\<lambda>v d. identify_volume u (collectSMARTStatus q) d v) v (wq_drives q))
      (map (volume_device u) (filter (\<lambda>d. wl_Size d \<noteq> 0) (wq_logical q)))"
  "hw_Storage (hardware_of u q) = map (drive_device u (collectSMARTStatus q)) (filter (\<lambda>d. 0 < wd_Size d) (wq_drives q))"
  unfolding hardware_of_def with_disk with_storage
  by (simp_all add: with_drives_def Let_def add_drives_devices add_drives_storage with_volumes_devices zero_Hardware_def
      zero_DiskInventory_def)

lemma HasPrefix_length: "HasPrefix s p \<Longrightarrow> length p \<le> length s"
  unfolding HasPrefix_def by (metis length_take min.cobounded1)

lemma identify_id:
  "\<forall>d\<in>set ds. length (sd_DeviceID v) < length (wd_DeviceID d) \<Longrightarrow> foldl (\<lambda>v d. identify_volume u s d v) v ds = v"
  by (induction ds) (auto simp: identify_volume_def dest: HasPrefix_length)

section \<open>Vocabulary\<close>

definition storage_types :: "string set" where
  "storage_types = {''NVMe'', ''SSD'', ''HDD'', ''unknown''}"

definition smart_states :: "string set" where
  "smart_states = {[], ''unknown'', ''failure'', ''healthy''}"

lemma storage_type: "normalizeStorageType u a b \<in> storage_types"
  by (simp add: normalizeStorageType_def storage_types_def Let_def)

lemma smart_state: "collectSMARTStatus q \<in> smart_states"
  by (simp add: collectSMARTStatus_def smart_states_def split: option.split)

lemma identify_vocabulary:
  assumes "sd_Type v \<in> storage_types \<and> sd_SMARTStatus v \<in> smart_states" and "s \<in> smart_states"
  shows "sd_Type (foldl (\<lambda>v d. identify_volume u s d v) v ds) \<in> storage_types
    \<and> sd_SMARTStatus (foldl (\<lambda>v d. identify_volume u s d v) v ds) \<in> smart_states"
  using assms(1)
proof (induction ds arbitrary: v)
  case (Cons d ds)
  then show ?case using assms(2) by (simp add: identify_volume_def storage_type)
qed simp

lemma nic_status:
  assumes "\<forall>n\<in>set ns. na_Status n \<in> {''up'', ''down'', ''unknown''}"
  shows "\<forall>n\<in>set (foldl add_detail ns ds). na_Status n \<in> {''up'', ''down'', ''unknown''}"
  using assms
proof (induction ds arbitrary: ns)
  case (Cons d ds)
  then have "\<forall>n\<in>set (add_detail ns d). na_Status n \<in> {''up'', ''down'', ''unknown''}"
    by (auto simp: add_detail_def detail_nic_def networkStatus_def)
  with Cons.IH show ?case by simp
qed simp

definition available_if_enabled :: "SecurityState \<Rightarrow> bool" where
  "available_if_enabled s \<longleftrightarrow> (ss_Enabled s \<longrightarrow> ss_Available s)"

lemma security_available:
  "available_if_enabled (sc_TPM (collectSecurity q))" "available_if_enabled (sc_SecureBoot (collectSecurity q))"
  "available_if_enabled (sc_BitLocker (collectSecurity q))" "available_if_enabled (sc_Defender (collectSecurity q))"
  "available_if_enabled (sc_Firewall (collectSecurity q))"
  by (auto simp: collectSecurity_def available_if_enabled_def zero_SecurityState_def Let_def split: option.split list.split prod.split)

section \<open>Properties\<close>

text \<open>
  Whatever the queries return, and although their numbers are scaled with wrap-around, a snapshot never
  reports more memory in use than there is, and the percentage is a float between 0 and 100.
\<close>

theorem memory_usage_bounds:
  "rm_UsedBytes (hw_RAM (hardware_of u q)) \<le> rm_TotalBytes (hw_RAM (hardware_of u q))
    \<and> f_between 0 100 (rm_UsagePercent (hw_RAM (hardware_of u q)))"
  using hardware_ram_ok by (simp add: ram_ok_def)

text \<open>
  C35. The values of a snapshot stay within their vocabulary: storage types, SMART states and adapter states are the
  names the source knows, the two adapter lists and the two serial numbers agree, and no security feature
  is enabled without being available.
\<close>

theorem snapshot_vocabulary:
  "(\<forall>d\<in>set (di_Devices (hw_Disk (hardware_of u q)) @ hw_Storage (hardware_of u q)).
      sd_Type d \<in> storage_types \<and> sd_SMARTStatus d \<in> smart_states)
    \<and> (\<forall>n\<in>set (hw_NIC (hardware_of u q)). na_Status n \<in> {''up'', ''down'', ''unknown''})
    \<and> hw_Network (hardware_of u q) = hw_NIC (hardware_of u q)
    \<and> hw_SerialNumber (hardware_of u q) = gn_SerialNumber (hw_General (hardware_of u q))
    \<and> (\<forall>s\<in>{sc_TPM, sc_SecureBoot, sc_BitLocker, sc_Defender, sc_Firewall}. available_if_enabled (s (hw_Security (hardware_of u q))))"
proof (intro conjI)
  have "sd_Type (volume_device u d) \<in> storage_types \<and> sd_SMARTStatus (volume_device u d) \<in> smart_states" for d
    by (simp add: volume_device_def storage_type zero_StorageDevice_def smart_states_def Let_def)
  note v = identify_vocabulary [OF this smart_state]
  have "sd_Type (drive_device u s d) \<in> storage_types \<and> sd_SMARTStatus (drive_device u s d) = s" for s d
    by (simp add: drive_device_def storage_type)
  with v show "\<forall>d\<in>set (di_Devices (hw_Disk (hardware_of u q)) @ hw_Storage (hardware_of u q)).
      sd_Type d \<in> storage_types \<and> sd_SMARTStatus d \<in> smart_states"
    unfolding hardware_devices using smart_state by (auto simp: comp_def)
  have nics: "hw_NIC (with_network q h) = foldl add_detail (hw_NIC h @ map adapter_nic (wq_adapters q)) (wq_details q)"
    "hw_Network (with_network q h) = hw_NIC (with_network q h)" for h by (simp_all add: with_network_def Let_def)
  have "hw_NIC (hardware_of u q) = foldl add_detail (map adapter_nic (wq_adapters q)) (wq_details q)"
    unfolding hardware_of_def by (simp add: nics(1) zero_Hardware_def)
  then show "\<forall>n\<in>set (hw_NIC (hardware_of u q)). na_Status n \<in> {''up'', ''down'', ''unknown''}"
    using nic_status [of "map adapter_nic (wq_adapters q)" "wq_details q"] by (auto simp: adapter_nic_def)
  show "hw_Network (hardware_of u q) = hw_NIC (hardware_of u q)" unfolding hardware_of_def by (simp add: nics(2))
  have "hw_SerialNumber (with_bios q h) = gn_SerialNumber (hw_General (with_bios q h))" for h
    by (simp add: with_bios_def Let_def split: list.split)
  then show "hw_SerialNumber (hardware_of u q) = gn_SerialNumber (hw_General (hardware_of u q))"
    unfolding hardware_of_def by simp
  have "hw_Security (hardware_of u q) = collectSecurity q" by (simp add: hardware_of_def with_users_def Let_def)
  then show "\<forall>s\<in>{sc_TPM, sc_SecureBoot, sc_BitLocker, sc_Defender, sc_Firewall}. available_if_enabled (s (hw_Security (hardware_of u q)))"
    using security_available by simp
qed

text \<open>
  C38. Volumes are never matched with the drive they are on. A volume is looked up by the identifier of a drive as a
  prefix of its own; Windows names volumes like \<open>C:\<close> and drives by longer device paths, and then every volume
  is reported without model, serial number, health and SMART state, and its type as unknown.
\<close>

theorem volumes_unidentified:
  assumes "\<forall>v\<in>set (wq_logical q). \<forall>d\<in>set (wq_drives q). length (TrimSpace (wl_DeviceID v)) < length (wd_DeviceID d)"
  shows "\<forall>d\<in>set (di_Devices (hw_Disk (hardware_of u q))).
    sd_Type d = ''unknown'' \<and> sd_Model d = [] \<and> sd_SerialNumber d = [] \<and> sd_Health d = [] \<and> sd_SMARTStatus d = []"
proof -
  have id: "sd_DeviceID (volume_device u v) = TrimSpace (wl_DeviceID v)" for v by (simp add: volume_device_def Let_def)
  have "foldl (\<lambda>v d. identify_volume u (collectSMARTStatus q) d v) (volume_device u v) (wq_drives q) = volume_device u v"
    if "v \<in> set (wq_logical q)" for v
    by (rule identify_id) (use assms that id in simp)
  moreover have "sd_Type (volume_device u v) = ''unknown''" "sd_Model (volume_device u v) = []"
    "sd_SerialNumber (volume_device u v) = []" "sd_Health (volume_device u v) = []" "sd_SMARTStatus (volume_device u v) = []" for v
    by (simp_all add: volume_device_def volume_type zero_StorageDevice_def Let_def)
  ultimately show ?thesis by (auto simp: hardware_devices)
qed

definition machine1 :: wmi where
  "machine1 = wmi_none\<lparr>
    wq_logical := [\<lparr>wl_DeviceID = ''C:'', wl_FileSystem = ''NTFS'', wl_MediaType = 12, wl_Size = 1000, wl_FreeSpace = 10,
      wl_DriveType = 3\<rparr>],
    wq_drives := [\<lparr>wd_DeviceID = reg_path [[], [], ''.'', ''PHYSICALDRIVE0''], wd_Model = ''Samsung SSD'', wd_SerialNumber = ''S1'',
      wd_MediaType = ''Fixed hard disk media'', wd_Status = ''OK'', wd_Size = 2000\<rparr>]\<rparr>"

theorem snapshot_vocabulary_witness:
  "list_all (\<lambda>d. sd_Type d \<in> storage_types) (di_Devices (hw_Disk (hardware_of (\<lambda>r. r) machine1)))
    \<and> hw_Network (hardware_of (\<lambda>r. r) machine1) = hw_NIC (hardware_of (\<lambda>r. r) machine1)"
  using snapshot_vocabulary [of "\<lambda>r. r" machine1] by (auto simp: list_all_iff)

theorem volumes_unidentified_witness:
  "list_all (\<lambda>d. sd_Model d = [] \<and> sd_Type d = ''unknown'') (di_Devices (hw_Disk (hardware_of (\<lambda>r. r) machine1)))"
proof -
  have "length (TrimSpace ''C:'') = 2"
    using TrimSpace_Join [of "[''C:'']"] by (simp add: plain_word_space_free plain_word_def)
  moreover have "2 < length (reg_path [[], [], ''.'', ''PHYSICALDRIVE0''])" by code_simp
  ultimately have "\<forall>v\<in>set (wq_logical machine1). \<forall>d\<in>set (wq_drives machine1).
      length (TrimSpace (wl_DeviceID v)) < length (wd_DeviceID d)"
    by (simp add: machine1_def)
  then show ?thesis using volumes_unidentified by (simp add: list_all_iff)
qed

end
