(* ===== verification/Heartbeat.thy ===== *)
theory Heartbeat
  imports Sync GoUnmarshal
begin

text \<open>
  Package \<open>internal/heartbeat\<close>: the liveness payload with its health classification, the interval the Portal
  configures, one beat (\<open>send\<close> in the source) and the loop. Float arithmetic is that of \<open>GoFloat\<close>; the
  readings come from one PowerShell command, whose error and output are part of the environment. Log
  messages are left out.
\<close>

section \<open>Data\<close>

definition hb_DefaultInterval :: int where "hb_DefaultInterval = 30 * Second"

record Health =
  he_CPU :: f64
  he_Memory :: f64
  he_Disk :: f64
  he_Overall :: f64
  he_Status :: string

record hb_Payload =
  hp_AgentUUID :: string
  hp_CurrentTimestamp :: string
  hp_Hostname :: string
  hp_ComputerName :: string
  hp_AgentVersion :: string
  hp_OSName :: string
  hp_OSVersion :: string
  hp_Architecture :: string
  hp_CurrentLoggedUser :: string
  hp_IPAddress :: string
  hp_MACAddress :: string
  hp_CPUUsage :: f64
  hp_MemoryUsage :: f64
  hp_DiskUsage :: f64
  hp_SystemUptime :: int
  hp_PortalLatency :: int
  hp_Health :: Health

record metrics =
  me_OSVersion :: string
  me_LoggedUser :: string
  me_IPAddress :: string
  me_MACAddress :: string
  me_CPU :: f64
  me_Memory :: f64
  me_Disk :: f64
  me_Uptime :: int

record hb_engine =
  hb_Sync :: engine
  hb_Version :: string

text \<open>\<open>json.Marshal\<close> of a payload; it fails on a float that is infinite or not a number.\<close>

definition health_json :: "Health \<Rightarrow> json option" where
  "health_json h =
    (case (json_float (he_CPU h), json_float (he_Memory h), json_float (he_Disk h), json_float (he_Overall h)) of
       (Some c, Some m, Some d, Some ov) \<Rightarrow>
         Some (JObj [(''cpu'', JNum c), (''memory'', JNum m), (''disk'', JNum d), (''overall'', JNum ov),
           (''status'', JStr (he_Status h))])
     | _ \<Rightarrow> None)"

definition hb_marshal :: "hb_Payload \<Rightarrow> string result" where
  "hb_marshal p =
    (case (json_float (hp_CPUUsage p), json_float (hp_MemoryUsage p), json_float (hp_DiskUsage p), health_json (hp_Health p)) of
       (Some c, Some m, Some d, Some h) \<Rightarrow>
         Inr (json_print (JObj
           [(''agentUuid'', JStr (hp_AgentUUID p)), (''timestamp'', JStr (hp_CurrentTimestamp p)),
            (''hostname'', JStr (hp_Hostname p)), (''computerName'', JStr (hp_ComputerName p)),
            (''agentVersion'', JStr (hp_AgentVersion p)), (''operatingSystem'', JStr (hp_OSName p)),
            (''osVersion'', JStr (hp_OSVersion p)), (''architecture'', JStr (hp_Architecture p)),
            (''loggedUser'', JStr (hp_CurrentLoggedUser p)), (''ipAddress'', JStr (hp_IPAddress p)),
            (''macAddress'', JStr (hp_MACAddress p)), (''cpuUsage'', JNum c), (''ramUsage'', JNum m), (''diskUsage'', JNum d),
            (''systemUptime'', JNum (FormatInt (hp_SystemUptime p))),
            (''portalLatency'', JNum (FormatInt (hp_PortalLatency p))), (''health'', h)]))
     | _ \<Rightarrow> Inl (Errorf ''json''))"

section \<open>Health\<close>

text \<open>The loop over the readings, with the total, the maximum and the count of those in range.\<close>

definition health_step :: "f64 \<times> f64 \<times> int \<Rightarrow> f64 \<Rightarrow> f64 \<times> f64 \<times> int" where
  "health_step acc v =
    (let (total, maximum, count) = acc
     in if f_lt v (Fin False 0) \<or> f_lt (Fin False 100) v then acc
        else (f_add total v, if f_lt maximum v then v else maximum, count + 1))"

definition health_status :: "f64 \<Rightarrow> f64 \<Rightarrow> string" where
  "health_status maximum overall =
    (if f_le (Fin False 90) maximum \<or> f_le (Fin False 85) overall then ''Critical''
     else if f_le (Fin False 75) maximum \<or> f_le (Fin False 65) overall then ''Warning''
     else ''Healthy'')"

definition CalculateHealth :: "f64 \<Rightarrow> f64 \<Rightarrow> f64 \<Rightarrow> Health" where
  "CalculateHealth cpu memory disk =
    (let (total, maximum, count) = foldl health_step (Fin False 0, Fin False 0, 0) [cpu, memory, disk];
         overall = (if 0 < count then f_div total (f_of_int count) else Fin False 0)
     in \<lparr>he_CPU = cpu, he_Memory = memory, he_Disk = disk, he_Overall = overall,
         he_Status = health_status maximum overall\<rparr>)"

section \<open>Readings\<close>

definition metrics_command :: string where
  \<open>metrics_command = ''$os=Get-CimInstance Win32_OperatingSystem; $cs=Get-CimInstance Win32_ComputerSystem; $cpuSamples=@(); 1..3 | ForEach-Object { $sample=(Get-CimInstance Win32_Processor | Measure-Object -Property LoadPercentage -Average).Average; if ($null -ne $sample) { $cpuSamples += [double]$sample }; if ($_ -lt 3) { Start-Sleep -Milliseconds 1000 } }; $cpu=if ($cpuSamples.Count -gt 0) { ($cpuSamples | Measure-Object -Average).Average } else { 0 }; $disk=Get-CimInstance Win32_LogicalDisk -Filter "DeviceID='C:'"; $ip=(Get-NetIPAddress -AddressFamily IPv4 -ErrorAction SilentlyContinue | Where-Object {$_.IPAddress -notlike '127.*' -and $_.PrefixOrigin -ne 'WellKnown'} | Select-Object -First 1 -ExpandProperty IPAddress); $mac=(Get-NetAdapter -ErrorAction SilentlyContinue | Where-Object Status -eq 'Up' | Select-Object -First 1 -ExpandProperty MacAddress); [pscustomobject]@'' @ ''{OSVersion=$os.Caption+' '+$os.Version; LoggedUser=$cs.UserName; IPAddress=$ip; MACAddress=$mac; CPU=$cpu; Memory=(100-($os.FreePhysicalMemory/$os.TotalVisibleMemorySize*100)); Disk=(100-($disk.FreeSpace/$disk.Size*100)); Uptime=((Get-Date)-$os.LastBootUpTime).TotalSeconds} | ConvertTo-Json -Compress''\<close>

definition no_metrics :: metrics where
  "no_metrics = \<lparr>me_OSVersion = ''unknown'', me_LoggedUser = [], me_IPAddress = [], me_MACAddress = [],
    me_CPU = Fin False 0, me_Memory = Fin False 0, me_Disk = Fin False 0, me_Uptime = 0\<rparr>"

text \<open>What the output of the command says, if it is the object that is expected.\<close>

definition decode_metrics :: "string \<Rightarrow> metrics option" where
  "decode_metrics output =
    (case Unmarshal_object output of
       None \<Rightarrow> None
     | Some ms \<Rightarrow>
       if string_ok ''OSVersion'' ms \<and> string_ok ''LoggedUser'' ms \<and> string_ok ''IPAddress'' ms
         \<and> string_ok ''MACAddress'' ms \<and> float_ok ''CPU'' ms \<and> float_ok ''Memory'' ms \<and> float_ok ''Disk'' ms
         \<and> float_ok ''Uptime'' ms
       then Some \<lparr>me_OSVersion = TrimSpace (string_field ''OSVersion'' ms),
         me_LoggedUser = TrimSpace (string_field ''LoggedUser'' ms),
         me_IPAddress = TrimSpace (string_field ''IPAddress'' ms),
         me_MACAddress = TrimSpace (string_field ''MACAddress'' ms),
         me_CPU = float_field ''CPU'' ms, me_Memory = float_field ''Memory'' ms, me_Disk = float_field ''Disk'' ms,
         me_Uptime = f_int64 (float_field ''Uptime'' ms)\<rparr>
       else None)"

definition readMetrics :: "metrics go" where
  "readMetrics = do {
    r \<leftarrow> exec [''powershell.exe'', ''-NoProfile'', ''-NonInteractive'', ''-Command'', metrics_command];
    State_Monad.return (case fst r of
      Some _ \<Rightarrow> no_metrics
    | None \<Rightarrow> (case decode_metrics (snd r) of Some m \<Rightarrow> m | None \<Rightarrow> no_metrics))
  }"

section \<open>The interval\<close>

definition hb_value :: "json option \<Rightarrow> int option" where
  "hb_value v =
    (case v of
       Some (JNum t) \<Rightarrow>
         (case ParseFloat t of
            Some f \<Rightarrow> if f_lt (Fin False 0) f then Some (wrap64 (f_int64 f * Second)) else None
          | None \<Rightarrow> None)
     | Some (JStr s) \<Rightarrow> (case ParseDuration s of Some d \<Rightarrow> if 0 < d then Some d else None | None \<Rightarrow> None)
     | _ \<Rightarrow> None)"

definition hb_first :: "(string \<Rightarrow> json option) \<Rightarrow> int" where
  "hb_first raw =
    (case hb_value (raw ''heartbeatInterval'') of
       Some d \<Rightarrow> d
     | None \<Rightarrow> (case hb_value (raw ''heartbeat_interval'') of Some d \<Rightarrow> d | None \<Rightarrow> hb_DefaultInterval))"

definition ConfiguredInterval :: "int go" where
  "ConfiguredInterval = do {
    r \<leftarrow> Get ''portal_configuration'';
    State_Monad.return (case r of
      Inr (Some v) \<Rightarrow> (case Unmarshal_map v of Some raw \<Rightarrow> hb_first raw | None \<Rightarrow> hb_DefaultInterval)
    | _ \<Rightarrow> hb_DefaultInterval)
  }"

section \<open>One beat\<close>

definition hb_collect :: "hb_engine \<Rightarrow> hb_Payload result go" where
  "hb_collect e = do {
    uuid \<leftarrow> Get ''agent_uuid'';
    case uuid of
      Inl err \<Rightarrow> State_Monad.return (Inl err)
    | Inr u \<Rightarrow>
      if u = None \<or> u = Some [] then State_Monad.return (Inl ErrNotRegistered)
      else do {
        E \<leftarrow> getw ev;
        case o_hostname E of
          Inl m \<Rightarrow> State_Monad.return (Inl (Wrapf ''read hostname: '' (Errorf m) []))
        | Inr hostname \<Rightarrow> do {
            m \<leftarrow> readMetrics;
            l \<leftarrow> Get ''heartbeat_last_latency_ms'';
            now \<leftarrow> Time_Now;
            State_Monad.return (Inr
              \<lparr>hp_AgentUUID = the u, hp_CurrentTimestamp = FormatRFC3339 now, hp_Hostname = hostname,
               hp_ComputerName = hostname, hp_AgentVersion = hb_Version e, hp_OSName = ''windows'',
               hp_OSVersion = me_OSVersion m, hp_Architecture = o_goarch E, hp_CurrentLoggedUser = me_LoggedUser m,
               hp_IPAddress = me_IPAddress m, hp_MACAddress = me_MACAddress m, hp_CPUUsage = me_CPU m,
               hp_MemoryUsage = me_Memory m, hp_DiskUsage = me_Disk m, hp_SystemUptime = me_Uptime m,
               hp_PortalLatency = (case l of Inr (Some v) \<Rightarrow> ParseInt64 v | _ \<Rightarrow> 0),
               hp_Health = CalculateHealth (me_CPU m) (me_Memory m) (me_Disk m)\<rparr>)
          }
      }
  }"

definition hb_persistSuccess :: "sync_result \<Rightarrow> Health \<Rightarrow> unit go" where
  "hb_persistSuccess result health = do {
    now \<leftarrow> Time_Now;
    Put ''heartbeat_last_success'' (FormatRFC3339 now);
    Put ''heartbeat_last_latency_ms'' (FormatInt (Milliseconds (res_Latency result)));
    Put ''heartbeat_last_health'' (he_Status health);
    Put ''heartbeat_last_cpu'' (FormatFloat2 (he_CPU health));
    Put ''heartbeat_last_memory'' (FormatFloat2 (he_Memory health));
    Put ''heartbeat_last_disk'' (FormatFloat2 (he_Disk health));
    Put ''heartbeat_last_error'' [];
    State_Monad.return ()
  }"

definition hb_persistFailure :: "error \<Rightarrow> unit go" where
  "hb_persistFailure err = do { Put ''heartbeat_last_error'' (error_msg err); State_Monad.return () }"

definition hb_send :: "hb_engine \<Rightarrow> (sync_result \<times> error option) go" where
  "hb_send e = do {
    previousError \<leftarrow> Get ''heartbeat_last_error'';
    flushed \<leftarrow> Flush (hb_Sync e);
    collected \<leftarrow> hb_collect e;
    case collected of
      Inl err \<Rightarrow> do { hb_persistFailure err; State_Monad.return (no_result, Some err) }
    | Inr payload \<Rightarrow> do {
        sent \<leftarrow> SendJSON (hb_Sync e) ''/api/agent/heartbeat'' HeartbeatType (hb_marshal payload);
        case snd sent of
          Some err \<Rightarrow> do { hb_persistFailure err; State_Monad.return sent }
        | None \<Rightarrow> do { hb_persistSuccess (fst sent) (hp_Health payload); State_Monad.return sent }
      }
  }"

text \<open>
  The loop beats at once and waits one interval before every other beat. It ends with the context, during a
  wait or after a beat that failed because of it; each unit of fuel is one turn.
\<close>

fun hb_Run :: "nat \<Rightarrow> bool \<Rightarrow> hb_engine \<Rightarrow> bool go" where
  "hb_Run 0 started e = State_Monad.return False"
| "hb_Run (Suc fuel) started e = do {
    done \<leftarrow> (if started then do { d \<leftarrow> ConfiguredInterval; select_done d } else State_Monad.return False);
    if done then State_Monad.return True
    else do {
      r \<leftarrow> hb_send e;
      case snd r of
        None \<Rightarrow> hb_Run fuel True e
      | Some _ \<Rightarrow> do { c \<leftarrow> ctx_Err; if c \<noteq> None then State_Monad.return True else hb_Run fuel True e }
    }
  }"

section \<open>Frames\<close>

lemma readMetrics_frame [simp]:
  "ev (snd (run_state readMetrics w)) = ev w"
  "same_tables (snd (run_state readMetrics w)) w"
  "wire (snd (run_state readMetrics w)) = wire w"
  "slept (snd (run_state readMetrics w)) = slept w"
  by (simp_all add: readMetrics_def)

lemma ConfiguredInterval_frame [simp]: "only_counters (snd (run_state ConfiguredInterval w)) w"
  by (simp add: ConfiguredInterval_def)

lemma hb_collect_frame [simp]:
  "ev (snd (run_state (hb_collect e) w)) = ev w"
  "same_tables (snd (run_state (hb_collect e) w)) w"
  "wire (snd (run_state (hb_collect e) w)) = wire w"
  "slept (snd (run_state (hb_collect e) w)) = slept w"
  by (simp_all add: hb_collect_def split: sum.split)

lemma hb_persist_frame [simp]:
  "only_config (snd (run_state (hb_persistSuccess r h) w)) w"
  "only_config (snd (run_state (hb_persistFailure err) w)) w"
  by (simp_all add: hb_persistSuccess_def hb_persistFailure_def)

lemma hb_send_frame [simp]:
  "ev (snd (run_state (hb_send e) w)) = ev w"
  "history_tab (snd (run_state (hb_send e) w)) = history_tab w"
  "config_file (snd (run_state (hb_send e) w)) = config_file w"
  by (simp_all add: hb_send_def split: option.split sum.split)

lemma hb_send_wf: "queue_wf w \<Longrightarrow> queue_wf (snd (run_state (hb_send e) w))"
  by (simp add: hb_send_def Flush_wf SendJSON_wf split: option.split sum.split)

section \<open>The classification of readings\<close>

definition in_range :: "f64 \<Rightarrow> bool" where
  "in_range v \<longleftrightarrow> \<not> f_lt v (Fin False 0) \<and> \<not> f_lt (Fin False 100) v"

definition finite_f :: "f64 \<Rightarrow> bool" where
  "finite_f v \<longleftrightarrow> (\<exists>s m. v = Fin s m)"

lemma finite_Fin [simp]: "finite_f (Fin s m)"
  unfolding finite_f_def by blast

lemma in_range_finite: "finite_f v \<Longrightarrow> in_range v \<longleftrightarrow> f_between 0 100 v"
  by (auto simp: finite_f_def in_range_def f_between_def)

text \<open>The step for a reading in range.\<close>

definition health_add :: "f64 \<times> f64 \<times> int \<Rightarrow> f64 \<Rightarrow> f64 \<times> f64 \<times> int" where
  "health_add acc v =
    (f_add (fst acc) v, if f_lt (fst (snd acc)) v then v else fst (snd acc), snd (snd acc) + 1)"

lemma health_add [simp]: "health_add (tot, mx, n) v = (f_add tot v, if f_lt mx v then v else mx, n + 1)"
  by (simp add: health_add_def)

lemma health_fold_filter: "foldl health_step acc vs = foldl health_add acc (filter in_range vs)"
  by (induction vs arbitrary: acc) (auto simp: health_step_def health_add_def in_range_def)

text \<open>Sum, maximum and count after the loop, for readings between two bounds.\<close>

lemma health_fold:
  assumes "\<forall>v\<in>set vs. f_between a b v" and "0 \<le> a" and "b \<le> 100"
    and "f_between (a * n) (b * n) tot" and "finite_f mx" and "0 \<le> n" and "n + int (length vs) \<le> 3"
    and "foldl health_add (tot, mx, n) vs = (tot', mx', n')"
  shows "n' = n + int (length vs) \<and> f_between (a * n') (b * n') tot' \<and> finite_f mx'
    \<and> (\<forall>c. c \<le> f_val mx' \<longleftrightarrow> c \<le> f_val mx \<or> (\<exists>v\<in>set vs. c \<le> f_val v))"
  using assms
proof (induction vs arbitrary: tot mx n)
  case (Cons v vs)
  define mx1 where "mx1 = (if f_lt mx v then v else mx)"
  have v: "f_between a b v" "finite_f v" using Cons.prems(1) by (auto simp: f_between_def finite_f_def)
  have ab: "a \<le> b" using v(1) by (auto simp: f_between_def)
  have "b * n + b \<le> 100 * 3 + 100"
    using mult_mono [of b 100 n 3] Cons.prems(2,3,6,7) ab by simp
  then have "f_between (a * (n + 1)) (b * (n + 1)) (f_add tot v)"
    using f_between_add [OF Cons.prems(4) v(1)] Cons.prems(2,6) by (simp add: distrib_left)
  moreover have mx1: "finite_f mx1" "\<And>c. c \<le> f_val mx1 \<longleftrightarrow> c \<le> f_val mx \<or> c \<le> f_val v"
    using v(2) Cons.prems(5) by (auto simp: mx1_def finite_f_def)
  moreover have "foldl health_add (f_add tot v, mx1, n + 1) vs = (tot', mx', n')"
    using Cons.prems(8) by (simp add: mx1_def)
  ultimately have "n' = n + 1 + int (length vs) \<and> f_between (a * n') (b * n') tot' \<and> finite_f mx'
      \<and> (\<forall>c. c \<le> f_val mx' \<longleftrightarrow> c \<le> f_val mx1 \<or> (\<exists>v\<in>set vs. c \<le> f_val v))"
    using Cons.prems(1-3,6,7) by (intro Cons.IH) simp_all
  then show ?case by (auto simp: mx1(2))
qed simp

lemma overall_between:
  assumes "f_between (a * n) (b * n) tot" and "0 \<le> a" and "b \<le> 100" and "0 < n" and "n \<le> 3"
  shows "f_between a b (f_div tot (f_of_int n))"
proof -
  obtain s m where t: "tot = Fin s m" using assms(1) by (auto simp: f_between_def)
  have "f_between a b (f_round (s \<noteq> False) (f_val tot / of_int n))"
    using assms by (intro f_round_between) (auto simp: f_between_def divide_le_eq le_divide_eq)
  then show ?thesis using assms(4,5) by (simp add: t f_of_int_small)
qed

lemma health_status_val:
  assumes "finite_f mx" and "finite_f ov"
  shows "health_status mx ov = (if 90 \<le> f_val mx \<or> 85 \<le> f_val ov then ''Critical''
    else if 75 \<le> f_val mx \<or> 65 \<le> f_val ov then ''Warning'' else ''Healthy'')"
  using assms by (auto simp: health_status_def finite_f_def)

text \<open>Everything \<open>CalculateHealth\<close> computes from finite readings.\<close>

lemma CalculateHealth_fold:
  fixes cpu memory disk
  defines "vs \<equiv> filter in_range [cpu, memory, disk]"
  assumes "foldl health_add (Fin False 0, Fin False 0, 0) vs = (tot, mx, n)"
  shows "he_Overall (CalculateHealth cpu memory disk) = (if 0 < n then f_div tot (f_of_int n) else Fin False 0)"
    and "he_Status (CalculateHealth cpu memory disk) = health_status mx (he_Overall (CalculateHealth cpu memory disk))"
  using assms(2) unfolding CalculateHealth_def health_fold_filter vs_def [symmetric] by (simp_all add: Let_def)

lemma CalculateHealth_facts:
  fixes cpu memory disk
  defines "vs \<equiv> filter in_range [cpu, memory, disk]"
  assumes "finite_f cpu" and "finite_f memory" and "finite_f disk"
  shows "f_between 0 100 (he_Overall (CalculateHealth cpu memory disk))"
    and "vs = [] \<Longrightarrow> he_Overall (CalculateHealth cpu memory disk) = Fin False 0"
    and "\<And>a b. vs \<noteq> [] \<Longrightarrow> 0 \<le> a \<Longrightarrow> b \<le> 100 \<Longrightarrow> \<forall>v\<in>set vs. f_between a b v \<Longrightarrow>
      f_between a b (he_Overall (CalculateHealth cpu memory disk))"
    and "he_Status (CalculateHealth cpu memory disk) =
      (let ov = f_val (he_Overall (CalculateHealth cpu memory disk))
       in if (\<exists>v\<in>set vs. 90 \<le> f_val v) \<or> 85 \<le> ov then ''Critical''
          else if (\<exists>v\<in>set vs. 75 \<le> f_val v) \<or> 65 \<le> ov then ''Warning'' else ''Healthy'')"
proof -
  obtain tot mx n where f: "foldl health_add (Fin False 0, Fin False 0, 0) vs = (tot, mx, n)"
    by (metis surj_pair)
  have len: "length vs \<le> 3" unfolding vs_def using length_filter_le [of in_range "[cpu, memory, disk]"] by simp
  have fold: "n = int (length vs) \<and> f_between (a * n) (b * n) tot \<and> finite_f mx
      \<and> (\<forall>c. c \<le> f_val mx \<longleftrightarrow> c \<le> 0 \<or> (\<exists>v\<in>set vs. c \<le> f_val v))"
    if "\<forall>v\<in>set vs. f_between a b v" "0 \<le> a" "b \<le> 100" for a b
    using health_fold [OF that _ _ _ _ f] len by (auto simp: f_between_def finite_f_def)
  have all: "\<forall>v\<in>set vs. f_between 0 100 v" unfolding vs_def using assms in_range_finite by auto
  note ov = CalculateHealth_fold(1) [OF f [unfolded vs_def]]
  show "f_between 0 100 (he_Overall (CalculateHealth cpu memory disk))"
  proof (cases "0 < n")
    case True
    moreover have "f_between (0 * n) (100 * n) tot" "n \<le> 3" using fold [OF all] len by auto
    ultimately show ?thesis unfolding ov using overall_between [of 0 n 100 tot] by simp
  qed (simp add: ov)
  then have fin: "finite_f (he_Overall (CalculateHealth cpu memory disk))" by (auto simp: f_between_def finite_f_def)
  show "vs = [] \<Longrightarrow> he_Overall (CalculateHealth cpu memory disk) = Fin False 0"
    unfolding ov using fold [OF all] by simp
  show "f_between a b (he_Overall (CalculateHealth cpu memory disk))"
    if "vs \<noteq> []" "0 \<le> a" "b \<le> 100" "\<forall>v\<in>set vs. f_between a b v" for a b
  proof -
    have "f_between (a * n) (b * n) tot" "0 < n" "n \<le> 3" using fold [OF that(4,2,3)] len that(1) by auto
    then show ?thesis unfolding ov using overall_between [of a n b tot] that(2,3) by simp
  qed
  show "he_Status (CalculateHealth cpu memory disk) =
      (let ov = f_val (he_Overall (CalculateHealth cpu memory disk))
       in if (\<exists>v\<in>set vs. 90 \<le> f_val v) \<or> 85 \<le> ov then ''Critical''
          else if (\<exists>v\<in>set vs. 75 \<le> f_val v) \<or> 65 \<le> ov then ''Warning'' else ''Healthy'')"
    unfolding CalculateHealth_fold(2) [OF f [unfolded vs_def]] using fold [OF all] fin
    by (simp add: health_status_val)
qed

lemma CalculateHealth_readings:
  "he_CPU (CalculateHealth cpu memory disk) = cpu" "he_Memory (CalculateHealth cpu memory disk) = memory"
  "he_Disk (CalculateHealth cpu memory disk) = disk"
  by (simp_all add: CalculateHealth_def Let_def split: prod.split)

text \<open>The score is the float quotient of the float sum; and how far that is from the mean of the readings.\<close>

lemma health_fold_parts:
  "fst (foldl health_add (tot, mx, n) vs) = foldl f_add tot vs"
  "snd (snd (foldl health_add (tot, mx, n) vs)) = n + int (length vs)"
  by (induction vs arbitrary: tot mx n) (simp_all add: health_add_def)

lemma overall_quotient:
  fixes cpu memory disk
  defines "vs \<equiv> filter in_range [cpu, memory, disk]"
  shows "he_Overall (CalculateHealth cpu memory disk) =
    (if vs = [] then Fin False 0 else f_div (foldl f_add (Fin False 0) vs) (f_of_int (int (length vs))))"
proof -
  obtain tot mx n where f: "foldl health_add (Fin False 0, Fin False 0, 0) vs = (tot, mx, n)"
    by (metis surj_pair)
  then have "tot = foldl f_add (Fin False 0) vs" "n = int (length vs)"
    using health_fold_parts [of "Fin False 0" "Fin False 0" 0 vs] by simp_all
  then show ?thesis using CalculateHealth_fold(1) [OF f [unfolded vs_def]] by (cases vs) simp_all
qed

lemma round_300_close:
  assumes "0 \<le> x" and "x \<le> 300"
  shows "\<bar>round_mag x - x\<bar> \<le> 1 / 2 ^ 45"
  using round_mag_error [of x 8] assms by (simp add: pow2_def)

lemma sum_close:
  assumes "\<forall>v\<in>set vs. f_between 0 100 v" and "f_between 0 (100 * n) tot" and "n + int (length vs) \<le> 3" and "0 \<le> n"
    and "\<bar>f_val tot - x\<bar> \<le> of_int n / 2 ^ 45"
  shows "\<bar>f_val (foldl f_add tot vs) - (x + sum_list (map f_val vs))\<bar> \<le> of_int (n + int (length vs)) / 2 ^ 45
    \<and> f_between 0 (100 * (n + int (length vs))) (foldl f_add tot vs)"
  using assms
proof (induction vs arbitrary: tot n x)
  case (Cons v vs)
  have v: "f_between 0 100 v" using Cons.prems(1) by simp
  have n: "n \<le> 2" using Cons.prems(3) by simp
  have step: "f_between 0 (100 * (n + 1)) (f_add tot v)"
    using f_between_add [OF Cons.prems(2) v] n by (simp add: distrib_left)
  obtain s m t k where fin: "tot = Fin s m" "v = Fin t k" using Cons.prems(2) v by (auto simp: f_between_def)
  have "f_val tot \<le> of_int (100 * n)" using Cons.prems(2) by (simp add: f_between_def)
  also have "(of_int (100 * n) :: rat) \<le> of_int 200" unfolding of_int_le_iff using n by simp
  finally have "f_val tot \<le> 200" by simp
  then have range: "0 \<le> f_val tot + f_val v" "f_val tot + f_val v \<le> 300"
    using Cons.prems(2) v by (simp_all add: f_between_def)
  have "f_val (f_add tot v) = round_mag (f_val tot + f_val v)"
    using f_round_val [of "f_val tot + f_val v" 300 "s \<and> t"] range by (simp add: fin)
  then have "\<bar>f_val (f_add tot v) - (f_val tot + f_val v)\<bar> \<le> 1 / 2 ^ 45" using round_300_close [OF range] by simp
  with Cons.prems(5) have "\<bar>f_val (f_add tot v) - (x + f_val v)\<bar> \<le> of_int n / 2 ^ 45 + 1 / 2 ^ 45" by linarith
  also have "\<dots> = of_int (n + 1) / 2 ^ 45" by (simp add: add_divide_distrib)
  finally show ?case
    using Cons.IH [of "n + 1" "f_add tot v" "x + f_val v"] Cons.prems(1,3,4) step by (simp add: add.assoc)
qed simp

lemma overall_close:
  fixes cpu memory disk
  defines "vs \<equiv> filter in_range [cpu, memory, disk]"
  assumes "finite_f cpu" and "finite_f memory" and "finite_f disk" and "vs \<noteq> []"
  shows "\<bar>f_val (he_Overall (CalculateHealth cpu memory disk)) - sum_list (map f_val vs) / of_nat (length vs)\<bar> \<le> 1 / 2 ^ 44"
proof -
  define n where "n = int (length vs)"
  define tot where "tot = foldl f_add (Fin False 0) vs"
  have n: "0 < n" "n \<le> 3"
    unfolding n_def vs_def using assms(5) length_filter_le [of in_range "[cpu, memory, disk]"] by (simp_all add: vs_def)
  have all: "\<forall>v\<in>set vs. f_between 0 100 v" unfolding vs_def using assms in_range_finite by auto
  have tot: "\<bar>f_val tot - sum_list (map f_val vs)\<bar> \<le> of_int n / 2 ^ 45" "f_between 0 (100 * n) tot"
    using sum_close [OF all, of 0 "Fin False 0" 0] n by (simp_all add: n_def tot_def)
  then obtain s m where fin: "tot = Fin s m" by (auto simp: f_between_def)
  have q: "0 \<le> f_val tot / of_int n" "f_val tot / of_int n \<le> 100"
    using tot(2) n(1) by (auto simp: f_between_def divide_le_eq)
  have "f_val (he_Overall (CalculateHealth cpu memory disk)) = round_mag (f_val tot / of_int n)"
    unfolding overall_quotient vs_def [symmetric]
    using assms(5) n f_round_val [of "f_val tot / of_int n" 100 "s \<noteq> False"] q
    by (simp add: tot_def [symmetric] n_def [symmetric] fin f_of_int_small)
  moreover have "\<bar>round_mag (f_val tot / of_int n) - f_val tot / of_int n\<bar> \<le> 1 / 2 ^ 45" using q by (intro round_300_close) simp_all
  moreover have "\<bar>f_val tot / of_int n - sum_list (map f_val vs) / of_int n\<bar> \<le> 1 / 2 ^ 45"
    using tot(1) n(1) by (simp add: diff_divide_distrib [symmetric] abs_divide pos_divide_le_eq mult.commute)
  ultimately have "\<bar>f_val (he_Overall (CalculateHealth cpu memory disk)) - sum_list (map f_val vs) / of_int n\<bar> \<le> 1 / 2 ^ 45 + 1 / 2 ^ 45"
    by linarith
  then show ?thesis by (simp add: n_def)
qed

text \<open>With all readings in range, higher readings never lower the overall score or the maximum.\<close>

lemma overall_mono:
  assumes "f_between 0 100 a" "f_between 0 100 b" "f_between 0 100 c"
    and "f_between 0 100 a'" "f_between 0 100 b'" "f_between 0 100 c'"
    and "f_val a \<le> f_val a'" "f_val b \<le> f_val b'" "f_val c \<le> f_val c'"
  shows "f_val (he_Overall (CalculateHealth a b c)) \<le> f_val (he_Overall (CalculateHealth a' b' c'))"
proof -
  define t where "t x y z = f_add (f_add (f_add (Fin False 0) x) y) z" for x y z
  have zero: "f_between 0 0 (Fin False 0)" by simp
  have one: "f_between 0 100 (f_add (Fin False 0) x)" if "f_between 0 100 x" for x
    using f_between_add [OF zero that] by simp
  have two: "f_between 0 200 (f_add (f_add (Fin False 0) x) y)" if "f_between 0 100 x" "f_between 0 100 y" for x y
    using f_between_add [OF one [OF that(1)] that(2)] by simp
  have three: "f_between 0 300 (t x y z)" if "f_between 0 100 x" "f_between 0 100 y" "f_between 0 100 z" for x y z
    using f_between_add [OF two [OF that(1,2)] that(3)] by (simp add: t_def)
  have ov: "he_Overall (CalculateHealth x y z) = f_div (t x y z) (Fin False 3)"
    if "f_between 0 100 x" "f_between 0 100 y" "f_between 0 100 z" for x y z
  proof -
    have "filter in_range [x, y, z] = [x, y, z]" using that in_range_finite by (auto simp: f_between_def finite_f_def)
    then have "foldl health_add (Fin False 0, Fin False 0, 0) (filter in_range [x, y, z]) =
        (t x y z, fst (snd (foldl health_add (Fin False 0, Fin False 0, 0) [x, y, z])), 3)"
      by (simp add: health_add_def t_def)
    from CalculateHealth_fold(1) [OF this] show ?thesis by (simp add: f_of_int_small)
  qed
  have "f_val (t a b c) \<le> f_val (t a' b' c')"
    unfolding t_def using assms zero one two
    by (intro f_add_val_mono [where a = 200 and b = 100] f_add_val_mono [where a = 100 and b = 100]
        f_add_val_mono [where a = 0 and b = 100]) simp_all
  moreover obtain s m s' m' where "t a b c = Fin s m" "t a' b' c' = Fin s' m'"
    using three [OF assms(1-3)] three [OF assms(4-6)] by (auto simp: f_between_def)
  ultimately show ?thesis
    using three [OF assms(1-3)] three [OF assms(4-6)] unfolding ov [OF assms(1-3)] ov [OF assms(4-6)]
    by (auto simp: f_between_def intro!: f_round_val_mono [where b = 100])
qed

section \<open>What a beat leaves behind\<close>

text \<open>The keys a beat writes.\<close>

definition hb_keys :: "string list" where
  "hb_keys = [''heartbeat_last_success'', ''heartbeat_last_latency_ms'', ''heartbeat_last_health'', ''heartbeat_last_cpu'',
    ''heartbeat_last_memory'', ''heartbeat_last_disk'', ''heartbeat_last_error'']"

text \<open>What the status command reads after a delivered beat.\<close>

definition beat_recorded :: "world \<Rightarrow> sync_result \<Rightarrow> Health \<Rightarrow> bool" where
  "beat_recorded w res h \<longleftrightarrow>
    kv w ''heartbeat_last_error'' = Some []
    \<and> kv w ''heartbeat_last_latency_ms'' = Some (FormatInt (Milliseconds (res_Latency res)))
    \<and> kv w ''heartbeat_last_health'' = Some (he_Status h)
    \<and> kv w ''heartbeat_last_cpu'' = Some (FormatFloat2 (he_CPU h))
    \<and> kv w ''heartbeat_last_memory'' = Some (FormatFloat2 (he_Memory h))
    \<and> kv w ''heartbeat_last_disk'' = Some (FormatFloat2 (he_Disk h))
    \<and> (\<exists>n. kv w ''heartbeat_last_success'' = Some (FormatRFC3339 (o_time (ev w) n)))"

lemma hb_persistSuccess_kv:
  assumes "sql_ok w"
  shows "beat_recorded (snd (run_state (hb_persistSuccess res h) w)) res h"
    and "key \<notin> set hb_keys \<Longrightarrow> kv (snd (run_state (hb_persistSuccess res h) w)) key = kv w key"
proof -
  have now: "fst (run_state Time_Now w) = o_time (ev w) (n_time w)" by (simp add: Time_Now_def)
  show "beat_recorded (snd (run_state (hb_persistSuccess res h) w)) res h"
    using assms by (simp add: beat_recorded_def hb_persistSuccess_def kv_Put run_simps now) blast
  show "key \<notin> set hb_keys \<Longrightarrow> kv (snd (run_state (hb_persistSuccess res h) w)) key = kv w key"
    using assms by (simp add: hb_keys_def hb_persistSuccess_def kv_Put run_simps)
qed

lemma hb_persistFailure_kv:
  "sql_ok w \<Longrightarrow>
    kv (snd (run_state (hb_persistFailure err) w)) = (kv w)(''heartbeat_last_error'' \<mapsto> error_msg err)"
  by (simp add: hb_persistFailure_def kv_Put run_simps)

lemma hb_collect_health:
  "fst (run_state (hb_collect e) w) = Inr p \<Longrightarrow>
    hp_Health p = CalculateHealth (hp_CPUUsage p) (hp_MemoryUsage p) (hp_DiskUsage p)"
  by (auto simp: hb_collect_def split: sum.splits if_splits)

lemma hb_collect_not_queued: "fst (run_state (hb_collect e) w) = Inl err \<Longrightarrow> \<not> errors_Is err ErrQueued"
  by (auto simp: hb_collect_def Get_def split: sum.splits if_splits option.splits)

lemma hb_marshal_error: "hb_marshal p = Inl err \<Longrightarrow> err = Errorf ''json''"
  by (auto simp: hb_marshal_def split: option.splits)

text \<open>
  One beat after its flush: the payload \<open>data\<close> is delivered and recorded, or queued with the error recorded,
  or only the error is recorded.
\<close>

definition beat_outcome :: "engine \<Rightarrow> world \<Rightarrow> (sync_result \<times> error option) \<times> world \<Rightarrow> bool" where
  "beat_outcome e v res \<longleftrightarrow>
    (let err = snd (fst res); w' = snd res in
      (case err of
         None \<Rightarrow> (\<exists>p data rs r token. hb_marshal p = Inr data
           \<and> wire w' = wire v @ rs @ [r] \<and> carries (ev v) e token ''/api/agent/heartbeat'' data r
           \<and> portal_ok (o_net (ev v) (length (wire v) + length rs) r)
           \<and> hp_Health p = CalculateHealth (hp_CPUUsage p) (hp_MemoryUsage p) (hp_DiskUsage p)
           \<and> beat_recorded w' (fst (fst res)) (hp_Health p)
           \<and> (\<forall>key. key \<notin> set hb_keys \<longrightarrow> kv w' key = kv v key) \<and> queued w' = queued v)
       | Some x \<Rightarrow> kv w' = (kv v)(''heartbeat_last_error'' \<mapsto> error_msg x)
           \<and> (if is_queued err then \<exists>i p data. hb_marshal p = Inr data \<and> queued w' = queued v @ [(i, ''heartbeat'', data)]
              else queued w' = queued v)))"

lemma hb_send_outcome:
  fixes e w
  assumes "sql_ok w" and "rand_ok w"
  defines "v \<equiv> snd (run_state (Flush (hb_Sync e)) (snd (run_state (Get ''heartbeat_last_error'') w)))"
  shows "beat_outcome (hb_Sync e) v (run_state (hb_send e) w)"
proof -
  have ok: "sql_ok v" "rand_ok v" using assms by simp_all
  define c where "c = snd (run_state (hb_collect e) v)"
  have c: "ev c = ev v" "same_tables c v" "wire c = wire v" by (simp_all add: c_def)
  show ?thesis
  proof (cases "fst (run_state (hb_collect e) v)")
    case (Inl err)
    then show ?thesis
      using ok hb_collect_not_queued [OF Inl]
      by (simp add: beat_outcome_def Let_def hb_send_def v_def [symmetric] hb_persistFailure_kv is_queued_def)
  next
    case (Inr p)
    define s where "s = run_state (SendJSON (hb_Sync e) ''/api/agent/heartbeat'' HeartbeatType (hb_marshal p)) c"
    have s: "ev (snd s) = ev v" "config_tab (snd s) = config_tab v" by (simp_all add: s_def c)
    have run: "run_state (hb_send e) w = (case snd (fst s) of
        Some err \<Rightarrow> (fst s, snd (run_state (hb_persistFailure err) (snd s)))
      | None \<Rightarrow> (fst s, snd (run_state (hb_persistSuccess (fst (fst s)) (hp_Health p)) (snd s))))"
      using Inr by (simp add: hb_send_def v_def [symmetric] c_def [symmetric] s_def split: option.split)
    show ?thesis
    proof (cases "hb_marshal p")
      case (Inl err)
      then show ?thesis
        unfolding run using ok c s hb_marshal_error [OF Inl]
        by (simp add: beat_outcome_def Let_def hb_persistFailure_kv is_queued_def) (simp add: s_def SendJSON_def hb_persistFailure_kv c)
    next
      case data: (Inr data)
      have report: "queued (snd s) = queued v @ (if is_queued (snd (fst s)) then [(next_rowid (map q_id (queue_tab v)), HeartbeatType, data)] else [])
        \<and> (snd (fst s) = None \<longleftrightarrow> (\<exists>rs r token. wire (snd s) = wire v @ rs @ [r]
            \<and> carries (ev v) (hb_Sync e) token ''/api/agent/heartbeat'' data r
            \<and> portal_ok (o_net (ev v) (length (wire v) + length rs) r)))"
        using send_report [of c "hb_Sync e" "''/api/agent/heartbeat''" HeartbeatType data True] ok c
        by (simp add: s_def SendJSON_def data)
      show ?thesis
      proof (cases "snd (fst s)")
        case (Some err)
        then show ?thesis
          unfolding run using report ok s data
          by (auto simp: beat_outcome_def Let_def hb_persistFailure_kv HeartbeatType_def)
      next
        case None
        note rec = hb_persistSuccess_kv [where w = "snd s" and res = "fst (fst s)" and h = "hp_Health p"]
        from None report obtain rs r token where r: "wire (snd s) = wire v @ rs @ [r]"
          "carries (ev v) (hb_Sync e) token ''/api/agent/heartbeat'' data r"
          "portal_ok (o_net (ev v) (length (wire v) + length rs) r)" by blast
        have "beat_recorded (snd (run_state (hb_persistSuccess (fst (fst s)) (hp_Health p)) (snd s))) (fst (fst s)) (hp_Health p)"
          using rec(1) ok s by simp
        moreover have "kv (snd (run_state (hb_persistSuccess (fst (fst s)) (hp_Health p)) (snd s))) key = kv v key"
          if "key \<notin> set hb_keys" for key
          using rec(2) [OF _ that] ok s by simp
        moreover have "queued (snd s) = queued v" using report None by (simp add: is_queued_def)
        ultimately show ?thesis
          unfolding run beat_outcome_def Let_def using None r s data hb_collect_health [OF Inr]
          by simp
            (intro exI [of _ p] exI [of _ data] exI [of _ rs] exI [of _ r] conjI exI [of _ token]; simp)
      qed
    qed
  qed
qed

section \<open>A beat of a registered agent\<close>

lemma ParseFloat_finite: "ParseFloat t = Some v \<Longrightarrow> finite_f v"
  by (auto simp: ParseFloat_def f_round_def Let_def split: prod.splits f64.splits if_splits)

lemma float_field_finite: "finite_f (float_field name ms)"
proof -
  have "finite_f (foldl (\<lambda>old m. if names_field name (fst m)
      then (case snd m of JNum t \<Rightarrow> (case ParseFloat t of Some v \<Rightarrow> v | None \<Rightarrow> old) | _ \<Rightarrow> old) else old) v ms)"
    if "finite_f v" for v
    using that by (induction ms arbitrary: v) (auto split: json.split option.split dest: ParseFloat_finite)
  then show ?thesis by (simp add: float_field_def)
qed

text \<open>Readings are never infinite or not a number, so a heartbeat payload can always be marshalled.\<close>

definition finite_payload :: "hb_Payload \<Rightarrow> bool" where
  "finite_payload p \<longleftrightarrow> finite_f (hp_CPUUsage p) \<and> finite_f (hp_MemoryUsage p) \<and> finite_f (hp_DiskUsage p)
    \<and> hp_Health p = CalculateHealth (hp_CPUUsage p) (hp_MemoryUsage p) (hp_DiskUsage p)"

lemma readMetrics_finite:
  "finite_f (me_CPU (fst (run_state readMetrics w)))" "finite_f (me_Memory (fst (run_state readMetrics w)))"
  "finite_f (me_Disk (fst (run_state readMetrics w)))"
  by (auto simp: readMetrics_def decode_metrics_def no_metrics_def float_field_finite split: option.split)

lemma hb_collect_finite: "fst (run_state (hb_collect e) w) = Inr p \<Longrightarrow> finite_payload p"
  by (auto simp: hb_collect_def finite_payload_def readMetrics_finite split: sum.splits if_splits)

lemma json_float_finite: "finite_f v \<Longrightarrow> \<exists>t. json_float v = Some t"
  by (auto simp: finite_f_def json_float_def Let_def split: prod.split)

lemma hb_marshal_finite:
  assumes "finite_payload p"
  shows "\<exists>data. hb_marshal p = Inr data"
proof -
  let ?h = "CalculateHealth (hp_CPUUsage p) (hp_MemoryUsage p) (hp_DiskUsage p)"
  have fin: "finite_f (hp_CPUUsage p)" "finite_f (hp_MemoryUsage p)" "finite_f (hp_DiskUsage p)" "hp_Health p = ?h"
    using assms by (simp_all add: finite_payload_def)
  have "finite_f (he_Overall ?h)"
    using CalculateHealth_facts(1) [OF fin(1-3)] by (auto simp: f_between_def finite_f_def)
  moreover have "he_CPU ?h = hp_CPUUsage p" "he_Memory ?h = hp_MemoryUsage p" "he_Disk ?h = hp_DiskUsage p"
    by (simp_all add: CalculateHealth_def Let_def split: prod.split)
  moreover obtain ov where "json_float (he_Overall ?h) = Some ov" using json_float_finite calculation(1) by blast
  moreover obtain c m d where "json_float (hp_CPUUsage p) = Some c" "json_float (hp_MemoryUsage p) = Some m"
    "json_float (hp_DiskUsage p) = Some d"
    using json_float_finite fin(1-3) by metis
  ultimately show ?thesis by (simp add: hb_marshal_def health_json_def fin(4))
qed

lemma hb_send_delivers:
  assumes "ready (hb_Sync e) token w" and "\<forall>n r. portal_ok (o_net (ev w) n r)"
    and "kv w ''agent_uuid'' = Some u" and "u \<noteq> []" and "o_hostname (ev w) = Inr host"
  shows "snd (fst (run_state (hb_send e) w)) = None"
proof -
  define v where "v = snd (run_state (Flush (hb_Sync e)) (snd (run_state (Get ''heartbeat_last_error'') w)))"
  have v: "ev v = ev w" "config_tab v = config_tab w" by (simp_all add: v_def)
  have sq: "sql_ok v" using assms(1) v by (simp add: ready_def)
  obtain p where p: "fst (run_state (hb_collect e) v) = Inr p"
    using assms(3-5) v sq by (simp add: hb_collect_def run_simps)
  define c where "c = snd (run_state (hb_collect e) v)"
  obtain data where data: "hb_marshal p = Inr data" using hb_marshal_finite hb_collect_finite [OF p] by blast
  have "ready (hb_Sync e) token c" using assms(1) ready_cong [of c w] v by (simp add: c_def)
  then obtain rs where "snd (fst (run_state (send (hb_Sync e) ''/api/agent/heartbeat'' HeartbeatType data True) c)) = None \<longleftrightarrow>
      portal_ok (o_net (ev c) (length (wire c) + (length rs - 1)) (List.last rs))"
    using send_ready by metis
  then have "snd (fst (run_state (SendJSON (hb_Sync e) ''/api/agent/heartbeat'' HeartbeatType (hb_marshal p)) c)) = None"
    using assms(2) v by (simp add: SendJSON_def data c_def)
  then show ?thesis using p by (simp add: hb_send_def v_def [symmetric] c_def [symmetric])
qed

text \<open>The loop ends only with the context.\<close>

lemma select_done_background: "never_cancelled w \<Longrightarrow> \<not> fst (run_state (select_done d) w)"
  by (simp add: select_done_def run_simps)

lemma hb_Run_background:
  assumes "never_cancelled w"
  shows "\<not> fst (run_state (hb_Run fuel started e) w)"
  using assms
proof (induction fuel arbitrary: w started)
  case (Suc fuel)
  then show ?case
    by (simp add: select_done_background run_simps split: option.split)
qed simp

section \<open>Concrete agents\<close>

text \<open>A registered agent with an empty queue, and one whose Portal configured half a second.\<close>

definition world_beat :: world where
  "world_beat = world1\<lparr>queue_tab := [], config_tab :=
    [''agent_token'' \<mapsto> token_row, ''agent_uuid'' \<mapsto> \<lparr>c_value = ''u1'', c_updated_at = []\<rparr>]\<rparr>"

definition hb_engine1 :: hb_engine where
  "hb_engine1 = \<lparr>hb_Sync = engine1, hb_Version = ''0.2.0''\<rparr>"

lemma world_beat_ready:
  "ready (hb_Sync hb_engine1) ''tok'' world_beat" "sql_ok world_beat" "rand_ok world_beat" "never_cancelled world_beat"
  "queue_wf world_beat" "\<forall>n r. portal_ok (o_net (ev world_beat) n r)" "kv world_beat ''agent_uuid'' = Some ''u1''"
  "o_hostname (ev world_beat) = Inr ''host''"
proof -
  have E: "ev world_beat = ev world1" by (simp add: world_beat_def)
  have "env_holds_secret (ev world1) (config_tab world_beat) ''agent_token'' ''tok'' \<longleftrightarrow>
      env_holds_secret (ev world1) (config_tab world1) ''agent_token'' ''tok''"
    by (simp add: env_holds_secret_def world_beat_def world1_def tab_value_def)
  then show "ready (hb_Sync hb_engine1) ''tok'' world_beat" "sql_ok world_beat" "rand_ok world_beat" "never_cancelled world_beat"
    "\<forall>n r. portal_ok (o_net (ev world_beat) n r)"
    using world1_ready world1_facts by (simp_all add: ready_def E hb_engine1_def)
  show "queue_wf world_beat" "kv world_beat ''agent_uuid'' = Some ''u1''"
    by (simp_all add: world_beat_def rows_wf_def tab_value_def)
  show "o_hostname (ev world_beat) = Inr ''host''" by (simp add: E world1_def) (simp add: world0_def env0_def)
qed

definition half_second :: string where
  "half_second = ''{'' @ quoted ''heartbeatInterval'' @ '':0.5}''"

lemma round_half: "round_mag (1 / 2) = 1 / 2"
proof -
  have "binexp (1 / 2) = -1" by code_simp
  then have "quantum (1 / 2) = 1 / 2 ^ 53" by (simp add: quantum_def pow2_def)
  then show ?thesis by (intro round_mag_multiple [where m = "2 ^ 52"]) simp_all
qed

lemma ParseFloat_half: "ParseFloat ''0.5'' = Some (Fin False (1 / 2))"
proof -
  have lit: "lit_mag ''0.5'' = 1 / 2"
    by (simp add: lit_mag_def Let_def is_exp_def is_digit_def digits_val_def pow10_def signed_digits_def
        split_sign_def digit_val_def byte_val_def)
  show ?thesis by (simp add: ParseFloat_def split_sign_def f_round_def lit round_half)
qed

lemma half_second_map:
  "\<exists>raw. Unmarshal_map half_second = Some raw \<and> raw ''heartbeatInterval'' = Some (JNum ''0.5'')"
proof -
  have "json_parse half_second = Some (JObj [(''heartbeatInterval'', JNum ''0.5'')])"
    by (simp add: half_second_def json_parse_def json_eval number_eval)
  then show "\<exists>raw. Unmarshal_map half_second = Some raw \<and> raw ''heartbeatInterval'' = Some (JNum ''0.5'')"
    by (simp add: Unmarshal_map_def ParseFloat_half json_member_def)
qed

definition world_half :: world where
  "world_half = world0\<lparr>config_tab := [''portal_configuration'' \<mapsto> \<lparr>c_value = half_second, c_updated_at = []\<rparr>]\<rparr>"

section \<open>Properties\<close>

text \<open>
  C10. What a beat leaves behind, after its flush of the queue. Without an error its payload, with the health
  computed from its readings, was acknowledged by the Portal and everything the status command shows
  is recorded; with an error nothing changes in the key/value table but the recorded error, and the
  payload is at the end of the queue exactly when the error says so.
\<close>

theorem heartbeat_outcome:
  assumes "sql_ok w" and "rand_ok w"
    and "v = snd (run_state (Flush (hb_Sync e)) (snd (run_state (Get ''heartbeat_last_error'') w)))"
    and "run_state (hb_send e) w = ((res, err), w')"
  shows "(case err of
       None \<Rightarrow> queued w' = queued v
         \<and> (\<exists>p data rs r token. hb_marshal p = Inr data
             \<and> hp_Health p = CalculateHealth (hp_CPUUsage p) (hp_MemoryUsage p) (hp_DiskUsage p)
             \<and> wire w' = wire v @ rs @ [r] \<and> carries (ev v) (hb_Sync e) token ''/api/agent/heartbeat'' data r
             \<and> portal_ok (o_net (ev v) (length (wire v) + length rs) r)
             \<and> beat_recorded w' res (hp_Health p))
         \<and> (\<forall>key. key \<notin> set hb_keys \<longrightarrow> kv w' key = kv w key)
     | Some x \<Rightarrow> kv w' = (kv w)(''heartbeat_last_error'' \<mapsto> error_msg x)
         \<and> (if errors_Is x ErrQueued then \<exists>i p data. hb_marshal p = Inr data \<and> queued w' = queued v @ [(i, ''heartbeat'', data)]
            else queued w' = queued v))"
proof -
  have "kv v = kv w" by (simp add: assms(3))
  then show ?thesis
    using hb_send_outcome [OF assms(1,2), of e] unfolding assms(3) [symmetric] assms(4) beat_outcome_def
    by (cases err) (simp_all add: Let_def is_queued_def, blast)
qed

theorem heartbeat_outcome_witness:
  "\<exists>res w'. run_state (hb_send hb_engine1) world_beat = ((res, None), w') \<and> kv w' ''heartbeat_last_error'' = Some []
    \<and> kv w' ''agent_uuid'' = Some ''u1''"
proof -
  obtain res err w' where run: "run_state (hb_send hb_engine1) world_beat = ((res, err), w')" by (metis surj_pair)
  have "err = None" using hb_send_delivers [OF world_beat_ready(1,6,7) _ world_beat_ready(8)] run by simp
  moreover have "''agent_uuid'' \<notin> set hb_keys" by (simp add: hb_keys_def)
  ultimately show ?thesis
    using heartbeat_outcome [OF world_beat_ready(2,3) refl run] run world_beat_ready(7)
    by (auto simp: beat_recorded_def)
qed

text \<open>
  A registered agent whose Portal acknowledges its requests always delivers its beat: readings that could
  not be taken, or not be decoded, do not keep it from reporting, and its payload can always be marshalled.
\<close>

theorem heartbeat_delivers:
  assumes "ready (hb_Sync e) token w" and "\<forall>n r. portal_ok (o_net (ev w) n r)"
    and "kv w ''agent_uuid'' = Some u" and "u \<noteq> []" and "o_hostname (ev w) = Inr host"
    and "run_state (hb_send e) w = ((res, err), w')"
  shows "err = None"
  using hb_send_delivers [OF assms(1-5)] assms(6) by simp

theorem heartbeat_delivers_witness:
  "\<exists>res w'. run_state (hb_send hb_engine1) world_beat = ((res, None), w')"
proof -
  obtain res err w' where run: "run_state (hb_send hb_engine1) world_beat = ((res, err), w')" by (metis surj_pair)
  then show ?thesis
    using heartbeat_delivers [OF world_beat_ready(1,6,7) _ world_beat_ready(8) run] by simp
qed

text \<open>
  C16. The health loop agrees with its specification. Readings out of range are ignored; the score is the float quotient of
  the float sum of the others by their number, and so within \<open>2 ^ -44\<close> of their mean, all roundings counted; it lies between
  any integer bounds of them, and is 0 without any. The status is critical from a reading of 90 or a score of 85 on, a
  warning from 75 or 65 on and healthy otherwise; the payload carries the readings as they are.
\<close>

theorem health_specification:
  assumes "finite_f cpu" and "finite_f memory" and "finite_f disk"
    and "vs = filter in_range [cpu, memory, disk]" and "h = CalculateHealth cpu memory disk"
  shows "he_Overall h =
      (if vs = [] then Fin False 0 else f_div (foldl f_add (Fin False 0) vs) (f_of_int (int (length vs))))
    \<and> (vs \<noteq> [] \<longrightarrow> \<bar>f_val (he_Overall h) - sum_list (map f_val vs) / of_nat (length vs)\<bar> \<le> 1 / 2 ^ 44)
    \<and> f_between 0 100 (he_Overall h)
    \<and> (\<forall>a b. vs \<noteq> [] \<and> 0 \<le> a \<and> b \<le> 100 \<and> (\<forall>v\<in>set vs. f_between a b v) \<longrightarrow> f_between a b (he_Overall h))
    \<and> he_Status h =
        (if (\<exists>v\<in>set vs. 90 \<le> f_val v) \<or> 85 \<le> f_val (he_Overall h) then ''Critical''
         else if (\<exists>v\<in>set vs. 75 \<le> f_val v) \<or> 65 \<le> f_val (he_Overall h) then ''Warning'' else ''Healthy'')
    \<and> he_CPU h = cpu \<and> he_Memory h = memory \<and> he_Disk h = disk"
proof (intro conjI)
  show "he_Overall h = (if vs = [] then Fin False 0 else f_div (foldl f_add (Fin False 0) vs) (f_of_int (int (length vs))))"
    unfolding assms(4,5) by (rule overall_quotient)
  show "vs \<noteq> [] \<longrightarrow> \<bar>f_val (he_Overall h) - sum_list (map f_val vs) / of_nat (length vs)\<bar> \<le> 1 / 2 ^ 44"
    unfolding assms(4,5) using overall_close [OF assms(1-3)] by blast
  show "f_between 0 100 (he_Overall h)" unfolding assms(5) by (rule CalculateHealth_facts(1) [OF assms(1-3)])
  show "\<forall>a b. vs \<noteq> [] \<and> 0 \<le> a \<and> b \<le> 100 \<and> (\<forall>v\<in>set vs. f_between a b v) \<longrightarrow> f_between a b (he_Overall h)"
    unfolding assms(4,5) using CalculateHealth_facts(3) [OF assms(1-3)] by blast
  show "he_Status h =
      (if (\<exists>v\<in>set vs. 90 \<le> f_val v) \<or> 85 \<le> f_val (he_Overall h) then ''Critical''
       else if (\<exists>v\<in>set vs. 75 \<le> f_val v) \<or> 65 \<le> f_val (he_Overall h) then ''Warning'' else ''Healthy'')"
    unfolding assms(4,5) using CalculateHealth_facts(4) [OF assms(1-3)] unfolding Let_def .
qed (simp_all add: assms(5) CalculateHealth_readings)

theorem health_specification_witness:
  "he_Status (CalculateHealth (Fin False 20) (Fin True 1) (Fin False 91)) = ''Critical''
    \<and> \<bar>f_val (he_Overall (CalculateHealth (Fin False 20) (Fin True 1) (Fin False 91))) - 111 / 2\<bar> \<le> 1 / 2 ^ 44"
proof -
  have "filter in_range [Fin False 20, Fin True 1, Fin False 91] = [Fin False 20, Fin False 91]" by (simp add: in_range_def)
  note spec = health_specification [OF finite_Fin finite_Fin finite_Fin this [symmetric] refl]
  have "sum_list (map f_val [Fin False 20, Fin False 91]) / of_nat (length [Fin False 20, Fin False 91]) = 111 / 2"
    "\<exists>v\<in>set [Fin False 20, Fin False 91]. 90 \<le> f_val v" by simp_all
  then show ?thesis using spec by (metis list.distinct(1))
qed

text \<open>
  More load never looks healthier: when every reading is in range and none of them drops, neither the score
  nor the severity of the status drops.
\<close>

fun severity :: "string \<Rightarrow> nat" where
  "severity s = (if s = ''Healthy'' then 0 else if s = ''Warning'' then 1 else 2)"

theorem health_monotone:
  assumes "f_between 0 100 a" "f_between 0 100 b" "f_between 0 100 c"
    and "f_between 0 100 a'" "f_between 0 100 b'" "f_between 0 100 c'"
    and "f_val a \<le> f_val a'" "f_val b \<le> f_val b'" "f_val c \<le> f_val c'"
  shows "f_val (he_Overall (CalculateHealth a b c)) \<le> f_val (he_Overall (CalculateHealth a' b' c'))
    \<and> severity (he_Status (CalculateHealth a b c)) \<le> severity (he_Status (CalculateHealth a' b' c'))"
proof -
  note ov = overall_mono [OF assms]
  have fin: "finite_f a" "finite_f b" "finite_f c" "finite_f a'" "finite_f b'" "finite_f c'"
    using assms(1-6) by (auto simp: f_between_def finite_f_def)
  have "filter in_range [a, b, c] = [a, b, c]" "filter in_range [a', b', c'] = [a', b', c']"
    using assms(1-6) fin by (simp_all add: in_range_finite)
  then show ?thesis
    using ov assms(7-9) CalculateHealth_facts(4) [OF fin(1-3)] CalculateHealth_facts(4) [OF fin(4-6)]
    by (auto simp: Let_def)
qed

theorem health_monotone_witness:
  "severity (he_Status (CalculateHealth (Fin False 10) (Fin False 20) (Fin False 30)))
    \<le> severity (he_Status (CalculateHealth (Fin False 10) (Fin False 70) (Fin False 30)))"
  using health_monotone [of "Fin False 10" "Fin False 20" "Fin False 30" "Fin False 10" "Fin False 70" "Fin False 30"] by simp

text \<open>
  C37. The interval a Portal configures as a number of seconds is truncated to whole seconds after the check that it
  is positive: below one second it is zero, and the loop beats without a pause. From one second up
  to the range of a duration it is positive and exact.
\<close>

theorem heartbeat_interval_truncates:
  assumes "sql_ok w" and "kv w ''portal_configuration'' = Some v" and "Unmarshal_map v = Some raw"
    and "raw ''heartbeatInterval'' = Some (JNum t)" and "ParseFloat t = Some (Fin False x)" and "0 < x"
  shows "(x < 1 \<longrightarrow> fst (run_state ConfiguredInterval w) = 0)
    \<and> (1 \<le> x \<and> x < 9223372036 \<longrightarrow>
        fst (run_state ConfiguredInterval w) = \<lfloor>x\<rfloor> * Second \<and> 0 < fst (run_state ConfiguredInterval w))"
proof -
  have run: "fst (run_state ConfiguredInterval w) = wrap64 (f_int64 (Fin False x) * Second)"
    using assms by (simp add: ConfiguredInterval_def run_simps hb_first_def hb_value_def)
  have small: "f_int64 (Fin False x) = \<lfloor>x\<rfloor>" if "x < 9223372036"
    using that assms(6) floor_less_iff [of x "2 ^ 63"] by (simp add: f_int64_def Let_def)
  have "fst (run_state ConfiguredInterval w) = 0" if "x < 1"
  proof -
    have "\<lfloor>x\<rfloor> = 0" using that assms(6) by linarith
    then show ?thesis unfolding run using small that by (simp add: wrap64_def)
  qed
  moreover have "fst (run_state ConfiguredInterval w) = \<lfloor>x\<rfloor> * Second \<and> 0 < \<lfloor>x\<rfloor>" if "1 \<le> x" "x < 9223372036"
  proof -
    have fl: "1 \<le> \<lfloor>x\<rfloor>" "\<lfloor>x\<rfloor> < 9223372036" using that by linarith+
    then have "wrap64 (\<lfloor>x\<rfloor> * Second) = \<lfloor>x\<rfloor> * Second" by (intro wrap64_seconds) linarith+
    then show ?thesis unfolding run using small that fl(1) by simp
  qed
  ultimately show ?thesis by simp
qed

theorem heartbeat_interval_truncates_witness:
  "fst (run_state ConfiguredInterval world_half) = 0"
proof -
  obtain raw where raw: "Unmarshal_map half_second = Some raw" "raw ''heartbeatInterval'' = Some (JNum ''0.5'')"
    using half_second_map by blast
  have "sql_ok world_half" "kv world_half ''portal_configuration'' = Some half_second"
    using world0_ok(1) by (simp_all add: world_half_def tab_value_def)
  then show ?thesis using heartbeat_interval_truncates [OF _ _ raw ParseFloat_half] by simp
qed

text \<open>
  A machine that cannot be measured is reported healthy: when the command that takes the readings fails, the
  payload carries zero load and the status healthy.
\<close>

theorem blind_heartbeat_is_healthy:
  assumes "fst (o_exec (ev w) (length (ran w))
      [''powershell.exe'', ''-NoProfile'', ''-NonInteractive'', ''-Command'', metrics_command]) \<noteq> None"
    and "fst (run_state (hb_collect e) w) = Inr p"
  shows "he_Status (hp_Health p) = ''Healthy'' \<and> f_val (hp_CPUUsage p) = 0 \<and> hp_OSVersion p = ''unknown''"
proof -
  define v where "v = snd (run_state (Get ''agent_uuid'') w)"
  have "ev v = ev w" "ran v = ran w" by (simp_all add: v_def)
  then have blind: "fst (run_state readMetrics v) = no_metrics"
    using assms(1) by (auto simp: readMetrics_def exec_def split: option.split)
  have "f_between 0 0 (he_Overall (CalculateHealth (Fin False 0) (Fin False 0) (Fin False 0)))"
    using CalculateHealth_facts(3) [of "Fin False 0" "Fin False 0" "Fin False 0" 0 0] by (simp add: in_range_def)
  then have "f_val (he_Overall (CalculateHealth (Fin False 0) (Fin False 0) (Fin False 0))) = 0" by (auto simp: f_between_def)
  then have "he_Status (CalculateHealth (Fin False 0) (Fin False 0) (Fin False 0)) = ''Healthy''"
    using CalculateHealth_facts(4) [of "Fin False 0" "Fin False 0" "Fin False 0"] by (simp add: in_range_def Let_def)
  then show ?thesis
    using assms(2) blind by (auto simp: hb_collect_def v_def [symmetric] no_metrics_def split: sum.splits if_splits)
qed

theorem blind_heartbeat_is_healthy_witness:
  "\<exists>p. fst (run_state (hb_collect hb_engine1) world_beat) = Inr p \<and> he_Status (hp_Health p) = ''Healthy''"
proof -
  obtain p where p: "fst (run_state (hb_collect hb_engine1) world_beat) = Inr p"
    using world_beat_ready(2,7,8) by (simp add: hb_collect_def run_simps)
  have "fst (o_exec (ev world_beat) n cmd) \<noteq> None" for n cmd
    by (simp add: world_beat_def world1_def) (simp add: world0_def env0_def)
  then show ?thesis using blind_heartbeat_is_healthy [OF _ p] p by simp
qed

end
