(* ===== verification/InvEngine.thy ===== *)
theory InvEngine
  imports InvCollect InvNormal Heartbeat
begin

text \<open>
  Package \<open>internal/inventory\<close>, \<open>engine.go\<close>: one pass of the hardware inventory (\<open>RunOnce\<close>), what it stores and
  its loop. A pass uploads only when the fingerprint of the snapshot differs from the stored one. Log
  messages are left out, as are the errors of the writes, which the source ignores.
\<close>

section \<open>State\<close>

definition InventoryEndpoint :: string where "InventoryEndpoint = ''/api/agent/inventory''"

definition inv_DefaultInterval :: int where "inv_DefaultInterval = 24 * Hour"

record inv_engine =
  inv_Sync :: engine
  inv_Version :: string

section \<open>What a pass stores\<close>

definition inv_persistFailure :: "error \<Rightarrow> inv_Report \<Rightarrow> unit go" where
  "inv_persistFailure err report = do {
    Put ''inventory_last_duration_ms'' (FormatInt (Milliseconds (ir_Duration report)));
    Put ''inventory_last_payload_size'' (FormatInt (ir_PayloadSize report));
    Put ''inventory_last_error'' (error_msg err);
    State_Monad.return ()
  }"

definition inv_failure :: "int \<Rightarrow> error \<Rightarrow> (inv_Report \<times> error option) go" where
  "inv_failure started err = do {
    now \<leftarrow> Time_Now;
    let report = zero_inv_Report\<lparr>ir_Duration := now - started, ir_Result := ''FAILED''\<rparr>;
    inv_persistFailure err report;
    State_Monad.return (report, Some err)
  }"

definition inv_persistSuccess :: "inv_Report \<Rightarrow> unit go" where
  "inv_persistSuccess report = do {
    now \<leftarrow> Time_Now;
    Put ''inventory_last_success'' (FormatRFC3339Nano now);
    Put ''inventory_last_duration_ms'' (FormatInt (Milliseconds (ir_Duration report)));
    Put ''inventory_last_payload_size'' (FormatInt (ir_PayloadSize report));
    Put ''inventory_last_error'' [];
    State_Monad.return ()
  }"

definition persistSnapshot :: "Hardware \<Rightarrow> string \<Rightarrow> unit go" where
  "persistSnapshot hardware fingerprint = do {
    (case Marshal (hardware_floats hardware) (Hardware_json hardware) of
      Inr v \<Rightarrow> do { Put ''inventory_last_hardware'' v; State_Monad.return () }
    | Inl _ \<Rightarrow> State_Monad.return ());
    Put ''inventory_last_fingerprint'' fingerprint;
    State_Monad.return ()
  }"

text \<open>The JSON of the changes, which holds no float and always is an array.\<close>

definition changes_text :: "HardwareChange list \<Rightarrow> string" where
  "changes_text changes = json_print (JArr (map HardwareChange_json changes))"

definition persistHistory :: "Hardware \<Rightarrow> string \<Rightarrow> HardwareChange list \<Rightarrow> unit go" where
  "persistHistory hardware fingerprint changes =
    (case Marshal (hardware_floats hardware) (Hardware_json hardware) of
       Inr payload \<Rightarrow> do {
         RecordInventoryHistory fingerprint payload (changes_text changes);
         State_Monad.return ()
       }
     | Inl _ \<Rightarrow> State_Monad.return ())"

text \<open>
  The timeline: what was stored, as far as it can be decoded, with the new event, cut to the last 50.
\<close>

definition stored_timeline :: "string option result \<Rightarrow> InventoryHistoryEvent list" where
  "stored_timeline r = (case r of Inr (Some v) \<Rightarrow> fst (Unmarshal timeline_dec v []) | _ \<Rightarrow> [])"

definition next_timeline :: "InventoryHistoryEvent \<Rightarrow> InventoryHistoryEvent list \<Rightarrow> InventoryHistoryEvent list" where
  "next_timeline event timeline =
    (let timeline' = timeline @ [event]
     in if 50 < length timeline' then drop (length timeline' - 50) timeline' else timeline')"

definition timeline_text :: "InventoryHistoryEvent list \<Rightarrow> string option" where
  "timeline_text timeline = map_option (\<lambda>js. json_print (JArr js)) (those (map InventoryHistoryEvent_json timeline))"

definition persistTimeline :: "HardwareChange list \<Rightarrow> string \<Rightarrow> unit go" where
  "persistTimeline changes fingerprint = do {
    now \<leftarrow> Time_Now;
    stored \<leftarrow> Get ''inventory_change_timeline'';
    let event = \<lparr>ie_Timestamp = (now, 0), ie_Fingerprint = fingerprint, ie_Changes = Some changes\<rparr>;
    (case timeline_text (next_timeline event (stored_timeline stored)) of
      Some v \<Rightarrow> do { Put ''inventory_change_timeline'' v; State_Monad.return () }
    | None \<Rightarrow> State_Monad.return ());
    Put ''inventory_last_changes'' (changes_text changes);
    State_Monad.return ()
  }"

section \<open>The health assessment\<close>

definition storedFloat :: "string \<Rightarrow> f64 go" where
  "storedFloat key = do {
    r \<leftarrow> Get key;
    State_Monad.return (case r of
      Inr (Some v) \<Rightarrow> (case Sscanf_f v of Some f \<Rightarrow> f | None \<Rightarrow> Fin True 1)
    | _ \<Rightarrow> Fin True 1)
  }"

text \<open>\<open>time.Since\<close> saturates at the ends of a duration.\<close>

definition Time_Since :: "int \<Rightarrow> int \<Rightarrow> int" where
  "Time_Since now t = max (- (2 ^ 63)) (min (2 ^ 63 - 1) (now - t))"

definition storedHeartbeatStatus :: "string go" where
  "storedHeartbeatStatus = do {
    r \<leftarrow> Get ''heartbeat_last_success'';
    case r of
      Inl _ \<Rightarrow> State_Monad.return ''PENDING''
    | Inr None \<Rightarrow> State_Monad.return ''PENDING''
    | Inr (Some v) \<Rightarrow>
      if v = [] then State_Monad.return ''PENDING''
      else (case ParseRFC3339 v of
        None \<Rightarrow> State_Monad.return ''OFFLINE''
      | Some parsed \<Rightarrow> do {
          now \<leftarrow> Time_Now;
          d \<leftarrow> ConfiguredInterval;
          State_Monad.return (if wrap64 (2 * d) < Time_Since now parsed then ''OFFLINE'' else ''ONLINE'')
        })
  }"

definition disk_percent :: "DiskInventory \<Rightarrow> f64" where
  "disk_percent d =
    (if 0 < di_TotalBytes d \<and> di_FreeBytes d \<le> di_TotalBytes d
     then usage_percent (di_TotalBytes d - di_FreeBytes d) (di_TotalBytes d)
     else Fin True 1)"

definition memory_percent :: "Memory \<Rightarrow> f64" where
  "memory_percent m = (if rm_TotalBytes m = 0 then Fin True 1 else rm_UsagePercent m)"

definition inv_health :: "Hardware \<Rightarrow> HealthAssessment go" where
  "inv_health hardware = do {
    cpu \<leftarrow> storedFloat ''heartbeat_last_cpu'';
    status \<leftarrow> storedHeartbeatStatus;
    latency \<leftarrow> storedFloat ''heartbeat_last_latency_ms'';
    u \<leftarrow> getw (\<lambda>w. o_upper (ev w));
    State_Monad.return (CalculateHealthV2 u cpu (memory_percent (hw_RAM hardware)) (disk_percent (hw_Disk hardware))
      status latency (hw_Security hardware))
  }"

section \<open>One pass\<close>

definition named :: "string \<Rightarrow> Hardware \<Rightarrow> Hardware" where
  "named hostname h =
    (if gn_ComputerName (hw_General h) = [] then h\<lparr>hw_General := (hw_General h)\<lparr>gn_ComputerName := hostname\<rparr>\<rparr> else h)"

definition decode_hardware :: "string option result \<Rightarrow> Hardware option" where
  "decode_hardware r =
    (case r of
       Inr (Some v) \<Rightarrow>
         (if v = [] then None
          else (let (h, ok) = Unmarshal Hardware_dec v zero_Hardware in if ok then Some h else None))
     | _ \<Rightarrow> None)"

text \<open>How a pass ends after \<open>SendJSON\<close>, without an error and with one.\<close>

definition inv_delivered ::
  "int \<Rightarrow> inv_Report \<Rightarrow> Hardware \<Rightarrow> HardwareChange list \<Rightarrow> (inv_Report \<times> error option) go" where
  "inv_delivered started report hardware changes = do {
    t \<leftarrow> Time_Now;
    let rep = report\<lparr>ir_Result := ''SENT'', ir_Duration := t - started\<rparr>;
    persistSnapshot hardware (ir_Fingerprint rep);
    persistHistory hardware (ir_Fingerprint rep) changes;
    persistTimeline changes (ir_Fingerprint rep);
    inv_persistSuccess rep;
    State_Monad.return (rep, None)
  }"

definition inv_undelivered :: "inv_Report \<Rightarrow> Hardware \<Rightarrow> error \<Rightarrow> (inv_Report \<times> error option) go" where
  "inv_undelivered report hardware err =
    (if errors_Is err ErrQueued then do {
       let rep = report\<lparr>ir_Queued := True, ir_Result := ''QUEUED''\<rparr>;
       persistSnapshot hardware (ir_Fingerprint rep);
       inv_persistFailure err rep;
       State_Monad.return (rep, Some err)
     }
     else do {
       let rep = report\<lparr>ir_Result := ''FAILED''\<rparr>;
       inv_persistFailure err rep;
       State_Monad.return (rep, Some err)
     })"

text \<open>
  The part after the comparison of the fingerprints: build the payload, and send it. The source marshals
  the payload twice, once for its size and once in \<open>SendJSON\<close>, with the same result.
\<close>

definition inv_send :: "inv_engine \<Rightarrow> int \<Rightarrow> int \<Rightarrow> inv_Payload \<Rightarrow> string \<Rightarrow> (inv_Report \<times> error option) go" where
  "inv_send e started collectDuration payload encoded = do {
    uploadStarted \<leftarrow> Time_Now;
    sent \<leftarrow> SendJSON (inv_Sync e) InventoryEndpoint InventoryType (Inr encoded);
    uploaded \<leftarrow> Time_Now;
    finished \<leftarrow> Time_Now;
    let report = zero_inv_Report\<lparr>ir_CollectDuration := collectDuration, ir_UploadDuration := uploaded - uploadStarted,
      ir_Duration := finished - started, ir_PayloadSize := int (length encoded),
      ir_HardwareCount := HardwareCount (ip_Hardware payload), ir_ChangedItems := ip_ChangedItems payload,
      ir_Fingerprint := ip_Fingerprint payload\<rparr>;
    case snd sent of
      Some err \<Rightarrow> inv_undelivered report (ip_Hardware payload) err
    | None \<Rightarrow> inv_delivered started report (ip_Hardware payload) (ip_Changes payload)
  }"

definition inv_payload :: "inv_engine \<Rightarrow> string \<Rightarrow> string \<Rightarrow> Hardware \<Rightarrow> string \<Rightarrow> inv_Payload go" where
  "inv_payload e agentUUID hostname hardware fingerprint = do {
    E \<leftarrow> getw ev;
    stored \<leftarrow> Get ''inventory_last_hardware'';
    let changes = DiffHardware (o_lower E) (decode_hardware stored) hardware;
    assessment \<leftarrow> inv_health hardware;
    now \<leftarrow> Time_Now;
    State_Monad.return \<lparr>ip_Timestamp = now, ip_AgentUUID = agentUUID, ip_AgentVersion = inv_Version e,
      ip_Hostname = hostname, ip_Fingerprint = fingerprint, ip_ChangedItems = int (length changes), ip_Changes = changes,
      ip_AssetLink = BuildAssetLinkHints hardware agentUUID hostname, ip_Health = assessment, ip_Hardware = hardware\<rparr>
  }"

definition inv_upload ::
  "inv_engine \<Rightarrow> int \<Rightarrow> int \<Rightarrow> string \<Rightarrow> string \<Rightarrow> Hardware \<Rightarrow> string \<Rightarrow> (inv_Report \<times> error option) go" where
  "inv_upload e started collectDuration agentUUID hostname hardware fingerprint = do {
    payload \<leftarrow> inv_payload e agentUUID hostname hardware fingerprint;
    case inv_marshal payload of
      Inl err \<Rightarrow> inv_failure started (Wrapf ''marshal inventory payload: '' err [])
    | Inr encoded \<Rightarrow> inv_send e started collectDuration payload encoded
  }"

definition inv_compare ::
  "inv_engine \<Rightarrow> int \<Rightarrow> int \<Rightarrow> string \<Rightarrow> string \<Rightarrow> Hardware \<Rightarrow> string \<Rightarrow> (inv_Report \<times> error option) go" where
  "inv_compare e started collectDuration agentUUID hostname hardware fingerprint = do {
    previous \<leftarrow> Get ''inventory_last_fingerprint'';
    if (case previous of Inr (Some p) \<Rightarrow> p | _ \<Rightarrow> []) = fingerprint then do {
      t \<leftarrow> Time_Now;
      now \<leftarrow> Time_Now;
      Put ''inventory_last_checked'' (FormatRFC3339Nano now);
      State_Monad.return (zero_inv_Report\<lparr>ir_CollectDuration := collectDuration, ir_Duration := t - started,
        ir_HardwareCount := HardwareCount hardware, ir_SkippedItems := HardwareCount hardware,
        ir_Fingerprint := fingerprint, ir_Result := ''SKIPPED''\<rparr>, None)
    }
    else inv_upload e started collectDuration agentUUID hostname hardware fingerprint
  }"

definition inv_collect :: "inv_engine \<Rightarrow> int \<Rightarrow> string \<Rightarrow> (inv_Report \<times> error option) go" where
  "inv_collect e started agentUUID = do {
    E \<leftarrow> getw ev;
    case o_hostname E of
      Inl m \<Rightarrow> inv_failure started (Wrapf ''read hostname: '' (Errorf m) [])
    | Inr hostname \<Rightarrow> do {
        collectStarted \<leftarrow> Time_Now;
        collected \<leftarrow> inv_Collect;
        case collected of
          Inl err \<Rightarrow> inv_failure started err
        | Inr found \<Rightarrow> do {
            t \<leftarrow> Time_Now;
            let hardware = named hostname found;
            case inv_Fingerprint (o_lower E) hardware of
              Inl err \<Rightarrow> inv_failure started err
            | Inr fingerprint \<Rightarrow>
                inv_compare e started (t - collectStarted) agentUUID hostname hardware fingerprint
          }
      }
  }"

definition inv_RunOnce :: "inv_engine \<Rightarrow> (inv_Report \<times> error option) go" where
  "inv_RunOnce e = do {
    started \<leftarrow> Time_Now;
    c \<leftarrow> ctx_Err;
    case c of
      Some err \<Rightarrow> State_Monad.return (zero_inv_Report, Some err)
    | None \<Rightarrow> do {
        Flush (inv_Sync e);
        uuid \<leftarrow> Get ''agent_uuid'';
        case uuid of
          Inl err \<Rightarrow> inv_failure started err
        | Inr None \<Rightarrow> inv_failure started ErrNotRegistered
        | Inr (Some agentUUID) \<Rightarrow>
          if agentUUID = [] then inv_failure started ErrNotRegistered
          else inv_collect e started agentUUID
      }
  }"

text \<open>
  The loop reports at once and then every 24 hours. It ends only with the context; each unit of fuel is one
  turn, and the result says whether the loop ended.
\<close>

fun inv_Run :: "nat \<Rightarrow> inv_engine \<Rightarrow> bool go" where
  "inv_Run 0 e = State_Monad.return False"
| "inv_Run (Suc fuel) e = do {
    r \<leftarrow> inv_RunOnce e;
    c \<leftarrow> (if snd r \<noteq> None then ctx_Err else State_Monad.return None);
    if c \<noteq> None then State_Monad.return True
    else do {
      done \<leftarrow> select_done inv_DefaultInterval;
      if done then State_Monad.return True else inv_Run fuel e
    }
  }"

section \<open>Frames\<close>

lemma inv_persist_frame [simp]:
  "only_config (snd (run_state (inv_persistFailure err rep) w)) w"
  "only_config (snd (run_state (inv_failure started err) w)) w"
  "only_config (snd (run_state (inv_persistSuccess rep) w)) w"
  "only_config (snd (run_state (persistSnapshot h fp) w)) w"
  "only_config (snd (run_state (persistTimeline cs fp) w)) w"
  "only_history (snd (run_state (persistHistory h fp cs) w)) w"
  by (simp_all add: inv_persistFailure_def inv_failure_def inv_persistSuccess_def persistSnapshot_def persistTimeline_def
      persistHistory_def Let_def split: sum.split option.split)

lemma storedFloat_frame [simp]: "only_counters (snd (run_state (storedFloat key) w)) w"
  by (simp add: storedFloat_def)

lemma storedHeartbeatStatus_frame [simp]: "only_counters (snd (run_state storedHeartbeatStatus w)) w"
  by (simp add: storedHeartbeatStatus_def split: sum.split option.split)

lemma inv_health_frame [simp]: "only_counters (snd (run_state (inv_health h) w)) w"
  by (simp add: inv_health_def)

lemma inv_delivered_frame [simp]:
  "ev (snd (run_state (inv_delivered st rep h cs) w)) = ev w"
  "queue_tab (snd (run_state (inv_delivered st rep h cs) w)) = queue_tab w"
  "config_file (snd (run_state (inv_delivered st rep h cs) w)) = config_file w"
  "wire (snd (run_state (inv_delivered st rep h cs) w)) = wire w"
  by (simp_all add: inv_delivered_def Let_def)

lemma inv_undelivered_frame [simp]: "only_config (snd (run_state (inv_undelivered rep h err) w)) w"
  by (simp add: inv_undelivered_def Let_def)

lemma inv_payload_frame [simp]: "only_counters (snd (run_state (inv_payload e u hn h fp) w)) w"
  by (simp add: inv_payload_def Let_def)

lemma inv_upload_frame [simp]:
  "ev (snd (run_state (inv_upload e st cd u hn h fp) w)) = ev w"
  "config_file (snd (run_state (inv_upload e st cd u hn h fp) w)) = config_file w"
  by (simp_all add: inv_upload_def inv_send_def Let_def split: option.split sum.split)

lemma inv_compare_frame [simp]:
  "ev (snd (run_state (inv_compare e st cd u hn h fp) w)) = ev w"
  "config_file (snd (run_state (inv_compare e st cd u hn h fp) w)) = config_file w"
  by (simp_all add: inv_compare_def Let_def)

lemma inv_collect_frame [simp]:
  "ev (snd (run_state (inv_collect e st u) w)) = ev w"
  "config_file (snd (run_state (inv_collect e st u) w)) = config_file w"
  by (simp_all add: inv_collect_def Let_def split: sum.split)

lemma inv_RunOnce_frame [simp]:
  "ev (snd (run_state (inv_RunOnce e) w)) = ev w"
  "config_file (snd (run_state (inv_RunOnce e) w)) = config_file w"
  by (simp_all add: inv_RunOnce_def split: option.split sum.split)

lemma inv_upload_wf: "queue_wf w \<Longrightarrow> queue_wf (snd (run_state (inv_upload e st cd u hn h fp) w))"
  by (simp add: inv_upload_def inv_send_def Let_def SendJSON_wf split: option.split sum.split)

lemma inv_RunOnce_wf: "queue_wf w \<Longrightarrow> queue_wf (snd (run_state (inv_RunOnce e) w))"
  by (simp add: inv_RunOnce_def inv_collect_def inv_compare_def Let_def Flush_wf inv_upload_wf split: option.split sum.split)


section \<open>Every score is in range\<close>

lemma Sscanf_finite: "Sscanf_f s = Some v \<Longrightarrow> finite_f v"
  by (auto simp: Sscanf_f_def float_of_token_def Let_def split: prod.splits if_splits dest: ParseFloat_finite)

lemma finite_not_NaN: "finite_f v \<Longrightarrow> v \<noteq> NaN"
  by (auto simp: finite_f_def)

lemma between_finite: "f_between a b v \<Longrightarrow> finite_f v"
  by (auto simp: f_between_def finite_f_def)

lemma storedFloat_finite: "finite_f (fst (run_state (storedFloat key) w))"
  by (auto simp: storedFloat_def split: sum.split option.split dest: Sscanf_finite)

lemma disk_percent_finite: "finite_f (disk_percent d)"
proof (cases "0 < di_TotalBytes d \<and> di_FreeBytes d \<le> di_TotalBytes d")
  case True
  then have "di_TotalBytes d - di_FreeBytes d \<le> di_TotalBytes d" by (simp add: word_sub_le)
  then have "f_between 0 100 (usage_percent (di_TotalBytes d - di_FreeBytes d) (di_TotalBytes d))"
    using True by (intro usage_percent_between) simp_all
  then show ?thesis using True between_finite by (auto simp: disk_percent_def)
qed (auto simp: disk_percent_def)

lemma memory_percent_finite: "ram_ok m \<Longrightarrow> finite_f (memory_percent m)"
  using between_finite by (auto simp: memory_percent_def ram_ok_def)

lemma inv_health_floats:
  assumes "ram_ok (hw_RAM h)"
  shows "list_all (f_between 0 100) (health_floats (fst (run_state (inv_health h) w)))"
proof -
  define a where "a = fst (run_state (inv_health h) w)"
  obtain up cpu status latency where a: "a = CalculateHealthV2 up cpu (memory_percent (hw_RAM h)) (disk_percent (hw_Disk h))
      status latency (hw_Security h)" and "cpu \<noteq> NaN"
    using storedFloat_finite finite_not_NaN by (simp add: a_def inv_health_def)
  then show ?thesis
    using health_V2_floats [OF _ _ _ a] memory_percent_finite [OF assms] disk_percent_finite finite_not_NaN
    by (simp add: a_def list_all_iff)
qed

section \<open>A snapshot can be marshalled\<close>

lemma bytesToGB_finite [simp]: "finite_float (bytesToGB v)"
proof -
  have v: "uint v \<le> 2 ^ 64" using uint_bounded [of v] by simp
  then have x: "f_of_int (uint v) = Fin False (round_mag (of_int (uint v)))" by (simp add: f_of_int_u64)
  have "(of_int (uint v) :: rat) \<le> of_int (2 ^ 64)" using v unfolding of_int_le_iff .
  then have "round_mag (of_int (uint v)) \<le> round_mag (2 ^ 64)" by (intro round_mag_mono) simp
  then have "round_mag (of_int (uint v)) / (1024 * 1024 * 1024) \<le> of_int (2 ^ 34)"
    unfolding round_2_64 by simp
  moreover have "of_int 0 \<le> round_mag (of_int (uint v)) / (1024 * 1024 * 1024)"
    using round_mag_nonneg by simp
  ultimately have "f_between 0 (2 ^ 34) (f_round False (round_mag (of_int (uint v)) / (1024 * 1024 * 1024)))"
    by (intro f_round_between) simp_all
  then show ?thesis by (auto simp: bytesToGB_def x f_between_def finite_float_def)
qed

lemma zero_f_finite [simp]: "finite_float zero_f"
  by (simp add: zero_f_def finite_float_def)

lemma between_finite_float: "f_between a b v \<Longrightarrow> finite_float v"
  by (auto simp: f_between_def finite_float_def)

definition ram_floats :: "Memory \<Rightarrow> f64 list" where
  "ram_floats m = [rm_TotalGB m, rm_UsedGB m, rm_AvailableGB m, rm_UsagePercent m]"

lemma ram_scaled_floats: "ram_ok m \<Longrightarrow> list_all finite_float (ram_floats (ram_scaled m))"
  using ram_scaled_ok [of m] between_finite_float by (auto simp: ram_floats_def ram_scaled_def ram_ok_def)

lemma ram_from_os_floats:
  assumes "ram_ok m" and "rm_UsedBytes m = 0" and "list_all finite_float (ram_floats m)"
  shows "list_all finite_float (ram_floats (ram_from_os r m))"
  using ram_from_os_ok [OF assms(1,2), of r] assms(3) between_finite_float
  by (auto simp: ram_from_os_def Let_def ram_ok_def ram_floats_def ram_scaled_def)

lemma hardware_ram_floats: "list_all finite_float (ram_floats (hw_RAM (hardware_of u q)))"
proof -
  define h where "h = with_board q (with_bios q (with_enclosure q (with_product q (with_system q zero_Hardware))))"
  have "f_between 0 100 zero_f" by (simp add: zero_f_def)
  then have h: "ram_ok (hw_RAM h)" "rm_UsedBytes (hw_RAM h) = 0" "list_all finite_float (ram_floats (hw_RAM h))"
    by (simp_all add: h_def with_system_def zero_Hardware_def zero_Memory_def ram_ok_def ram_floats_def split: list.split)
  have "list_all finite_float (ram_floats (hw_RAM (with_os q h)))"
    using h by (auto simp: with_os_def Let_def ram_from_os_ok ram_from_os_floats ram_scaled_floats split: list.split)
  then show ?thesis by (simp add: hardware_of_def h_def [symmetric] with_memory_def ram_floats_def)
qed

lemma identify_floats [simp]: "device_floats (foldl (\<lambda>v d. identify_volume u s d v) v ds) = device_floats v"
  by (induction ds arbitrary: v) (simp_all add: identify_volume_def device_floats_def)

lemma device_floats_finite [simp]:
  "list_all finite_float (device_floats (volume_device u v))" "list_all finite_float (device_floats (drive_device u s d))"
  by (simp_all add: device_floats_def volume_device_def drive_device_def zero_StorageDevice_def Let_def)

lemma disk_totals:
  "di_TotalGB (hw_Disk (with_drives u q h)) = bytesToGB (di_TotalBytes (hw_Disk (with_drives u q h)))"
  "di_UsedGB (hw_Disk (with_drives u q h)) = bytesToGB (di_UsedBytes (hw_Disk (with_drives u q h)))"
  "di_FreeGB (hw_Disk (with_drives u q h)) = bytesToGB (di_FreeBytes (hw_Disk (with_drives u q h)))"
  by (simp_all add: with_drives_def Let_def)

lemma hardware_floats_finite: "list_all finite_float (hardware_floats (hardware_of u q))"
proof -
  have "list_all finite_float [di_TotalGB (hw_Disk (hardware_of u q)), di_UsedGB (hw_Disk (hardware_of u q)),
      di_FreeGB (hw_Disk (hardware_of u q))]"
    unfolding hardware_of_def by (simp add: disk_totals)
  moreover have "list_all finite_float (concat (map device_floats (di_Devices (hw_Disk (hardware_of u q)))))"
    "list_all finite_float (concat (map device_floats (hw_Storage (hardware_of u q))))"
    unfolding hardware_devices using device_floats_finite by (auto simp: list_all_iff)
  ultimately show ?thesis
    using hardware_ram_floats [of u q] by (simp add: hardware_floats_def ram_floats_def)
qed

lemma sort_by_floats:
  "list_all P (concat (map f (sort_by key xs))) \<longleftrightarrow> list_all P (concat (map f xs))"
proof -
  have "set (sort_by key xs) = set xs" by (metis mset_sort_by set_mset_mset)
  then show ?thesis by (simp add: list_all_iff)
qed

lemma named_sections [simp]:
  "hw_RAM (named n h) = hw_RAM h" "hw_Disk (named n h) = hw_Disk h" "hw_Storage (named n h) = hw_Storage h"
  "hardware_floats (named n h) = hardware_floats h"
  by (simp_all add: named_def hardware_floats_def)

lemma normalized_floats:
  assumes "list_all finite_float (hardware_floats h)"
  shows "list_all finite_float (hardware_floats (normalizedHardware u h))"
proof -
  have "list_all finite_float (concat (map device_floats (map quiet_device ds)))" for ds
    by (simp add: device_floats_def quiet_device_def list_all_iff)
  then show ?thesis using assms
    by (simp add: hardware_floats_def normalizedHardware_def Let_def quiet_ram_def quiet_disk_def sort_by_floats del: map_map)
qed

lemma fingerprint_exists:
  "list_all finite_float (hardware_floats h) \<Longrightarrow> \<exists>fp. inv_Fingerprint u h = Inr fp \<and> fp \<noteq> []"
proof -
  assume "list_all finite_float (hardware_floats h)"
  then obtain data where "inv_Fingerprint u h = Inr (hex_EncodeToString (sha256_Sum256 data))"
    using normalized_floats [of h u] by (auto simp: inv_Fingerprint_def Let_def Marshal_def)
  moreover have "length (hex_EncodeToString (sha256_Sum256 data)) = 64" by simp
  ultimately show ?thesis by (metis list.size(3) zero_neq_numeral)
qed


section \<open>What a pass leaves behind\<close>

definition last_fp :: string where "last_fp = ''inventory_last_fingerprint''"

text \<open>
  The outcome of a pass relative to the world after its flush. Sent: the fingerprint is remembered, one row
  with it is added to the history and the error is cleared. Queued: the fingerprint is remembered and the error
  recorded, the history stays. Skipped: only the time of the check is stored. Failed: only the duration,
  the size and the error are stored. Cancelled: nothing is stored.
\<close>

definition inv_outcome :: "world \<Rightarrow> (inv_Report \<times> error option) \<times> world \<Rightarrow> bool" where
  "inv_outcome w res \<longleftrightarrow>
    (let rep = fst (fst res); err = snd (fst res); w' = snd res; fp = ir_Fingerprint rep in
      (if ir_Result rep = ''SENT'' then err = None \<and> kv w last_fp \<noteq> Some fp \<and> kv w' last_fp = Some fp
         \<and> kv w' ''inventory_last_error'' = Some [] \<and> queued w' = queued w
         \<and> (\<exists>row. history_tab w' = history_tab w @ [row] \<and> h_fingerprint row = fp)
       else if ir_Result rep = ''QUEUED'' then is_queued err \<and> kv w last_fp \<noteq> Some fp \<and> kv w' last_fp = Some fp
         \<and> kv w' ''inventory_last_error'' = Some (error_msg (the err)) \<and> history_tab w' = history_tab w
         \<and> kv w' ''inventory_change_timeline'' = kv w ''inventory_change_timeline''
         \<and> (\<exists>i p data. ip_Fingerprint p = fp \<and> inv_marshal p = Inr data \<and> queued w' = queued w @ [(i, InventoryType, data)])
       else if ir_Result rep = ''SKIPPED'' then err = None \<and> kv w last_fp = Some fp
         \<and> (\<exists>t. kv w' = (kv w)(''inventory_last_checked'' \<mapsto> t))
         \<and> wire w' = wire w \<and> queued w' = queued w \<and> history_tab w' = history_tab w
       else err \<noteq> None \<and> \<not> is_queued err \<and> queued w' = queued w \<and> history_tab w' = history_tab w
         \<and> (if ir_Result rep = ''FAILED''
            then \<exists>d s. kv w' = (kv w)(''inventory_last_duration_ms'' \<mapsto> d, ''inventory_last_payload_size'' \<mapsto> s,
              ''inventory_last_error'' \<mapsto> error_msg (the err))
            else kv w' = kv w)))"

lemma inv_outcome_cong:
  assumes "config_tab v = config_tab w" "queue_tab v = queue_tab w" "history_tab v = history_tab w" "wire v = wire w"
  shows "inv_outcome v res \<longleftrightarrow> inv_outcome w res"
  unfolding inv_outcome_def assms ..

lemma inv_persistFailure_kv:
  "sql_ok w \<Longrightarrow> kv (snd (run_state (inv_persistFailure err rep) w)) = (kv w)
    (''inventory_last_duration_ms'' \<mapsto> FormatInt (Milliseconds (ir_Duration rep)),
     ''inventory_last_payload_size'' \<mapsto> FormatInt (ir_PayloadSize rep), ''inventory_last_error'' \<mapsto> error_msg err)"
  by (simp add: inv_persistFailure_def kv_Put run_simps)

lemma inv_failure_outcome:
  assumes "sql_ok w" and "\<not> errors_Is err ErrQueued"
  shows "inv_outcome w (run_state (inv_failure started err) w)"
  using assms by (auto simp: inv_outcome_def inv_failure_def Let_def zero_inv_Report_def inv_persistFailure_kv is_queued_def)

lemma persistSnapshot_kv:
  assumes "sql_ok w"
  shows "kv (snd (run_state (persistSnapshot h fp) w)) last_fp = Some fp"
    and "key \<notin> {last_fp, ''inventory_last_hardware''} \<Longrightarrow> kv (snd (run_state (persistSnapshot h fp) w)) key = kv w key"
  using assms by (auto simp: persistSnapshot_def kv_Put run_simps last_fp_def split: sum.split)

lemma persistTimeline_kv:
  assumes "sql_ok w" and "key \<notin> {''inventory_change_timeline'', ''inventory_last_changes''}"
  shows "kv (snd (run_state (persistTimeline cs fp) w)) key = kv w key"
  using assms by (auto simp: persistTimeline_def kv_Put run_simps Let_def split: option.split)

lemma inv_persistSuccess_kv:
  assumes "sql_ok w"
  shows "kv (snd (run_state (inv_persistSuccess rep) w)) ''inventory_last_error'' = Some []"
    and "kv (snd (run_state (inv_persistSuccess rep) w)) last_fp = kv w last_fp"
  using assms by (auto simp: inv_persistSuccess_def kv_Put run_simps last_fp_def)

lemma persistHistory_row:
  assumes "sql_ok w" and "Marshal (hardware_floats h) (Hardware_json h) = Inr data"
  shows "\<exists>row. history_tab (snd (run_state (persistHistory h fp cs) w)) = history_tab w @ [row] \<and> h_fingerprint row = fp"
  using assms by (auto simp: persistHistory_def RecordInventoryHistory_def run_simps)

lemma inv_marshal_hardware:
  "inv_marshal p = Inr data \<Longrightarrow> \<exists>d. Marshal (hardware_floats (ip_Hardware p)) (Hardware_json (ip_Hardware p)) = Inr d"
  by (auto simp: inv_marshal_def Marshal_def split: option.splits if_splits)

lemma inv_marshal_error: "inv_marshal p = Inl err \<Longrightarrow> err = Errorf ''json''"
  by (auto simp: inv_marshal_def Marshal_def split: option.splits if_splits)

lemma kv_cong: "config_tab v = config_tab w \<Longrightarrow> kv v = kv w"
  by simp

lemma inv_payload_fields:
  "ip_Fingerprint (fst (run_state (inv_payload e u hn h fp) w)) = fp"
  "ip_Hardware (fst (run_state (inv_payload e u hn h fp) w)) = h"
  by (simp_all add: inv_payload_def Let_def)

lemma inv_delivered_outcome:
  assumes "sql_ok w" and "kv w last_fp \<noteq> Some (ir_Fingerprint rep)"
    and "Marshal (hardware_floats h) (Hardware_json h) = Inr data"
  shows "inv_outcome w (run_state (inv_delivered started rep h cs) w)"
proof -
  define w1 where "w1 = snd (run_state (persistSnapshot h (ir_Fingerprint rep)) (snd (run_state Time_Now w)))"
  define w2 where "w2 = snd (run_state (persistHistory h (ir_Fingerprint rep) cs) w1)"
  define w3 where "w3 = snd (run_state (persistTimeline cs (ir_Fingerprint rep)) w2)"
  have ok: "sql_ok w1" "sql_ok w2" "sql_ok w3" using assms(1) by (simp_all add: w1_def w2_def w3_def)
  have "kv w1 last_fp = Some (ir_Fingerprint rep)" using assms(1) by (simp add: w1_def persistSnapshot_kv(1))
  then have "kv w3 last_fp = Some (ir_Fingerprint rep)"
    using persistTimeline_kv [OF ok(2), of last_fp] by (simp add: w3_def) (simp add: w2_def last_fp_def)
  moreover have "\<exists>row. history_tab w2 = history_tab w1 @ [row] \<and> h_fingerprint row = ir_Fingerprint rep"
    unfolding w2_def by (rule persistHistory_row [OF ok(1) assms(3)])
  then have "\<exists>row. history_tab w3 = history_tab w @ [row] \<and> h_fingerprint row = ir_Fingerprint rep"
    by (simp add: w3_def) (simp add: w1_def)
  ultimately show ?thesis
    using assms(2) inv_persistSuccess_kv [OF ok(3)]
    by (simp add: inv_outcome_def inv_delivered_def Let_def w1_def [symmetric])
      (simp add: w2_def [symmetric], simp add: w3_def [symmetric], simp add: w3_def w2_def w1_def)
qed

lemma inv_undelivered_kv:
  assumes "sql_ok w"
  shows "kv (snd (run_state (inv_undelivered rep h err) w)) ''inventory_last_error'' = Some (error_msg err)"
    and "errors_Is err ErrQueued \<Longrightarrow> kv (snd (run_state (inv_undelivered rep h err) w)) last_fp = Some (ir_Fingerprint rep)
      \<and> kv (snd (run_state (inv_undelivered rep h err) w)) ''inventory_change_timeline'' = kv w ''inventory_change_timeline''"
    and "\<not> errors_Is err ErrQueued \<Longrightarrow> \<exists>d s. kv (snd (run_state (inv_undelivered rep h err) w)) =
      (kv w)(''inventory_last_duration_ms'' \<mapsto> d, ''inventory_last_payload_size'' \<mapsto> s, ''inventory_last_error'' \<mapsto> error_msg err)"
  using assms persistSnapshot_kv [OF assms, where h = h and fp = "ir_Fingerprint rep"]
  by (auto simp: inv_undelivered_def Let_def inv_persistFailure_kv last_fp_def)

lemma inv_undelivered_report:
  "ir_Result (fst (fst (run_state (inv_undelivered rep h err) w))) = (if errors_Is err ErrQueued then ''QUEUED'' else ''FAILED'')"
  "ir_Fingerprint (fst (fst (run_state (inv_undelivered rep h err) w))) = ir_Fingerprint rep"
  "snd (fst (run_state (inv_undelivered rep h err) w)) = Some err"
  by (simp_all add: inv_undelivered_def Let_def)

lemma inv_send_outcome:
  assumes "sql_ok w" and "rand_ok w" and "kv w last_fp \<noteq> Some (ip_Fingerprint p)" and "inv_marshal p = Inr data"
  shows "inv_outcome w (run_state (inv_send e started cd p data) w)"
proof -
  define w1 where "w1 = snd (run_state Time_Now w)"
  define s where "s = run_state (SendJSON (inv_Sync e) InventoryEndpoint InventoryType (Inr data)) w1"
  define w2 where "w2 = snd (run_state Time_Now (snd (run_state Time_Now (snd s))))"
  define rep where "rep = zero_inv_Report\<lparr>ir_CollectDuration := cd,
    ir_UploadDuration := fst (run_state Time_Now (snd s)) - fst (run_state Time_Now w),
    ir_Duration := fst (run_state Time_Now (snd (run_state Time_Now (snd s)))) - started,
    ir_PayloadSize := int (length data), ir_HardwareCount := HardwareCount (ip_Hardware p),
    ir_ChangedItems := ip_ChangedItems p, ir_Fingerprint := ip_Fingerprint p\<rparr>"
  have w1: "ev w1 = ev w" "same_tables w1 w" by (simp_all add: w1_def)
  have queue: "queued (snd s) = queued w @ (if is_queued (snd (fst s)) then [(next_rowid (map q_id (queue_tab w)), InventoryType, data)] else [])"
    using send_report [of w1 "inv_Sync e" InventoryEndpoint InventoryType data True] assms(2) w1
    by (simp add: s_def SendJSON_def)
  have w2: "ev w2 = ev w" "config_tab w2 = config_tab w" "history_tab w2 = history_tab w" "queue_tab w2 = queue_tab (snd s)"
    by (simp_all add: w2_def s_def w1)
  have rep: "ir_Fingerprint rep = ip_Fingerprint p" by (simp add: rep_def)
  have run: "run_state (inv_send e started cd p data) w = (case snd (fst s) of
      Some err \<Rightarrow> run_state (inv_undelivered rep (ip_Hardware p) err) w2
    | None \<Rightarrow> run_state (inv_delivered started rep (ip_Hardware p) (ip_Changes p)) w2)"
    by (simp add: inv_send_def Let_def w1_def s_def w2_def rep_def split: option.split)
  show ?thesis
  proof (cases "snd (fst s)")
    case None
    obtain d where "Marshal (hardware_floats (ip_Hardware p)) (Hardware_json (ip_Hardware p)) = Inr d"
      using inv_marshal_hardware [OF assms(4)] by blast
    then have o: "inv_outcome w2 (run_state (inv_delivered started rep (ip_Hardware p) (ip_Changes p)) w2)"
      using assms(1,3) w2 rep by (intro inv_delivered_outcome) simp_all
    have "queued w2 = queued w" using queue None w2 by (simp add: is_queued_def)
    then show ?thesis using o w2 by (simp add: run None inv_outcome_def Let_def inv_delivered_def)
  next
    case (Some err)
    then show ?thesis
      using inv_undelivered_kv [where w = w2 and rep = rep and h = "ip_Hardware p" and err = err] assms(1,3,4) w2 queue rep
      by (auto simp: run inv_outcome_def Let_def inv_undelivered_report is_queued_def)
  qed
qed

lemma inv_upload_outcome:
  assumes "sql_ok w" and "rand_ok w" and "kv w last_fp \<noteq> Some fp"
  shows "inv_outcome w (run_state (inv_upload e started cd u hn h fp) w)"
proof -
  define p where "p = fst (run_state (inv_payload e u hn h fp) w)"
  define v where "v = snd (run_state (inv_payload e u hn h fp) w)"
  have v: "ev v = ev w" "same_tables v w" "wire v = wire w" by (simp_all add: v_def)
  have "inv_outcome v (run_state (inv_upload e started cd u hn h fp) w)"
  proof (cases "inv_marshal p")
    case (Inl err)
    have "inv_outcome v (run_state (inv_failure started (Wrapf ''marshal inventory payload: '' err [])) v)"
      using assms(1) v inv_marshal_error [OF Inl] by (intro inv_failure_outcome) simp_all
    then show ?thesis by (simp add: inv_upload_def p_def [symmetric] Inl v_def [symmetric])
  next
    case (Inr data)
    have "inv_outcome v (run_state (inv_send e started cd p data) v)"
      using assms v Inr by (intro inv_send_outcome) (simp_all add: p_def inv_payload_fields)
    then show ?thesis by (simp add: inv_upload_def p_def [symmetric] Inr v_def [symmetric])
  qed
  then show ?thesis using v inv_outcome_cong [of v w] by simp
qed

lemma inv_compare_outcome:
  assumes "sql_ok w" and "rand_ok w" and "fp \<noteq> []"
  shows "inv_outcome w (run_state (inv_compare e started cd u hn h fp) w)"
proof (cases "kv w last_fp = Some fp")
  case True
  then show ?thesis using assms
    by (auto simp: inv_outcome_def inv_compare_def run_simps last_fp_def kv_Put)
next
  case False
  define v where "v = snd (run_state (Get ''inventory_last_fingerprint'') w)"
  have v: "ev v = ev w" "same_tables v w" "wire v = wire w" by (simp_all add: v_def)
  have "inv_outcome v (run_state (inv_upload e started cd u hn h fp) v)"
    using assms v False by (intro inv_upload_outcome) simp_all
  moreover have "run_state (inv_compare e started cd u hn h fp) w = run_state (inv_upload e started cd u hn h fp) v"
    using assms False by (auto simp: inv_compare_def run_simps last_fp_def v_def split: option.split)
  ultimately show ?thesis using v inv_outcome_cong [of v w] by simp
qed

lemma inv_Collect_result:
  "fst (run_state inv_Collect w) = Inr h \<Longrightarrow> \<exists>q. h = hardware_of (o_lower (ev w)) q"
  by (auto simp: inv_Collect_def split: option.splits)

lemma inv_collect_outcome:
  assumes "sql_ok w" and "rand_ok w"
  shows "inv_outcome w (run_state (inv_collect e started u) w)"
proof (cases "o_hostname (ev w)")
  case (Inl m)
  have "inv_outcome w (run_state (inv_failure started (Wrapf ''read hostname: '' (Errorf m) [])) w)"
    using assms(1) by (intro inv_failure_outcome) simp_all
  then show ?thesis by (simp add: inv_collect_def Inl)
next
  case hn: (Inr hn)
  define w1 where "w1 = snd (run_state Time_Now w)"
  define w2 where "w2 = snd (run_state inv_Collect w1)"
  define w3 where "w3 = snd (run_state Time_Now w2)"
  have w: "ev w1 = ev w" "ev w2 = ev w" "ev w3 = ev w" "same_tables w2 w" "same_tables w3 w" "wire w3 = wire w" "wire w2 = wire w"
    by (simp_all add: w3_def w2_def w1_def)
  show ?thesis
  proof (cases "fst (run_state inv_Collect w1)")
    case (Inl err)
    have "inv_outcome w2 (run_state (inv_failure started err) w2)"
      using assms(1) w inv_Collect_error [OF Inl] by (intro inv_failure_outcome) simp_all
    then show ?thesis using w by (simp add: inv_collect_def hn w1_def [symmetric] Inl)
      (simp add: w2_def [symmetric] inv_outcome_cong [of w2 w])
  next
    case (Inr h)
    obtain q where q: "h = hardware_of (o_lower (ev w)) q" using inv_Collect_result [OF Inr] w by auto
    obtain fp where fp: "inv_Fingerprint (o_lower (ev w)) (named hn h) = Inr fp" "fp \<noteq> []"
      using fingerprint_exists [of "named hn h" "o_lower (ev w)"] hardware_floats_finite by (auto simp: q)
    define cd where "cd = fst (run_state Time_Now w2) - fst (run_state Time_Now w)"
    have "inv_outcome w3 (run_state (inv_compare e started cd u hn (named hn h) fp) w3)"
      using assms w fp by (intro inv_compare_outcome) simp_all
    moreover have "run_state (inv_collect e started u) w = run_state (inv_compare e started cd u hn (named hn h) fp) w3"
      by (simp add: inv_collect_def hn w1_def [symmetric] Inr)
        (simp add: w2_def [symmetric] fp Let_def w3_def cd_def)
    ultimately show ?thesis using w inv_outcome_cong [of w3 w] by simp
  qed
qed

text \<open>The world of a pass after its flush.\<close>

definition inv_flushed :: "inv_engine \<Rightarrow> world \<Rightarrow> world" where
  "inv_flushed e w = snd (run_state (Flush (inv_Sync e)) (snd (run_state ctx_Err (snd (run_state Time_Now w)))))"

lemma inv_flushed_frame [simp]:
  "ev (inv_flushed e w) = ev w" "config_tab (inv_flushed e w) = config_tab w" "history_tab (inv_flushed e w) = history_tab w"
  by (simp_all add: inv_flushed_def)

text \<open>A pass is cancelled before it begins, or ends with an outcome relative to the world after its flush.\<close>

lemma inv_RunOnce_outcome:
  assumes "sql_ok w" and "rand_ok w"
  shows "ir_Result (fst (fst (run_state (inv_RunOnce e) w))) = [] \<and> snd (fst (run_state (inv_RunOnce e) w)) = Some CtxCanceled
      \<and> same_tables (snd (run_state (inv_RunOnce e) w)) w
    \<or> inv_outcome (inv_flushed e w) (run_state (inv_RunOnce e) w)"
proof (cases "fst (run_state ctx_Err (snd (run_state Time_Now w)))")
  case (Some err)
  then show ?thesis
    by (auto simp: inv_RunOnce_def zero_inv_Report_def ctx_Err_def split: option.splits if_splits)
next
  case None
  define v where "v = snd (run_state (Get ''agent_uuid'') (inv_flushed e w))"
  define st where "st = fst (run_state Time_Now w)"
  have v: "ev v = ev w" "same_tables v (inv_flushed e w)" "wire v = wire (inv_flushed e w)" by (simp_all add: v_def)
  have uuid: "fst (run_state (Get ''agent_uuid'') (inv_flushed e w)) = Inr (kv w ''agent_uuid'')"
    using assms by (simp add: run_simps)
  have run: "run_state (inv_RunOnce e) w = run_state (case kv w ''agent_uuid'' of
      None \<Rightarrow> inv_failure st ErrNotRegistered
    | Some u \<Rightarrow> if u = [] then inv_failure st ErrNotRegistered else inv_collect e st u) v"
    using None uuid
    by (simp add: inv_RunOnce_def inv_flushed_def [symmetric] v_def [symmetric] st_def [symmetric] split: option.split)
  have "inv_outcome v (run_state (inv_failure st ErrNotRegistered) v)"
    "inv_outcome v (run_state (inv_collect e st u) v)" for u
    using assms v by (intro inv_failure_outcome inv_collect_outcome; simp)+
  then have "inv_outcome v (run_state (inv_RunOnce e) w)"
    unfolding run by (simp split: option.split)
  then show ?thesis using v inv_outcome_cong [of v "inv_flushed e w"] by simp
qed


section \<open>A pass of a registered agent\<close>

lemma inv_marshal_ok:
  assumes "time_text (ip_Timestamp p, 0) \<noteq> None" and "list_all finite_float (health_floats (ip_Health p))"
    and "list_all finite_float (hardware_floats (ip_Hardware p))"
  shows "\<exists>data. inv_marshal p = Inr data"
  using assms by (auto simp: inv_marshal_def Marshal_def)

lemma inv_payload_marshals:
  assumes "\<forall>n. time_text (o_time (ev w) n, 0) \<noteq> None" and "ram_ok (hw_RAM h)"
    and "list_all finite_float (hardware_floats h)"
  shows "\<exists>data. inv_marshal (fst (run_state (inv_payload e u hn h fp) w)) = Inr data"
proof (rule inv_marshal_ok)
  have now: "fst (run_state Time_Now v) = o_time (ev v) (n_time v)" for v by (simp add: Time_Now_def)
  show "time_text (ip_Timestamp (fst (run_state (inv_payload e u hn h fp) w)), 0) \<noteq> None"
    using assms(1) by (simp add: inv_payload_def Let_def now)
  have "list_all finite_float (health_floats (fst (run_state (inv_health h) v)))" for v
    using inv_health_floats [OF assms(2), of v] between_finite_float by (auto simp: list_all_iff)
  then show "list_all finite_float (health_floats (ip_Health (fst (run_state (inv_payload e u hn h fp) w))))"
    by (simp add: inv_payload_def Let_def)
qed (simp add: inv_payload_fields assms(3))

text \<open>How a pass ends for an agent that is ready: the snapshot is skipped, sent or queued.\<close>

definition inv_ready :: "inv_engine \<Rightarrow> string \<Rightarrow> world \<Rightarrow> bool" where
  "inv_ready e token w \<longleftrightarrow>
    ready (inv_Sync e) token w \<and> never_cancelled w \<and> (\<exists>u. kv w ''agent_uuid'' = Some u \<and> u \<noteq> [])
    \<and> (\<exists>host. o_hostname (ev w) = Inr host) \<and> (\<forall>n. time_text (o_time (ev w) n, 0) \<noteq> None)"

lemma inv_ready_cong: "ev v = ev w \<Longrightarrow> config_tab v = config_tab w \<Longrightarrow> inv_ready e token v \<longleftrightarrow> inv_ready e token w"
  by (simp add: inv_ready_def ready_def)

definition settled :: "world \<Rightarrow> string \<Rightarrow> inv_Report \<times> error option \<Rightarrow> bool" where
  "settled w fp r \<longleftrightarrow> ir_Fingerprint (fst r) = fp
    \<and> (ir_Result (fst r) = ''SKIPPED''
      \<or> ir_Result (fst r) = ''SENT'' \<and> (\<exists>n q. portal_ok (o_net (ev w) n q))
      \<or> ir_Result (fst r) = ''QUEUED'' \<and> (\<exists>n q. \<not> portal_ok (o_net (ev w) n q)))"

lemma inv_send_settled:
  assumes "ready (inv_Sync e) token w" and "never_cancelled w"
  shows "settled w (ip_Fingerprint p) (fst (run_state (inv_send e started cd p data) w))"
proof -
  define w1 where "w1 = snd (run_state Time_Now w)"
  have w1: "ready (inv_Sync e) token w1" "never_cancelled w1" "ev w1 = ev w"
    using assms ready_cong [of w1 w] by (simp_all add: w1_def)
  obtain rs where rs: "snd (fst (run_state (send (inv_Sync e) InventoryEndpoint InventoryType data True) w1)) = None \<longleftrightarrow>
      portal_ok (o_net (ev w) (length (wire w1) + (length rs - 1)) (List.last rs))"
    using send_ready [OF w1(1), of InventoryEndpoint InventoryType data True] w1(3) by metis
  show ?thesis
  proof (cases "snd (fst (run_state (send (inv_Sync e) InventoryEndpoint InventoryType data True) w1))")
    case None
    then show ?thesis
      using rs by (auto simp: settled_def inv_send_def w1_def [symmetric] SendJSON_def Let_def inv_delivered_def)
  next
    case (Some err)
    then have "is_queued (Some err)" using send_ready_queues [OF w1(1,2)] by (metis option.distinct(1))
    then show ?thesis
      using rs Some by (auto simp: settled_def inv_send_def w1_def [symmetric] SendJSON_def Let_def inv_undelivered_report is_queued_def)
  qed
qed

lemma inv_RunOnce_settled:
  assumes "inv_ready e token w"
  shows "\<exists>k host fp. o_hostname (ev w) = Inr host
    \<and> inv_Fingerprint (o_lower (ev w)) (named host (hardware_of (o_lower (ev w)) (o_wmi (ev w) k))) = Inr fp
    \<and> settled w fp (fst (run_state (inv_RunOnce e) w))"
proof -
  obtain u host where u: "kv w ''agent_uuid'' = Some u" "u \<noteq> []" and host: "o_hostname (ev w) = Inr host"
    using assms by (auto simp: inv_ready_def)
  have ok: "ready (inv_Sync e) token w" "sql_ok w" "never_cancelled w" using assms by (simp_all add: inv_ready_def ready_def)
  define st where "st = fst (run_state Time_Now w)"
  define v where "v = snd (run_state Time_Now (snd (run_state (Get ''agent_uuid'') (inv_flushed e w))))"
  define x where "x = snd (run_state ctx_Err v)"
  define h where "h = named host (hardware_of (o_lower (ev w)) (o_wmi (ev w) (n_reg x)))"
  define v3 where "v3 = snd (run_state Time_Now (snd (run_state wmi_read x)))"
  obtain fp where fp: "inv_Fingerprint (o_lower (ev w)) h = Inr fp" "fp \<noteq> []"
    using fingerprint_exists [of h "o_lower (ev w)"] hardware_floats_finite by (auto simp: h_def)
  define v4 where "v4 = snd (run_state (Get ''inventory_last_fingerprint'') v3)"
  have frames: "ev v = ev w" "ev x = ev w" "ev v3 = ev w" "ev v4 = ev w" "config_tab v3 = config_tab w" "config_tab v4 = config_tab w"
    by (simp_all add: v_def x_def v3_def v4_def)
  define cd where "cd = fst (run_state Time_Now (snd (run_state wmi_read x))) - fst (run_state Time_Now (snd (run_state (Get ''agent_uuid'') (inv_flushed e w))))"
  have col: "run_state inv_Collect v = (Inr (hardware_of (o_lower (ev w)) (o_wmi (ev w) (n_reg x))), snd (run_state wmi_read x))"
    using ok(3) frames by (simp add: inv_Collect_def run_simps x_def) (simp add: wmi_read_def)
  have run: "run_state (inv_RunOnce e) w = run_state (inv_compare e st cd u host h fp) v3"
    using ok u host
    by (simp add: inv_RunOnce_def run_simps inv_flushed_def [symmetric] st_def [symmetric] inv_collect_def)
      (simp add: v_def [symmetric] col h_def [symmetric] fp Let_def v3_def cd_def)
  define p where "p = fst (run_state (inv_payload e u host h fp) v4)"
  define v5 where "v5 = snd (run_state (inv_payload e u host h fp) v4)"
  have ram: "ram_ok (hw_RAM h)" by (simp add: h_def hardware_ram_ok)
  have fl: "list_all finite_float (hardware_floats h)" by (simp add: h_def hardware_floats_finite)
  obtain data where data: "inv_marshal p = Inr data"
    using inv_payload_marshals [of v4 h e u host fp] assms frames ram fl by (auto simp: inv_ready_def p_def)
  have v5: "ev v5 = ev w" "config_tab v5 = config_tab w" by (simp_all add: v5_def frames)
  then have "settled v5 fp (fst (run_state (inv_send e st cd p data) v5))"
    using inv_send_settled [of e token v5 p st cd data] ok ready_cong [of v5 w] by (simp add: p_def inv_payload_fields)
  then have sent: "settled w fp (fst (run_state (inv_send e st cd p data) v5))"
    using v5 by (simp add: settled_def)
  have "settled w fp (fst (run_state (inv_compare e st cd u host h fp) v3))"
  proof (cases "kv w last_fp = Some fp")
    case True
    then show ?thesis using ok frames by (simp add: inv_compare_def run_simps last_fp_def settled_def)
  next
    case False
    then have "run_state (inv_compare e st cd u host h fp) v3 = run_state (inv_send e st cd p data) v5"
      using ok frames fp(2)
      by (auto simp: inv_compare_def run_simps last_fp_def v4_def [symmetric] inv_upload_def p_def [symmetric] v5_def [symmetric] data
          split: option.split)
    with sent show ?thesis by simp
  qed
  with fp host show ?thesis unfolding run h_def by blast
qed


section \<open>The timeline\<close>

lemma next_timeline_props:
  "length (next_timeline event old) = min 50 (length old + 1)"
  "List.last (next_timeline event old) = event"
  "butlast (next_timeline event old) = drop (length old - 49) old"
proof -
  show len: "length (next_timeline event old) = min 50 (length old + 1)" by (simp add: next_timeline_def Let_def)
  show "List.last (next_timeline event old) = event" by (auto simp: next_timeline_def Let_def)
  show "butlast (next_timeline event old) = drop (length old - 49) old"
    by (auto simp: next_timeline_def Let_def butlast_append simp flip: drop_butlast)
qed

lemma persistTimeline_stored:
  assumes "sql_ok w"
    and "event = \<lparr>ie_Timestamp = (o_time (ev w) (n_time w), 0), ie_Fingerprint = fp, ie_Changes = Some cs\<rparr>"
  shows "kv (snd (run_state (persistTimeline cs fp) w)) ''inventory_change_timeline'' =
    (case timeline_text (next_timeline event (stored_timeline (Inr (kv w ''inventory_change_timeline'')))) of
       Some v \<Rightarrow> Some v | None \<Rightarrow> kv w ''inventory_change_timeline'')"
proof -
  have "fst (run_state Time_Now w) = o_time (ev w) (n_time w)" by (simp add: Time_Now_def)
  then show ?thesis
    using assms by (auto simp: persistTimeline_def Let_def run_simps kv_Put split: option.split)
qed

section \<open>The keys of a pass\<close>

definition inv_keys :: "string list" where
  "inv_keys = [''inventory_last_success'', ''inventory_last_duration_ms'', ''inventory_last_payload_size'',
    ''inventory_last_error'', ''inventory_last_hardware'', ''inventory_last_fingerprint'', ''inventory_change_timeline'',
    ''inventory_last_changes'', ''inventory_last_checked'']"

lemma Put_other: "k \<noteq> key \<Longrightarrow> config_tab (snd (run_state (Put key v) w)) k = config_tab w k"
  by (simp add: Put_def split: option.split)

lemma inv_persist_other:
  assumes "k \<notin> set inv_keys"
  shows "config_tab (snd (run_state (inv_persistFailure err rep) w)) k = config_tab w k"
    and "config_tab (snd (run_state (inv_failure st err) w)) k = config_tab w k"
    and "config_tab (snd (run_state (inv_persistSuccess rep) w)) k = config_tab w k"
    and "config_tab (snd (run_state (persistSnapshot h fp) w)) k = config_tab w k"
    and "config_tab (snd (run_state (persistTimeline cs fp) w)) k = config_tab w k"
  using assms
  by (simp_all add: inv_keys_def inv_persistFailure_def inv_failure_def inv_persistSuccess_def persistSnapshot_def
      persistTimeline_def Put_other Let_def split: sum.split option.split)

lemma inv_RunOnce_other:
  assumes "k \<notin> set inv_keys"
  shows "config_tab (snd (run_state (inv_RunOnce e) w)) k = config_tab w k"
proof -
  have "config_tab (snd (run_state (inv_undelivered rep h err) v)) k = config_tab v k"
    "config_tab (snd (run_state (inv_delivered st rep h cs) v)) k = config_tab v k" for rep h err st cs v
    using inv_persist_other [OF assms] by (simp_all add: inv_undelivered_def inv_delivered_def Let_def)
  then have "config_tab (snd (run_state (inv_send e st cd p data) v)) k = config_tab v k" for st cd p data v
    by (simp add: inv_send_def Let_def split: option.split)
  then have "config_tab (snd (run_state (inv_upload e st cd u hn h fp) v)) k = config_tab v k" for st cd u hn h fp v
    using inv_persist_other [OF assms] by (simp add: inv_upload_def split: sum.split)
  then have "config_tab (snd (run_state (inv_compare e st cd u hn h fp) v)) k = config_tab v k" for st cd u hn h fp v
    using assms by (simp add: inv_compare_def Put_other inv_keys_def)
  then show ?thesis
    using inv_persist_other [OF assms]
    by (simp add: inv_RunOnce_def inv_collect_def Let_def split: option.split sum.split)
qed

lemma inv_ready_keep:
  assumes "inv_ready e token w"
  shows "inv_ready e token (snd (run_state (inv_RunOnce e') w))"
proof -
  have "config_tab (snd (run_state (inv_RunOnce e') w)) k = config_tab w k" if "k \<in> {''agent_uuid'', ''agent_token''}" for k
    using that by (intro inv_RunOnce_other) (auto simp: inv_keys_def)
  then show ?thesis using assms by (simp add: inv_ready_def ready_def env_holds_secret_def tab_value_def)
qed

section \<open>Concrete agents\<close>

text \<open>A registered agent whose clock stands still, with a network of its own.\<close>

definition world_inv :: "(nat \<Rightarrow> request \<Rightarrow> string + response) \<Rightarrow> world" where
  "world_inv net = world_beat\<lparr>ev := (ev world_beat)\<lparr>o_time := \<lambda>_. 0, o_net := net\<rparr>\<rparr>"

definition inv_engine1 :: inv_engine where
  "inv_engine1 = \<lparr>inv_Sync = engine1, inv_Version = ''0.2.0''\<rparr>"

lemma world_inv_facts:
  "inv_ready inv_engine1 ''tok'' (world_inv net)" "sql_ok (world_inv net)" "rand_ok (world_inv net)"
  "o_net (ev (world_inv net)) = net" "o_wmi (ev (world_inv net)) k = wmi_none" "kv (world_inv net) last_fp = None"
proof -
  have r: "ready engine1 ''tok'' world_beat" using world_beat_ready(1) by (simp add: hb_engine1_def)
  then have "ready engine1 ''tok'' (world_inv net)"
    by (simp add: ready_def world_inv_def env_sql_ok_def env_rand_ok_def env_holds_secret_def)
  moreover from this show "sql_ok (world_inv net)" "rand_ok (world_inv net)" by (simp_all add: ready_def)
  moreover have "never_cancelled (world_inv net)" "kv (world_inv net) = kv world_beat"
    "o_hostname (ev (world_inv net)) = Inr ''host''" "o_time (ev (world_inv net)) n = 0" for n
    using world_beat_ready(4,8) by (simp_all add: world_inv_def env_background_def)
  ultimately show "inv_ready inv_engine1 ''tok'' (world_inv net)"
    using world_beat_ready(7) by (simp add: inv_ready_def inv_engine1_def time_text_epoch)
  show "o_net (ev (world_inv net)) = net" by (simp add: world_inv_def)
  show "o_wmi (ev (world_inv net)) k = wmi_none" by (simp add: world_inv_def world_beat_def world1_def world0_def env0_def)
  show "kv (world_inv net) last_fp = None" by (simp add: world_inv_def world_beat_def tab_value_def last_fp_def)
qed

text \<open>Every pass on this machine computes the same fingerprint.\<close>

definition fp_inv :: string where
  "fp_inv = (case inv_Fingerprint (\<lambda>r. r) (named ''host'' (hardware_of (\<lambda>r. r) wmi_none)) of Inr fp \<Rightarrow> fp | Inl _ \<Rightarrow> [])"

lemma world_inv_settled:
  assumes "ev v = ev (world_inv net)" and "inv_ready inv_engine1 ''tok'' v"
  shows "settled v fp_inv (fst (run_state (inv_RunOnce inv_engine1) v))"
proof -
  have E: "o_lower (ev v) = (\<lambda>r. r)" "o_hostname (ev v) = Inr ''host''" "o_wmi (ev v) k = wmi_none" for k
    using assms(1) by (simp_all add: world_inv_def world_beat_def world1_def world0_def env0_def)
  show ?thesis using inv_RunOnce_settled [OF assms(2)] by (auto simp: E fp_inv_def)
qed

text \<open>With the network down, its first pass queues and leaves an agent that is as ready as before.\<close>

lemma queued_pass:
  assumes "run_state (inv_RunOnce inv_engine1) (world_inv (\<lambda>_ _. Inl ''down'')) = ((rep, err), w')"
  shows "ir_Result rep = ''QUEUED''" and "ir_Fingerprint rep = fp_inv" and "ev w' = ev (world_inv (\<lambda>_ _. Inl ''down''))"
    and "inv_ready inv_engine1 ''tok'' w'"
proof -
  let ?w = "world_inv (\<lambda>_ _. Inl ''down'')"
  note facts = world_inv_facts [of "\<lambda>_ _. Inl ''down''"]
  have s: "settled ?w fp_inv (rep, err)" using world_inv_settled [OF refl facts(1)] assms by simp
  moreover have o: "inv_outcome (inv_flushed inv_engine1 ?w) ((rep, err), w')"
    using inv_RunOnce_outcome [OF facts(2,3), of inv_engine1] s assms by (auto simp: settled_def)
  ultimately show rep: "ir_Result rep = ''QUEUED''" "ir_Fingerprint rep = fp_inv"
    using facts(4,6) by (auto simp: settled_def portal_ok_def inv_outcome_def Let_def)
  show E: "ev w' = ev ?w" using inv_RunOnce_frame(1) [of inv_engine1 ?w] assms by simp
  show "inv_ready inv_engine1 ''tok'' w'"
    using inv_ready_keep [OF facts(1), of inv_engine1] assms by simp
qed

section \<open>Properties\<close>





text \<open>
  No snapshot is uploaded twice: after a pass that sent, queued or skipped, a later pass that computes the same
  fingerprint skips, makes no request but those of the flush, and leaves the queue and the history alone, whatever
  ran in between, as long as the remembered fingerprint stayed.
\<close>

theorem inventory_unchanged_is_skipped:
  assumes "sql_ok w" and "rand_ok w" and "run_state (inv_RunOnce e) w = ((rep, err), w')"
    and "ir_Result rep \<in> {''SENT'', ''QUEUED'', ''SKIPPED''}"
    and "sql_ok v" and "rand_ok v" and "kv v last_fp = kv w' last_fp"
    and "run_state (inv_RunOnce e) v = ((rep2, err2), v')" and "ir_Result rep2 \<in> {''SENT'', ''QUEUED'', ''SKIPPED''}"
    and "ir_Fingerprint rep2 = ir_Fingerprint rep"
  shows "ir_Result rep2 = ''SKIPPED'' \<and> err2 = None \<and> wire v' = wire (inv_flushed e v)
    \<and> queued v' = queued (inv_flushed e v) \<and> history_tab v' = history_tab v"
  using inv_RunOnce_outcome [OF assms(1,2), of e] inv_RunOnce_outcome [OF assms(5,6), of e] assms(4,7,9,10)
  unfolding assms(3,8) by (auto simp: inv_outcome_def Let_def last_fp_def)

theorem inventory_unchanged_is_skipped_witness:
  "\<exists>rep2 err2 v'. run_state (inv_RunOnce inv_engine1)
      (snd (run_state (inv_RunOnce inv_engine1) (world_inv (\<lambda>_ _. Inl ''down'')))) = ((rep2, err2), v')
    \<and> ir_Result rep2 = ''SKIPPED'' \<and> err2 = None"
proof -
  let ?w = "world_inv (\<lambda>_ _. Inl ''down'')"
  note facts = world_inv_facts [of "\<lambda>_ _. Inl ''down''"]
  obtain rep err w' where run: "run_state (inv_RunOnce inv_engine1) ?w = ((rep, err), w')" by (metis surj_pair)
  obtain rep2 err2 v' where run2: "run_state (inv_RunOnce inv_engine1) w' = ((rep2, err2), v')" by (metis surj_pair)
  have rep: "ir_Result rep = ''QUEUED''" "ir_Fingerprint rep = fp_inv" using queued_pass [OF run] by simp_all
  have w': "ev w' = ev ?w" "inv_ready inv_engine1 ''tok'' w'" "sql_ok w'" "rand_ok w'"
    using queued_pass [OF run] facts(2,3) by simp_all
  have rep2: "ir_Fingerprint rep2 = fp_inv" "ir_Result rep2 \<in> {''SENT'', ''QUEUED'', ''SKIPPED''}"
    using world_inv_settled [OF w'(1,2)] run2 by (auto simp: settled_def)
  show ?thesis
    using inventory_unchanged_is_skipped [OF facts(2,3) run _ w'(3,4) refl run2] run run2 rep rep2 by simp
qed

text \<open>
  The timeline is bounded and keeps the newest events: after an upload the stored timeline has at
  most 50 events, the last is the new one with all its changes, and before it stand the newest of the stored
  events in their order. A timeline that cannot be read starts again, one that cannot be written stays.
\<close>

theorem timeline_bounded:
  assumes "sql_ok w" and "old = stored_timeline (Inr (kv w ''inventory_change_timeline''))"
    and "new = next_timeline \<lparr>ie_Timestamp = (o_time (ev w) (n_time w), 0), ie_Fingerprint = fp, ie_Changes = Some cs\<rparr> old"
  shows "kv (snd (run_state (persistTimeline cs fp) w)) ''inventory_change_timeline'' =
      (case timeline_text new of Some v \<Rightarrow> Some v | None \<Rightarrow> kv w ''inventory_change_timeline'')
    \<and> length new \<le> 50 \<and> ie_Changes (List.last new) = Some cs \<and> ie_Fingerprint (List.last new) = fp
    \<and> butlast new = drop (length old - 49) old"
  using persistTimeline_stored [OF assms(1) refl, of cs fp] assms(2,3) by (simp add: next_timeline_props)

theorem timeline_bounded_witness:
  "length (next_timeline \<lparr>ie_Timestamp = (0, 0), ie_Fingerprint = ''f'', ie_Changes = Some []\<rparr>
    (stored_timeline (Inr None))) \<le> 50"
proof -
  let ?w = "world_inv (\<lambda>_ _. Inl ''down'')"
  have "kv ?w ''inventory_change_timeline'' = None" "o_time (ev ?w) n = 0" for n
    by (simp_all add: world_inv_def world_beat_def tab_value_def)
  then show ?thesis using timeline_bounded [OF world_inv_facts(2) refl refl, where net3 = "\<lambda>_ _. Inl ''down''" and fp = "''f''" and cs = "[]"] by simp
qed


end
