(* ===== verification/JsonText.thy ===== *)
theory JsonText
  imports GoJson
begin

text \<open>
  What \<open>encoding/json\<close> writes, it reads back: a printed tree parses to the same tree. Text that is not valid UTF-8
  comes back with U+FFFD for every byte that is no part of a rune, which is what \<open>utf8_clean\<close> does.
\<close>

section \<open>Valid text\<close>

definition utf8_clean :: "string \<Rightarrow> string" where
  "utf8_clean s = concat (map EncodeRune (runes s))"

lemma byte_val_byte_of [simp]: "n < 256 \<Longrightarrow> byte_val (byte_of n) = n"
  by (simp add: byte_val_def byte_of_def)

lemma byte_of_val [simp]: "byte_of (byte_val c) = c"
  by (simp add: byte_of_def byte_val_def)

lemma EncodeRune_ascii: "r < 0x80 \<Longrightarrow> EncodeRune r = [byte_of r]"
  by (simp add: EncodeRune_def)

lemma DecodeRune_ascii: "byte_val c < 0x80 \<Longrightarrow> DecodeRune (c # r) = (byte_val c, 1)"
  by (simp add: DecodeRune_def)

text \<open>A rune beyond ASCII is decoded from its own bytes, whatever follows, and none of them is in ASCII.\<close>

lemma DecodeRune_cases:
  assumes "DecodeRune s = (r, n)" and "(r, n) \<noteq> (RuneError, 1)" and "s = c # s1" and "0x80 \<le> byte_val c"
  obtains (two) b u where "s1 = b # u" "n = 2" "0xC2 \<le> byte_val c" "byte_val c \<le> 0xDF"
      "continuation (byte_val b)" "r = (byte_val c - 0xC0) * 64 + (byte_val b - 0x80)"
  | (three) b d u where "s1 = b # d # u" "n = 3" "0xE0 \<le> byte_val c" "byte_val c \<le> 0xEF"
      "second_ok (byte_val c) (byte_val b)" "continuation (byte_val d)"
      "r = (byte_val c - 0xE0) * 4096 + (byte_val b - 0x80) * 64 + (byte_val d - 0x80)"
  | (four) b d e u where "s1 = b # d # e # u" "n = 4" "0xF0 \<le> byte_val c" "byte_val c \<le> 0xF4"
      "second_ok (byte_val c) (byte_val b)" "continuation (byte_val d)" "continuation (byte_val e)"
      "r = (byte_val c - 0xF0) * 262144 + (byte_val b - 0x80) * 4096 + (byte_val d - 0x80) * 64 + (byte_val e - 0x80)"
proof -
  consider "s1 = []" | b where "s1 = [b]" | b d where "s1 = [b, d]" | b d e u where "s1 = b # d # e # u"
    by (metis list.exhaust)
  then show ?thesis
  proof cases
    case 1
    then show ?thesis using assms by (simp add: DecodeRune_def split: if_splits)
  next
    case 2
    then show ?thesis using assms two by (simp add: DecodeRune_def split: if_splits)
  next
    case 3
    then show ?thesis using assms two three by (simp add: DecodeRune_def split: if_splits)
  next
    case 4
    then show ?thesis using assms two three four by (simp add: DecodeRune_def split: if_splits)
  qed
qed

lemma second_ok_high: "second_ok b0 b1 \<Longrightarrow> 0x80 \<le> b1"
  by (auto simp: second_ok_def continuation_def split: if_splits)

lemma DecodeRune_own_bytes:
  assumes "DecodeRune s = (r, n)" and "(r, n) \<noteq> (RuneError, 1)" and "s = c # s1" and "0x80 \<le> byte_val c"
  shows "DecodeRune (take n s @ t) = (r, n)" and "list_all (\<lambda>c. 0x80 \<le> byte_val c) (take n s)"
    and "length (take n s) = n" and "0 < n"
  using assms(3,4)
  by (cases rule: DecodeRune_cases [OF assms]; simp add: DecodeRune_def second_ok_high continuation_def)+

lemma line_separator_width:
  assumes "DecodeRune s = (r, n)" and "r \<in> {0x2028, 0x2029}" and "s = c # s1" and "0x80 \<le> byte_val c"
  shows "n = 3"
proof -
  have "(r, n) \<noteq> (RuneError, 1)" using assms(2) by (auto simp: RuneError_def)
  from assms(1) this assms(3,4) show ?thesis
  proof (cases rule: DecodeRune_cases)
    case (two b u)
    then have "byte_val c - 0xC0 \<le> 31" "byte_val b - 0x80 \<le> 63" unfolding continuation_def by linarith+
    with two(6) have "r < 0x2028" by linarith
    with assms(2) show ?thesis by auto
  next
    case (four b d e u)
    have "0x10000 \<le> r"
    proof (cases "byte_val c = 0xF0")
      case True
      with four(5) have "144 \<le> byte_val b" by (simp add: second_ok_def)
      then have "16 \<le> byte_val b - 0x80" by linarith
      with four(8) show ?thesis by linarith
    next
      case False
      with four show ?thesis by simp
    qed
    with assms(2) show ?thesis by auto
  qed
qed

section \<open>A string literal\<close>

lemma scan_string_high:
  "list_all (\<lambda>c. 0x80 \<le> byte_val c) e \<Longrightarrow>
    scan_string (e @ t) = map_option (\<lambda>(u, k). (e @ u, k)) (scan_string t)"
proof (induction e)
  case (Cons c e)
  then have "c \<noteq> quote" "c \<noteq> backslash" "\<not> control c"
    by (auto simp: quote_def backslash_def control_def byte_val_def)
  with Cons show ?case by (cases "scan_string t") (auto simp: scan_string.simps)
qed (cases "scan_string t"; auto)

lemma hex_val_lower: "n < 16 \<Longrightarrow> hex_val (lower_hex n) = Some n"
proof -
  have "list_all (\<lambda>n. hex_val (lower_hex n) = Some n) [0..<16]" by code_simp
  then show "n < 16 \<Longrightarrow> ?thesis" by (simp add: list_all_iff)
qed

lemma unicode_escape_read:
  assumes "list_all is_hex h" and "length h = 4"
  shows "scan_string ([backslash] @ ''u'' @ h @ t) = map_option (\<lambda>(u, k). ([backslash] @ ''u'' @ h @ u, k)) (scan_string t)"
    and "\<not> (0xD800 \<le> hex4 h \<and> hex4 h < 0xE000) \<Longrightarrow> unquote ([backslash] @ ''u'' @ h @ t) = EncodeRune (hex4 h) @ unquote t"
proof -
  obtain a b c d where h: "h = [a, b, c, d]" using assms(2) by (auto simp: numeral_eq_Suc length_Suc_conv)
  show "scan_string ([backslash] @ ''u'' @ h @ t) = map_option (\<lambda>(u, k). ([backslash] @ ''u'' @ h @ u, k)) (scan_string t)"
    using assms(1) by (simp add: h scan_string.simps backslash_def quote_def)
  assume "\<not> (0xD800 \<le> hex4 h \<and> hex4 h < 0xE000)"
  then have "unquote_step ([backslash] @ ''u'' @ h @ t) = (EncodeRune (hex4 h), 6)"
    by (auto simp: h unquote_step_def getu4_def)
  then show "unquote ([backslash] @ ''u'' @ h @ t) = EncodeRune (hex4 h) @ unquote t"
    by (simp add: h unquote.simps [of "backslash # _"])
qed

lemma special_escapes:
  "list_all is_hex ''fffd''" "list_all is_hex ''2028''" "list_all is_hex ''2029''"
  "hex4 ''fffd'' = 0xFFFD" "hex4 ''2028'' = 0x2028" "hex4 ''2029'' = 0x2029"
  by (simp_all add: is_hex_def hex4_def hex_val_def is_digit_def digit_val_def byte_val_def)

lemma special_escape_read:
  assumes "(h, r) \<in> set [(''fffd'', 0xFFFD), (''2028'', 0x2028), (''2029'', 0x2029)]"
  shows "scan_string (([backslash] @ ''u'' @ h) @ t) = map_option (\<lambda>(u, k). (([backslash] @ ''u'' @ h) @ u, k)) (scan_string t)"
    and "unquote (([backslash] @ ''u'' @ h) @ t) = EncodeRune r @ unquote t"
proof -
  consider "h = ''fffd''" "r = 0xFFFD" | "h = ''2028''" "r = 0x2028" | "h = ''2029''" "r = 0x2029"
    using assms by auto
  then have h: "list_all is_hex h" "length h = 4" "hex4 h = r" "\<not> (0xD800 \<le> hex4 h \<and> hex4 h < 0xE000)"
    by (cases; simp only: special_escapes; simp)+
  then show "scan_string (([backslash] @ ''u'' @ h) @ t) = map_option (\<lambda>(u, k). (([backslash] @ ''u'' @ h) @ u, k)) (scan_string t)"
    "unquote (([backslash] @ ''u'' @ h) @ t) = EncodeRune r @ unquote t"
    using unicode_escape_read [OF h(1,2), of t] by simp_all
qed

lemma html_safe_plain: "html_safe (byte_val c) \<Longrightarrow> json_plain c"
  by (auto simp: html_safe_def json_plain_def quote_def backslash_def control_def byte_val_def)

lemma escape_byte_cases:
  assumes "byte_val c < 0x80"
  obtains (plain) "escape_byte c = [c]" "json_plain c"
  | (short) e where "escape_byte c = [backslash, e]" "simple_escape e" "e \<noteq> CHR ''u''" "unescape e = c"
  | (long) "escape_byte c = [backslash] @ ''u00'' @ [lower_hex (byte_val c div 16), lower_hex (byte_val c mod 16)]"
proof -
  let ?short = "[quote, backslash, CHR 0x08, CHR 0x0C, CHR 0x0A, CHR 0x0D, CHR 0x09]"
  consider "html_safe (byte_val c)" | "\<not> html_safe (byte_val c)" "c \<in> set ?short"
    | "\<not> html_safe (byte_val c)" "c \<notin> set ?short" by blast
  then show ?thesis
  proof cases
    case 1
    then show ?thesis using plain html_safe_plain by (simp add: escape_byte_def)
  next
    case 2
    then obtain e where "escape_byte c = [backslash, e]" "e \<in> set ([quote, backslash] @ ''bfnrt'')" "unescape e = c"
      by (auto simp: escape_byte_def unescape_def quote_def backslash_def)
    then show ?thesis using short [of e] by (auto simp: simple_escape_def quote_def backslash_def)
  next
    case 3
    then show ?thesis using long by (simp add: escape_byte_def)
  qed
qed

lemma control_hex:
  assumes "byte_val c < 0x80"
  shows "list_all is_hex (''00'' @ [lower_hex (byte_val c div 16), lower_hex (byte_val c mod 16)])"
    and "hex4 (''00'' @ [lower_hex (byte_val c div 16), lower_hex (byte_val c mod 16)]) = byte_val c"
proof -
  have "hex_val (CHR ''0'') = Some 0" by code_simp
  then show "list_all is_hex (''00'' @ [lower_hex (byte_val c div 16), lower_hex (byte_val c mod 16)])"
    "hex4 (''00'' @ [lower_hex (byte_val c div 16), lower_hex (byte_val c mod 16)]) = byte_val c"
    using assms by (simp_all add: is_hex_def hex4_def hex_val_lower)
qed

lemma scan_escape_byte:
  assumes "byte_val c < 0x80"
  shows "scan_string (escape_byte c @ t) = map_option (\<lambda>(u, k). (escape_byte c @ u, k)) (scan_string t)"
  using assms
proof (cases rule: escape_byte_cases)
  case plain
  then show ?thesis by (simp add: scan_string.simps json_plain_def)
next
  case (short e)
  then show ?thesis by (simp add: scan_string.simps backslash_def quote_def)
next
  case long
  then show ?thesis
    using unicode_escape_read(1) [of "''00'' @ [lower_hex (byte_val c div 16), lower_hex (byte_val c mod 16)]" t]
      control_hex [OF assms] by simp
qed

lemma unquote_escape_byte:
  assumes "byte_val c < 0x80"
  shows "unquote (escape_byte c @ t) = c # unquote t"
  using assms
proof (cases rule: escape_byte_cases)
  case plain
  then have "unquote_step (c # t) = ([c], 1)"
    by (auto simp: unquote_step_def getu4_def json_plain_def DecodeRune_ascii EncodeRune_ascii split: list.splits)
  with plain show ?thesis by (simp add: unquote.simps [of "c # t"])
next
  case (short e)
  then have "unquote_step (backslash # e # t) = ([c], 2)"
    by (auto simp: unquote_step_def getu4_def)
  with short show ?thesis by (simp add: unquote.simps [of "backslash # e # t"])
next
  case long
  then show ?thesis
    using unicode_escape_read(2) [of "''00'' @ [lower_hex (byte_val c div 16), lower_hex (byte_val c mod 16)]" t]
      control_hex [OF assms] assms by (simp add: EncodeRune_ascii)
qed

lemma unquote_high:
  assumes "0x80 \<le> byte_val c"
  shows "unquote_step (c # t) = (EncodeRune (fst (DecodeRune (c # t))), snd (DecodeRune (c # t)))"
  using assms by (auto simp: unquote_step_def getu4_def backslash_def byte_val_def split: list.splits)

lemma unquote_one_step: "x \<noteq> [] \<Longrightarrow> unquote_step (x @ t) = (e, length x) \<Longrightarrow> unquote (x @ t) = e @ unquote t"
  by (subst unquote.simps) simp

text \<open>One step of the writer, and what the reader makes of it.\<close>

lemma escape_step_read:
  assumes "s \<noteq> []"
  shows "scan_string (fst (escape_step s) @ t) = map_option (\<lambda>(u, k). (fst (escape_step s) @ u, k)) (scan_string t)"
    and "unquote (fst (escape_step s) @ t) = EncodeRune (fst (DecodeRune s)) @ unquote t"
    and "snd (escape_step s) = snd (DecodeRune s)"
proof -
  obtain c s1 where s: "s = c # s1" using assms by (cases s) auto
  obtain r n where d: "DecodeRune s = (r, n)" by (cases "DecodeRune s")
  let ?e = "escape_step s"
  have "\<exists>x. escape_step s = (x, n) \<and> scan_string (x @ t) = map_option (\<lambda>(u, k). (x @ u, k)) (scan_string t)
      \<and> unquote (x @ t) = EncodeRune r @ unquote t"
  proof (cases "byte_val c < 0x80")
    case True
    then show ?thesis
      using scan_escape_byte [of c t] unquote_escape_byte [of c t] d
      by (auto simp: escape_step_def s DecodeRune_ascii EncodeRune_ascii)
  next
    case False
    then have high: "0x80 \<le> byte_val c" by simp
    show ?thesis
    proof (cases "r \<in> {0x2028, 0x2029} \<or> (r, n) = (RuneError, 1)")
      case True
      then have "n = 3 \<or> r = 0xFFFD" using line_separator_width [OF d _ s high] by (auto simp: RuneError_def)
      with True False d obtain h where "?e = ([backslash] @ ''u'' @ h, n)"
        "(h, r) \<in> set [(''fffd'', 0xFFFD), (''2028'', 0x2028), (''2029'', 0x2029)]"
        by (auto simp: escape_step_def s RuneError_def)
      then show ?thesis using special_escape_read [of h r t] by blast
    next
      case other: False
      note own = DecodeRune_own_bytes [OF d _ s high]
      have e: "?e = (take n s, n)" using other False d by (auto simp: escape_step_def s)
      have o: "(r, n) \<noteq> (RuneError, 1)" using other by blast
      obtain k where n: "n = Suc k" using own(4) [OF o] by (cases n) auto
      have "unquote_step (take n s @ t) = (EncodeRune r, n)"
        using unquote_high [OF high, of "take k s1 @ t"] own(1) [OF o, of t] by (simp add: n s)
      then have "unquote (take n s @ t) = EncodeRune r @ unquote t"
        using own(3,4) [OF o] by (intro unquote_one_step) auto
      with e show ?thesis using scan_string_high [OF own(2) [OF o], of t] by blast
    qed
  qed
  then show "scan_string (fst ?e @ t) = map_option (\<lambda>(u, k). (fst ?e @ u, k)) (scan_string t)"
    "unquote (fst ?e @ t) = EncodeRune (fst (DecodeRune s)) @ unquote t"
    "snd ?e = snd (DecodeRune s)" unfolding d by (elim exE conjE; simp only: fst_conv snd_conv)+
qed

lemma scan_escaped: "scan_string (escape_string s @ quote # k) = Some (escape_string s, k)"
proof (induction s rule: escape_string.induct)
  case (1 s)
  show ?case
  proof (cases "s = []")
    case True
    then show ?thesis by (simp add: escape_string.simps scan_string.simps)
  next
    case False
    with 1 show ?thesis by (simp add: escape_string.simps [of s] escape_step_read)
  qed
qed

lemma unquote_escaped: "unquote (escape_string s) = utf8_clean s"
proof (induction s rule: escape_string.induct)
  case (1 s)
  show ?case
  proof (cases "s = []")
    case True
    then show ?thesis by (simp add: escape_string.simps unquote.simps utf8_clean_def runes.simps)
  next
    case False
    with 1 show ?thesis
      by (simp add: escape_string.simps [of s] escape_step_read utf8_clean_def runes.simps [of s])
  qed
qed

section \<open>A number literal\<close>

definition number_literal :: "string \<Rightarrow> bool" where
  "number_literal t \<longleftrightarrow> scan_number t = Some (t, [])"

text \<open>What may follow a value inside a document.\<close>

definition ends :: "string \<Rightarrow> bool" where
  "ends r \<longleftrightarrow> r = [] \<or> hd r \<in> set '',]}''"

lemma ends_no_digit: "ends r \<Longrightarrow> takeWhile is_digit r = [] \<and> dropWhile is_digit r = r"
  by (cases r) (auto simp: ends_def is_digit_def)

lemma scan_digits_append:
  assumes "scan_digits s = Some (t, k)" and "ends r"
  shows "scan_digits (s @ r) = Some (t, k @ r)"
proof (cases "takeWhile is_digit s = s")
  case True
  with assms show ?thesis
    by (auto simp: scan_digits_def Let_def ends_no_digit takeWhile_append dropWhile_append takeWhile_eq_all_conv
        simp flip: dropWhile_eq_Nil_conv split: if_splits)
next
  case False
  with assms show ?thesis
    by (auto simp: scan_digits_def Let_def takeWhile_append dropWhile_append takeWhile_eq_all_conv split: if_splits)
qed

lemma scan_int_append: "scan_int s = Some (t, k) \<Longrightarrow> ends r \<Longrightarrow> scan_int (s @ r) = Some (t, k @ r)"
  by (cases s) (auto simp: scan_int_def dest: scan_digits_append split: if_splits)

lemma scan_frac_append: "scan_frac s = Some (t, k) \<Longrightarrow> ends r \<Longrightarrow> scan_frac (s @ r) = Some (t, k @ r)"
  by (cases s; cases r) (auto simp: scan_frac_def ends_def dest: scan_digits_append [of _ _ _ r] split: if_splits)

lemma scan_exp_append: "scan_exp s = Some (t, k) \<Longrightarrow> ends r \<Longrightarrow> scan_exp (s @ r) = Some (t, k @ r)"
proof (cases s)
  case Nil
  then show "scan_exp s = Some (t, k) \<Longrightarrow> ends r \<Longrightarrow> ?thesis" by (cases r) (auto simp: scan_exp_def ends_def)
next
  case (Cons c s1)
  then show "scan_exp s = Some (t, k) \<Longrightarrow> ends r \<Longrightarrow> ?thesis"
    by (cases s1) (auto simp: scan_exp_def dest: scan_digits_append [of _ _ _ r] split: if_splits)
qed

lemma scan_int_nonempty: "scan_int s = Some (t, k) \<Longrightarrow> s \<noteq> []"
  by (auto simp: scan_int_def)

lemma scan_number_append: "scan_number s = Some (t, k) \<Longrightarrow> ends r \<Longrightarrow> scan_number (s @ r) = Some (t, k @ r)"
proof -
  assume a: "scan_number s = Some (t, k)" "ends r"
  define sign where "sign = (if s \<noteq> [] \<and> hd s = CHR ''-'' then [CHR ''-''] else [])"
  obtain i r1 f r2 e where p: "scan_int (drop (length sign) s) = Some (i, r1)" "scan_frac r1 = Some (f, r2)"
    "scan_exp r2 = Some (e, k)" "t = sign @ i @ f @ e"
    using a(1) by (auto simp: scan_number_def sign_def Let_def split: option.splits)
  then have "s \<noteq> []" using scan_int_nonempty [OF p(1)] by (cases s) auto
  then have "(if s @ r \<noteq> [] \<and> hd (s @ r) = CHR ''-'' then [CHR ''-''] else []) = sign"
    "drop (length sign) (s @ r) = drop (length sign) s @ r"
    by (cases s; simp add: sign_def)+
  then show ?thesis
    using scan_int_append [OF p(1) a(2)] scan_frac_append [OF p(2) a(2)] scan_exp_append [OF p(3) a(2)] p(4)
    by (simp add: scan_number_def)
qed

lemma number_literal_append: "number_literal t \<Longrightarrow> ends r \<Longrightarrow> scan_number (t @ r) = Some (t, r)"
  using scan_number_append [of t t "[]" r] by (simp add: number_literal_def)

lemma number_literal_head: "number_literal t \<Longrightarrow> \<exists>c u. t = c # u \<and> (c = CHR ''-'' \<or> is_digit c)"
  by (cases t) (auto simp: number_literal_def scan_number_def scan_int_def scan_digits_def Let_def is_digit_def
      split: option.splits if_splits)

section \<open>A document\<close>

text \<open>A tree that can be written: its numbers are literals, and it is not nested deeper than the decoder allows.\<close>

fun json_wf :: "nat \<Rightarrow> json \<Rightarrow> bool" where
  "json_wf d (JNum t) \<longleftrightarrow> number_literal t"
| "json_wf d (JArr es) \<longleftrightarrow> d < maxNestingDepth \<and> list_all (json_wf (Suc d)) es"
| "json_wf d (JObj ms) \<longleftrightarrow> d < maxNestingDepth \<and> list_all (\<lambda>m. json_wf (Suc d) (snd m)) ms"
| "json_wf d _ \<longleftrightarrow> True"

fun json_clean :: "json \<Rightarrow> json" where
  "json_clean (JStr s) = JStr (utf8_clean s)"
| "json_clean (JArr es) = JArr (map json_clean es)"
| "json_clean (JObj ms) = JObj (map (\<lambda>m. (utf8_clean (fst m), json_clean (snd m))) ms)"
| "json_clean j = j"

definition value_reads :: "nat \<Rightarrow> string \<Rightarrow> json \<Rightarrow> string \<Rightarrow> bool" where
  "value_reads d s v r \<longleftrightarrow> (\<exists>f0. \<forall>f\<ge>f0. p_value f d s = Some (v, r))"

definition elems_read :: "nat \<Rightarrow> string \<Rightarrow> json list \<Rightarrow> string \<Rightarrow> bool" where
  "elems_read d s vs r \<longleftrightarrow> (\<exists>f0. \<forall>f\<ge>f0. p_elems f d s = Some (vs, r))"

definition members_read :: "nat \<Rightarrow> string \<Rightarrow> (string \<times> json) list \<Rightarrow> string \<Rightarrow> bool" where
  "members_read d s ms r \<longleftrightarrow> (\<exists>f0. \<forall>f\<ge>f0. p_members f d s = Some (ms, r))"

lemma enough_fuelI: "(\<And>f. f0 \<le> f \<Longrightarrow> P (Suc f)) \<Longrightarrow> \<exists>f1. \<forall>f\<ge>f1. P f"
  by (rule exI [of _ "Suc f0"]) (metis Suc_le_D Suc_le_mono)

lemma skip_ws_id: "\<not> json_ws c \<Longrightarrow> skip_ws (c # s) = c # s"
  by (simp add: skip_ws_def)

text \<open>A printed value begins with a character that is no white space and closes nothing.\<close>

lemma print_head: "json_wf d j \<Longrightarrow> \<exists>c u. json_print j = c # u \<and> \<not> json_ws c \<and> c \<noteq> CHR '']'' \<and> c \<noteq> CHR ''}''"
proof (cases j)
  case (JNum t)
  then show "json_wf d j \<Longrightarrow> ?thesis"
    using number_literal_head [of t] by (auto simp: json_ws_def is_digit_def)
qed (auto simp: print_string_def quote_def json_ws_def)

lemma value_reads_atom:
  "value_reads d (''null'' @ r) JNull r" "value_reads d (''true'' @ r) (JBool True) r"
  "value_reads d (''false'' @ r) (JBool False) r"
  unfolding value_reads_def
  by (rule enough_fuelI, simp add: p_value.simps skip_ws_id json_ws_def quote_def HasPrefix_def)+

lemma value_reads_string: "value_reads d (print_string s @ r) (JStr (utf8_clean s)) r"
  unfolding value_reads_def
  by (rule enough_fuelI)
    (simp add: p_value.simps print_string_def skip_ws_id json_ws_def quote_def
      scan_escaped [unfolded quote_def] unquote_escaped)

lemma value_reads_number:
  assumes "number_literal t" and "ends r"
  shows "value_reads d (t @ r) (JNum t) r"
proof -
  obtain c u where t: "t = c # u" "c = CHR ''-'' \<or> is_digit c" using number_literal_head [OF assms(1)] by blast
  then have "\<not> json_ws c" "c \<notin> set ''{[tfn'' \<union> {quote}" by (auto simp: json_ws_def quote_def is_digit_def)
  then show ?thesis
    unfolding value_reads_def
    by (intro enough_fuelI)
      (use number_literal_append [OF assms] in \<open>simp add: p_value.simps t(1) skip_ws_id HasPrefix_def\<close>)
qed

lemma elems_read_one:
  assumes "value_reads d s v (CHR '']'' # r)"
  shows "elems_read d s [v] r"
proof -
  obtain a where "\<And>f. a \<le> f \<Longrightarrow> p_value f d s = Some (v, CHR '']'' # r)"
    using assms unfolding value_reads_def by blast
  then show ?thesis
    unfolding elems_read_def by (intro enough_fuelI [of a]) (simp add: p_elems.simps skip_ws_id json_ws_def)
qed

lemma elems_read_Cons:
  assumes "value_reads d s v (CHR '','' # s')" and "elems_read d s' vs r"
  shows "elems_read d s (v # vs) r"
proof -
  obtain a b where "\<And>f. a \<le> f \<Longrightarrow> p_value f d s = Some (v, CHR '','' # s')"
    "\<And>f. b \<le> f \<Longrightarrow> p_elems f d s' = Some (vs, r)"
    using assms unfolding value_reads_def elems_read_def by blast
  then show ?thesis
    unfolding elems_read_def
    by (intro enough_fuelI [of "max a b"]) (simp add: p_elems.simps skip_ws_id json_ws_def)
qed

lemma member_key:
  "p_members (Suc f) d (print_string k @ CHR '':'' # s) =
    (case p_value f d s of
       None \<Rightarrow> None
     | Some (v, r3) \<Rightarrow>
       (case skip_ws r3 of
          [] \<Rightarrow> None
        | c # r \<Rightarrow>
          if c = CHR '','' then map_option (\<lambda>(ms, t). ((unquote (escape_string k), v) # ms, t)) (p_members f d r)
          else if c = CHR ''}'' then Some ([(unquote (escape_string k), v)], r) else None))"
  using scan_escaped [of k "CHR '':'' # s"]
  by (simp add: p_members.simps print_string_def skip_ws_id json_ws_def quote_def)

lemma members_read_one:
  assumes "value_reads d s v (CHR ''}'' # r)"
  shows "members_read d (print_string k @ CHR '':'' # s) [(utf8_clean k, v)] r"
proof -
  obtain a where "\<And>f. a \<le> f \<Longrightarrow> p_value f d s = Some (v, CHR ''}'' # r)"
    using assms unfolding value_reads_def by blast
  then show ?thesis
    unfolding members_read_def by (intro enough_fuelI [of a], subst member_key) (simp add: unquote_escaped skip_ws_id json_ws_def)
qed

lemma members_read_Cons:
  assumes "value_reads d s v (CHR '','' # s')" and "members_read d s' ms r"
  shows "members_read d (print_string k @ CHR '':'' # s) ((utf8_clean k, v) # ms) r"
proof -
  obtain a b where "\<And>f. a \<le> f \<Longrightarrow> p_value f d s = Some (v, CHR '','' # s')"
    "\<And>f. b \<le> f \<Longrightarrow> p_members f d s' = Some (ms, r)"
    using assms unfolding value_reads_def members_read_def by blast
  then show ?thesis
    unfolding members_read_def
    by (intro enough_fuelI [of "max a b"], subst member_key) (simp add: unquote_escaped skip_ws_id json_ws_def)
qed

lemma ends_closing [simp]: "ends (CHR '','' # r)" "ends (CHR '']'' # r)" "ends (CHR ''}'' # r)" "ends []"
  by (simp_all add: ends_def)

lemma elems_read_list:
  assumes "es \<noteq> []" and "\<And>e r. e \<in> set es \<Longrightarrow> ends r \<Longrightarrow> value_reads d (json_print e @ r) (json_clean e) r"
  shows "elems_read d (Join (map json_print es) '','' @ CHR '']'' # r) (map json_clean es) r"
  using assms
proof (induction es rule: induct_list012)
  case (2 e)
  have "value_reads d (json_print e @ CHR '']'' # r) (json_clean e) (CHR '']'' # r)" by (intro 2) simp_all
  then show ?case by (simp add: elems_read_one)
next
  case (3 e e' es)
  let ?s = "Join (map json_print (e' # es)) '','' @ CHR '']'' # r"
  have "elems_read d ?s (map json_clean (e' # es)) r" using 3 by simp
  moreover have "value_reads d (json_print e @ CHR '','' # ?s) (json_clean e) (CHR '','' # ?s)" by (intro 3) simp_all
  ultimately show ?case by (simp add: elems_read_Cons)
qed simp

definition print_member :: "string \<times> json \<Rightarrow> string" where
  "print_member m = print_string (fst m) @ '':'' @ json_print (snd m)"

lemma members_read_list:
  assumes "ms \<noteq> []" and "\<And>m r. m \<in> set ms \<Longrightarrow> ends r \<Longrightarrow> value_reads d (json_print (snd m) @ r) (json_clean (snd m)) r"
  shows "members_read d (Join (map print_member ms) '','' @ CHR ''}'' # r)
    (map (\<lambda>m. (utf8_clean (fst m), json_clean (snd m))) ms) r"
  using assms
proof (induction ms rule: induct_list012)
  case (2 m)
  have "value_reads d (json_print (snd m) @ CHR ''}'' # r) (json_clean (snd m)) (CHR ''}'' # r)" by (intro 2) simp_all
  then show ?case by (simp add: print_member_def members_read_one)
next
  case (3 m m' ms)
  let ?s = "Join (map print_member (m' # ms)) '','' @ CHR ''}'' # r"
  have "members_read d ?s (map (\<lambda>m. (utf8_clean (fst m), json_clean (snd m))) (m' # ms)) r" using 3 by simp
  moreover have "value_reads d (json_print (snd m) @ CHR '','' # ?s) (json_clean (snd m)) (CHR '','' # ?s)"
    by (intro 3) simp_all
  ultimately have "members_read d (print_string (fst m) @ CHR '':'' # json_print (snd m) @ CHR '','' # ?s)
      ((utf8_clean (fst m), json_clean (snd m)) # map (\<lambda>m. (utf8_clean (fst m), json_clean (snd m))) (m' # ms)) r"
    by (rule members_read_Cons [rotated])
  then show ?case by (simp add: print_member_def [of m])
qed simp

lemma value_reads_array:
  assumes "d < maxNestingDepth" and "list_all (json_wf (Suc d)) es"
    and "\<And>e r. e \<in> set es \<Longrightarrow> ends r \<Longrightarrow> value_reads (Suc d) (json_print e @ r) (json_clean e) r"
  shows "value_reads d (json_print (JArr es) @ r) (json_clean (JArr es)) r"
proof (cases es)
  case Nil
  with assms(1) show ?thesis
    unfolding value_reads_def by (intro enough_fuelI) (simp add: p_value.simps skip_ws_id json_ws_def)
next
  case (Cons e es')
  let ?s = "Join (map json_print es) '','' @ CHR '']'' # r"
  obtain c u where "json_print e = c # u" "\<not> json_ws c" "c \<noteq> CHR '']''"
    using print_head [of "Suc d" e] assms(2) Cons by auto
  then obtain u' where s: "?s = c # u'" "\<not> json_ws c" "c \<noteq> CHR '']''"
    unfolding Cons by (cases es') auto
  obtain a where a: "\<And>f. a \<le> f \<Longrightarrow> p_elems f (Suc d) (c # u') = Some (map json_clean es, r)"
    using elems_read_list [of es "Suc d" r] assms(3) Cons unfolding elems_read_def s(1) by blast
  have "json_print (JArr es) @ r = CHR ''['' # c # u'" by (simp add: s(1) [symmetric])
  then show ?thesis
    using a s assms(1) unfolding value_reads_def
    by (intro enough_fuelI [of a]) (simp add: p_value.simps skip_ws_id json_ws_def)
qed

lemma value_reads_object:
  assumes "d < maxNestingDepth"
    and "\<And>m r. m \<in> set ms \<Longrightarrow> ends r \<Longrightarrow> value_reads (Suc d) (json_print (snd m) @ r) (json_clean (snd m)) r"
  shows "value_reads d (json_print (JObj ms) @ r) (json_clean (JObj ms)) r"
proof (cases ms)
  case Nil
  with assms(1) show ?thesis
    unfolding value_reads_def by (intro enough_fuelI) (simp add: p_value.simps skip_ws_id json_ws_def)
next
  case (Cons m ms')
  let ?s = "Join (map print_member ms) '','' @ CHR ''}'' # r"
  obtain u where s: "?s = quote # u"
    unfolding Cons by (cases ms') (auto simp: print_member_def print_string_def)
  obtain a where a: "\<And>f. a \<le> f \<Longrightarrow>
      p_members f (Suc d) (quote # u) = Some (map (\<lambda>m. (utf8_clean (fst m), json_clean (snd m))) ms, r)"
    using members_read_list [of ms "Suc d" r] assms(2) Cons unfolding members_read_def s by blast
  have "json_print (JObj ms) @ r = CHR ''{'' # quote # u"
    by (simp add: s [symmetric] print_member_def [abs_def])
  then show ?thesis
    using a assms(1) unfolding value_reads_def
    by (intro enough_fuelI [of a]) (simp add: p_value.simps skip_ws_id json_ws_def quote_def)
qed

lemma print_reads: "json_wf d j \<Longrightarrow> ends r \<Longrightarrow> value_reads d (json_print j @ r) (json_clean j) r"
proof (induction d j arbitrary: r rule: json_wf.induct)
  case (2 d es)
  then show ?case by (intro value_reads_array) (auto simp: list_all_iff)
next
  case (3 d ms)
  then show ?case by (intro value_reads_object) (auto simp: list_all_iff)
qed (auto simp: value_reads_atom [simplified] value_reads_string value_reads_number)

text \<open>Parsing what was printed gives the tree back, with its strings cleaned.\<close>

theorem json_parse_print:
  assumes "json_wf 0 j"
  shows "json_parse (json_print j) = Some (json_clean j)"
proof -
  let ?s = "json_print j"
  obtain a where a: "\<And>f. a \<le> f \<Longrightarrow> p_value f 0 ?s = Some (json_clean j, [])"
    using print_reads [OF assms, of "[]"] unfolding value_reads_def by auto
  have "p_value (2 * length ?s + 2) 0 ?s = p_value (max a (2 * length ?s + 2)) 0 ?s"
    by (rule parse_fuel_enough [symmetric]) simp
  with a show ?thesis by (simp add: json_parse_def skip_ws_def)
qed

end
