(* ===== verification/NumRound.thy ===== *)
theory NumRound
  imports JsonText GoNumText
begin

text \<open>The decimal form of a float reads back as the float it was printed from.\<close>

section \<open>Seventeen digits are enough\<close>

lemma round_even_error: "of_int (round_even z) - 1 / 2 \<le> z \<and> z \<le> of_int (round_even z) + 1 / 2"
proof -
  define n where "n = \<lfloor>z\<rfloor>"
  have n: "of_int n \<le> z" "z < of_int n + 1" unfolding n_def by linarith+
  have r: "round_even z =
      (if z - of_int n < 1 / 2 then n else if 1 / 2 < z - of_int n then n + 1 else if even n then n else n + 1)"
    by (simp add: round_even_def Let_def n_def)
  then consider "z - of_int n < 1 / 2" "round_even z = n" | "1 / 2 \<le> z - of_int n" "round_even z = n + 1"
    | "z - of_int n = 1 / 2" "round_even z = n" by (metis linorder_less_linear less_imp_le order_refl)
  then show ?thesis using n by cases simp_all
qed

lemma round_even_floor: "round_even z = \<lfloor>z\<rfloor> \<or> round_even z = \<lfloor>z\<rfloor> + 1"
  by (auto simp: round_even_def Let_def)

lemma round_mag_near:
  assumes "0 < y" and "quantum y = q" and "0 < q" and "\<bar>y - of_int n * q\<bar> < q / 2"
  shows "round_mag y = of_int n * q"
proof -
  define u where "u = y / q"
  then have "y - of_int n * q = (u - of_int n) * q" using assms(3) by (simp add: algebra_simps)
  then have "\<bar>u - of_int n\<bar> * q < 1 / 2 * q" using assms(3,4) by (simp add: abs_mult)
  then have "\<bar>u - of_int n\<bar> < 1 / 2" using assms(3) by (simp only: mult_less_cancel_right_pos)
  then have "u < of_int n + 1 / 2" "of_int n - 1 / 2 < u" by linarith+
  then have "round_even (y / q) = n" unfolding u_def by (intro round_even_eq)
  then show ?thesis using assms(1,2) by (simp add: round_mag_def)
qed

lemma pow2_split: "pow2 (e + int n) = 2 ^ n * pow2 e"
  by (simp add: pow2_add pow2_nat)

text \<open>
  A magnitude of the format keeps its value when it is changed by at most half a unit in the seventeenth
  decimal place.
\<close>

lemma round_mag_close:
  assumes "0 < m" and "round_mag m = m" and "20000000000000000 * \<bar>y - m\<bar> \<le> m"
  shows "round_mag y = m"
proof -
  define e where "e = max (binexp m) (-1022)"
  define q where "q = pow2 (e - 52)"
  define M where "M = round_even (m / q)"
  have q: "0 < q" by (simp add: q_def)
  have m: "m = of_int M * q" using assms(1,2) by (simp add: round_mag_def quantum_def M_def q_def e_def)
  have p52: "pow2 e = 2 ^ 52 * q" and p53: "pow2 (e + 1) = 2 ^ 53 * q" and p51: "pow2 (e - 1) = 2 ^ 51 * q"
    and qh: "pow2 (e - 53) = q / 2"
    using pow2_split [of "e - 52" 52] pow2_split [of "e - 52" 53] pow2_split [of "e - 52" 51] pow2_split [of "e - 53" 1]
    by (simp_all add: q_def add.commute)
  have y: "0 < y" using assms(1,3) by (simp add: abs_if split: if_splits)
  have "pow2 (binexp m + 1) \<le> pow2 (e + 1)" by (rule pow2_mono) (simp add: e_def)
  then have "m < 2 ^ 53 * q" using binexp_bounds [OF assms(1)] unfolding p53 by linarith
  then have M: "M < 2 ^ 53" using q by (simp add: m)
  have "m < 9007199254740992 * q" using \<open>m < 2 ^ 53 * q\<close> by simp
  then have "20000000000000000 * \<bar>y - m\<bar> < 10000000000000000 * q" using assms(3) q by simp
  then have near: "\<bar>y - m\<bar> < q / 2" by simp
  have same: ?thesis if "quantum y = q"
    using round_mag_near [OF y that q, of M] near by (simp add: m)
  show ?thesis
  proof (cases "pow2 e \<le> y")
    case True
    have "of_int (M + 1) \<le> (of_int (2 ^ 53) :: rat)" unfolding of_int_le_iff using M by simp
    then have "of_int M + 1 \<le> (2 ^ 53 :: rat)" by simp
    then have "(of_int M + 1) * q \<le> 2 ^ 53 * q" using q by (intro mult_right_mono) simp_all
    then have "m + q \<le> pow2 (e + 1)" unfolding p53 m by (simp add: algebra_simps)
    then have "y < pow2 (e + 1)" using abs_ge_self [of "y - m"] near q by linarith
    with True have "binexp y = e" by (rule binexp_eq)
    then show ?thesis using same by (simp add: quantum_def q_def e_def)
  next
    case False
    show ?thesis
    proof (cases "e = -1022")
      case True
      have "binexp y < e" using False pow2_mono [of e "binexp y"] binexp_bounds [OF y] by force
      with True show ?thesis using same by (simp add: quantum_def q_def)
    next
      case e: False
      then have eb: "binexp m = e" "-1022 < e" by (auto simp: e_def)
      then have "2 ^ 52 * q \<le> of_int M * q" using binexp_bounds [OF assms(1)] p52 m by simp
      then have "of_int (2 ^ 52) \<le> (of_int M :: rat)" using q by simp
      moreover have "m < pow2 e + q" using abs_ge_minus_self [of "y - m"] near q False by linarith
      then have "of_int M * q < (2 ^ 52 + 1) * q" unfolding p52 m by (simp add: algebra_simps)
      then have "(of_int M :: rat) < of_int (2 ^ 52 + 1)" using q by simp
      ultimately have "M = 2 ^ 52" unfolding of_int_le_iff of_int_less_iff by simp
      then have m2: "m = 2 ^ 52 * q" using m by simp
      have "binexp y = e - 1"
      proof (rule binexp_eq)
        have "m - q < y" using abs_ge_minus_self [of "y - m"] near q by linarith
        moreover have "pow2 (e - 1) \<le> m - q" using q unfolding p51 m2 by simp
        ultimately show "pow2 (e - 1) \<le> y" by linarith
        show "y < pow2 (e - 1 + 1)" using False by simp
      qed
      then have "quantum y = q / 2" using eb(2) qh by (simp add: quantum_def)
      moreover have "\<bar>y - of_int (2 ^ 53) * (q / 2)\<bar> < q / 2 / 2" using assms(3) q unfolding m2 by simp
      ultimately show ?thesis using round_mag_near [OF y, of "q / 2" "2 ^ 53"] q m2 by simp
    qed
  qed
qed

section \<open>The shortest form\<close>

lemma pow10_pos [simp]: "0 < pow10 k"
  by (simp add: pow10_def)

lemma pow10_powi: "pow10 k = 10 powi k"
  by (simp add: pow10_def power_int_def power_inverse field_simps)

lemma pow10_add: "pow10 (i + j) = pow10 i * pow10 j"
  by (simp add: pow10_powi power_int_add)

lemma pow10_nat: "pow10 (int n) = 10 ^ n"
  by (simp add: pow10_def)

lemma pow10_Suc: "pow10 (k + 1) = 10 * pow10 k"
  using pow10_add [of k 1] by (simp add: pow10_def)

lemma nat_digits_bounds: "0 < n \<Longrightarrow> 10 ^ (length (nat_digits n) - 1) \<le> n" "n < 10 ^ length (nat_digits n)"
proof (induction n rule: nat_digits.induct)
  case (1 n)
  note d = nat_digits.simps [of n]
  {
    case 1
    show ?case
    proof (cases "n < 10")
      case True
      with 1 d show ?thesis by simp
    next
      case False
      then have "10 ^ (length (nat_digits (n div 10)) - 1) \<le> n div 10" using "1.IH"(1) by simp
      moreover have "0 < length (nat_digits (n div 10))" using nat_digits_inverse by blast
      ultimately have "10 ^ length (nat_digits (n div 10)) \<le> n div 10 * 10"
        by (cases "length (nat_digits (n div 10))") simp_all
      with False d show ?thesis by simp
    qed
  next
    case 2
    show ?case
    proof (cases "n < 10")
      case True
      with d show ?thesis by simp
    next
      case False
      then have "n div 10 < 10 ^ length (nat_digits (n div 10))" using "1.IH"(2) by simp
      then have "n < 10 * 10 ^ length (nat_digits (n div 10))" by simp
      with False d show ?thesis by simp
    qed
  }
qed

lemma decexp_low:
  assumes "0 < m"
  shows "pow10 (decexp m) \<le> m"
proof (cases "1 \<le> m")
  case True
  define N where "N = nat \<lfloor>m\<rfloor>"
  have N: "0 < N" "of_nat N \<le> m" using True by (simp_all add: N_def of_nat_nat)
  have "(of_nat (10 ^ (length (nat_digits N) - 1)) :: rat) \<le> of_nat N"
    unfolding of_nat_le_iff by (rule nat_digits_bounds(1) [OF N(1)])
  moreover have "decexp m = int (length (nat_digits N) - 1)"
    using True nat_digits_inverse [of N] by (cases "nat_digits N") (simp_all add: decexp_def N_def)
  ultimately show ?thesis using N(2) by (simp only: pow10_nat of_nat_power of_nat_numeral)
next
  case False
  define N where "N = nat (\<lceil>1 / m\<rceil> - 1)"
  let ?l = "length (nat_digits N)"
  have "1 < 1 / m" using False assms by simp
  then have "1 < \<lceil>1 / m\<rceil>" by linarith
  then have "\<lceil>1 / m\<rceil> = int (N + 1)" unfolding N_def by linarith
  then have "1 / m \<le> of_int (int (N + 1))" by (metis le_of_int_ceiling)
  also have "\<dots> \<le> of_int (int (10 ^ ?l))"
    unfolding of_int_le_iff of_nat_le_iff using nat_digits_bounds(2) [of N] by simp
  finally have "1 / m \<le> 10 ^ ?l" by simp
  then have "1 / 10 ^ ?l \<le> m" using assms by (simp add: divide_le_eq mult.commute)
  then show ?thesis using False nat_digits_inverse [of N] by (simp add: decexp_def N_def [symmetric] pow10_def)
qed

lemma candidate_reads_back: "candidate m k = Some d \<Longrightarrow> reads_back m k d"
  using round_even_floor [of "m / pow10 k"] by (auto simp: candidate_def Let_def split: if_splits)

lemma seventeen_digits:
  assumes "0 < m" and "round_mag m = m" and "k = decexp m - 16"
  shows "reads_back m k (round_even (m / pow10 k))"
proof -
  let ?d = "round_even (m / pow10 k)"
  have p: "0 < pow10 k" by simp
  have "10 ^ 16 * pow10 k \<le> m"
    using decexp_low [OF assms(1)] pow10_add [of k 16] pow10_nat [of 16] by (simp add: assms(3) mult.commute)
  moreover have "\<bar>of_int ?d - m / pow10 k\<bar> \<le> 1 / 2" using round_even_error [of "m / pow10 k"] by linarith
  then have "\<bar>of_int ?d - m / pow10 k\<bar> * pow10 k \<le> 1 / 2 * pow10 k" using less_imp_le [OF p] by (rule mult_right_mono)
  moreover have "\<bar>of_int ?d - m / pow10 k\<bar> * pow10 k = \<bar>of_int ?d * pow10 k - m\<bar>"
    using abs_mult_pos [OF less_imp_le [OF p], of "of_int ?d - m / pow10 k"] p by (simp add: left_diff_distrib)
  ultimately show ?thesis
    unfolding reads_back_def by (intro round_mag_close [OF assms(1,2)]) simp
qed

lemma shortest_from_reads_back:
  assumes "0 < m" and "round_mag m = m" and "n + more = 17" and "0 < n" and "shortest_from more n m = (d, k)"
  shows "reads_back m k d"
  using assms
proof (induction more n m arbitrary: d k rule: shortest_from.induct)
  case (1 n m)
  then have "k = decexp m - 16" "d = round_even (m / pow10 k)" by (auto simp: Let_def)
  then show ?case using seventeen_digits [OF 1(1,2)] by simp
next
  case (2 more n m)
  show ?case
  proof (cases "candidate m (decexp m - int n + 1)")
    case None
    with 2 show ?thesis by (simp add: Let_def)
  next
    case (Some c)
    note c = candidate_reads_back [OF Some]
    show ?thesis
    proof (cases "c = 10 ^ n")
      case True
      have "of_int (10 ^ n) * pow10 (decexp m - int n + 1) = of_int (10 ^ (n - 1)) * pow10 (decexp m - int n + 1 + 1)"
        using 2(5) by (cases n) (simp_all add: pow10_Suc)
      then show ?thesis using 2 Some True c by (auto simp: Let_def reads_back_def)
    next
      case False
      with 2 Some c show ?thesis by (auto simp: Let_def)
    qed
  qed
qed

lemma shortest_reads_back:
  assumes "0 < m" and "round_mag m = m" and "shortest m = (d, k)"
  shows "round_mag (of_int d * pow10 k) = m" and "0 < d"
proof -
  show r: "round_mag (of_int d * pow10 k) = m"
    using shortest_from_reads_back [OF assms(1,2), of 1 16 d k] assms(3) by (simp add: shortest_def reads_back_def)
  show "0 < d"
  proof (rule ccontr)
    assume "\<not> 0 < d"
    then have "of_int d * pow10 k \<le> 0" by (simp add: mult_le_0_iff less_imp_le)
    with r assms(1) show False by (simp add: round_mag_def)
  qed
qed

section \<open>Reading the digits\<close>

lemma digits_val_append: "digits_val (a @ b) = digits_val a * 10 ^ length b + digits_val b"
proof (induction b rule: rev_induct)
  case (snoc c b)
  then show ?case by (simp add: digits_val_def flip: append_assoc)
qed (simp add: digits_val_def)

lemma digits_val_zeros: "digits_val (replicate n (CHR ''0'')) = 0"
  by (induction n) (simp_all add: digits_val_append [of "[_]", simplified] digits_val_def digit_val_def byte_val_def)

lemma zeros_are_digits: "list_all is_digit (replicate n (CHR ''0''))"
  by (induction n) (simp_all add: is_digit_def)

lemma nat_digits_head: "0 < n \<Longrightarrow> \<exists>c u. nat_digits n = c # u \<and> is_digit c \<and> c \<noteq> CHR ''0''"
proof (induction n rule: nat_digits.induct)
  case (1 n)
  show ?case
  proof (cases "n < 10")
    case True
    then have "digit_val (digit_char n) = n" "is_digit (digit_char n)" using digit_char_inverse by simp_all
    moreover from this have "digit_char n \<noteq> CHR ''0''" using 1(2) by (auto simp: digit_val_def byte_val_def)
    ultimately show ?thesis using True by (simp add: nat_digits.simps [of n])
  next
    case False
    with 1 have "\<exists>c u. nat_digits (n div 10) = c # u \<and> is_digit c \<and> c \<noteq> CHR ''0''" by simp
    with False show ?thesis by (auto simp: nat_digits.simps [of n])
  qed
qed

lemma digits_no_exp:
  "list_all is_digit ds \<Longrightarrow> takeWhile (\<lambda>c. \<not> is_exp c) (ds @ r) = ds @ takeWhile (\<lambda>c. \<not> is_exp c) r"
  "list_all is_digit ds \<Longrightarrow> takeWhile (\<lambda>c. \<not> is_exp c) ds = ds"
  by (induction ds) (auto simp: is_exp_def is_digit_def)

lemma digits_whole:
  "list_all is_digit ds \<Longrightarrow> \<not> is_digit c \<Longrightarrow> takeWhile is_digit (ds @ c # r) = ds"
  "list_all is_digit ds \<Longrightarrow> \<not> is_digit c \<Longrightarrow> dropWhile is_digit (ds @ c # r) = c # r"
  "list_all is_digit ds \<Longrightarrow> takeWhile is_digit ds = ds" "list_all is_digit ds \<Longrightarrow> dropWhile is_digit ds = []"
  by (induction ds) simp_all

lemma point_no_digit: "\<not> is_digit (CHR ''.'')" "\<not> is_exp (CHR ''.'')" "\<not> is_digit (CHR ''e'')" "is_exp (CHR ''e'')"
  by (simp_all add: is_digit_def is_exp_def)

text \<open>The value of digits, of digits with a fraction, and of digits with an exponent.\<close>

lemmas literal_parts = digits_no_exp digits_whole point_no_digit

lemma no_digits [simp]: "digits_val [] = 0" "signed_digits [] = 0"
  by (simp_all add: digits_val_def signed_digits_def split_sign_def)

lemma pow10_0 [simp]: "pow10 0 = 1"
  by (simp add: pow10_def)

lemma lit_mag_whole: "list_all is_digit ds \<Longrightarrow> lit_mag ds = of_nat (digits_val ds)"
  by (simp add: lit_mag_def Let_def literal_parts)

lemma lit_mag_fraction:
  assumes "list_all is_digit a" and "list_all is_digit b"
  shows "lit_mag (a @ CHR ''.'' # b) = of_nat (digits_val (a @ b)) * pow10 (- int (length b))"
  using assms by (simp add: lit_mag_def Let_def literal_parts)

definition exp_text :: "bool \<Rightarrow> string \<Rightarrow> string" where
  "exp_text neg x = CHR ''e'' # (if neg then CHR ''-'' else CHR ''+'') # x"

lemma lit_mag_exp:
  assumes "list_all is_digit a" and "list_all is_digit b" and "list_all is_digit x"
  shows "lit_mag (a @ (if b = [] then [] else CHR ''.'' # b) @ exp_text neg x) =
    of_nat (digits_val (a @ b)) * pow10 ((if neg then - int (digits_val x) else int (digits_val x)) - int (length b))"
proof -
  have "signed_digits (CHR ''-'' # x) = - int (digits_val x)" "signed_digits (CHR ''+'' # x) = int (digits_val x)"
    by (simp_all add: signed_digits_def split_sign_def)
  then show ?thesis using assms by (simp add: lit_mag_def Let_def literal_parts exp_text_def)
qed

section \<open>The two decimal forms\<close>

lemma FormatInt_digits: "0 \<le> d \<Longrightarrow> FormatInt d = nat_digits (nat d)"
  by (simp add: FormatInt_def)

lemma scan_digits_whole: "list_all is_digit ds \<Longrightarrow> ds \<noteq> [] \<Longrightarrow> scan_digits ds = Some (ds, [])"
  by (simp add: scan_digits_def literal_parts)

lemma scan_digits_stop: "list_all is_digit ds \<Longrightarrow> ds \<noteq> [] \<Longrightarrow> \<not> is_digit c \<Longrightarrow> scan_digits (ds @ c # r) = Some (ds, c # r)"
  by (simp add: scan_digits_def literal_parts)

text \<open>Digits that may begin a number, and the fraction and the exponent that may follow.\<close>

definition int_part :: "string \<Rightarrow> bool" where
  "int_part ds \<longleftrightarrow> list_all is_digit ds \<and> ds \<noteq> [] \<and> (hd ds = CHR ''0'' \<longrightarrow> ds = ''0'')"

lemma scan_int_part:
  assumes "int_part ds" and "r = [] \<or> \<not> is_digit (hd r)"
  shows "scan_int (ds @ r) = Some (ds, r)"
proof (cases r)
  case Nil
  with assms scan_digits_whole [of ds] show ?thesis by (cases ds) (auto simp: scan_int_def int_part_def)
next
  case (Cons c k)
  with assms scan_digits_stop [of ds c k] show ?thesis by (cases ds) (auto simp: scan_int_def int_part_def)
qed

lemma scan_frac_part:
  assumes "list_all is_digit b" and "r = [] \<or> hd r = CHR ''e''"
  shows "scan_frac ((if b = [] then [] else CHR ''.'' # b) @ r) = Some (if b = [] then [] else CHR ''.'' # b, r)"
  using assms scan_digits_whole [of b] scan_digits_stop [of b "CHR ''e''"]
  by (cases r) (auto simp: scan_frac_def literal_parts split: if_splits)

lemma scan_exp_part: "list_all is_digit x \<Longrightarrow> x \<noteq> [] \<Longrightarrow> scan_exp (exp_text neg x) = Some (exp_text neg x, [])"
  by (simp add: scan_exp_def exp_text_def scan_digits_whole)

lemma sign_of_digits: "int_part ds \<Longrightarrow> hd (ds @ r) \<noteq> CHR ''-''"
  by (cases ds) (auto simp: int_part_def is_digit_def)

lemma number_parts:
  assumes "int_part a" and "list_all is_digit b" and "e = [] \<or> e = exp_text neg x \<and> list_all is_digit x \<and> x \<noteq> []"
  shows "number_literal (a @ (if b = [] then [] else CHR ''.'' # b) @ e)"
    and "number_literal (CHR ''-'' # a @ (if b = [] then [] else CHR ''.'' # b) @ e)"
proof -
  let ?f = "if b = [] then [] else CHR ''.'' # b"
  have "scan_int (a @ ?f @ e) = Some (a, ?f @ e)"
    using assms(3) by (intro scan_int_part [OF assms(1)]) (auto simp: exp_text_def point_no_digit)
  moreover have "scan_frac (?f @ e) = Some (?f, e)"
    using assms(3) by (intro scan_frac_part [OF assms(2)]) (auto simp: exp_text_def)
  moreover have "scan_exp e = Some (e, [])"
    using assms(3) scan_exp_part by (auto simp: scan_exp_def)
  ultimately show "number_literal (a @ ?f @ e)" "number_literal (CHR ''-'' # a @ ?f @ e)"
    using sign_of_digits [OF assms(1), of "?f @ e"] by (simp_all add: number_literal_def scan_number_def)
qed

lemma list_all_take_drop: "list_all P xs \<Longrightarrow> list_all P (take n xs)" "list_all P xs \<Longrightarrow> list_all P (drop n xs)"
  by (auto simp: list_all_iff dest: in_set_takeD in_set_dropD)

lemma int_part_take: "int_part ds \<Longrightarrow> hd ds \<noteq> CHR ''0'' \<Longrightarrow> 0 < n \<Longrightarrow> int_part (take n ds)"
  by (cases ds; cases n) (auto simp: int_part_def list_all_take_drop)

lemma positive_digits:
  assumes "0 < d"
  shows "int_part (FormatInt d)" and "hd (FormatInt d) \<noteq> CHR ''0''" and "list_all is_digit (FormatInt d)"
    and "of_nat (digits_val (FormatInt d)) = (of_int d :: rat)"
  using assms nat_digits_head [of "nat d"] nat_digits_inverse [of "nat d"]
  by (auto simp: FormatInt_digits int_part_def)

text \<open>A text is the number literal, without a sign, of a magnitude.\<close>

definition literal_of :: "string \<Rightarrow> rat \<Rightarrow> bool" where
  "literal_of t x \<longleftrightarrow> number_literal t \<and> number_literal (CHR ''-'' # t) \<and> t \<noteq> [] \<and> is_digit (hd t) \<and> lit_mag t = x"

lemma literal_ofI:
  assumes "int_part a" and "list_all is_digit b" and "e = [] \<or> e = exp_text neg x \<and> list_all is_digit x \<and> x \<noteq> []"
    and "t = a @ (if b = [] then [] else CHR ''.'' # b) @ e" and "lit_mag t = v"
  shows "literal_of t v"
  using number_parts [OF assms(1-3)] assms(1,4,5) by (cases a) (auto simp: literal_of_def int_part_def)

lemma literal_fixed_point:
  assumes "0 < d"
  shows "literal_of (fixed_point d k) (of_int d * pow10 k)"
proof -
  define ds where "ds = FormatInt d"
  define n where "n = length ds"
  note ds = positive_digits [OF assms, folded ds_def]
  consider "0 \<le> k" | "k < 0" "nat (- k) < n" | "k < 0" "n \<le> nat (- k)" by linarith
  then show ?thesis
  proof cases
    case 1
    let ?a = "ds @ replicate (nat k) (CHR ''0'')"
    have "int_part ?a" using ds by (cases ds) (auto simp: int_part_def zeros_are_digits)
    moreover from this have "lit_mag ?a = of_int d * pow10 k"
      using ds 1 by (simp add: lit_mag_whole int_part_def digits_val_append digits_val_zeros pow10_def)
    ultimately show ?thesis
      using 1 by (intro literal_ofI [of ?a "[]" "[]"]) (simp_all add: fixed_point_def ds_def)
  next
    case 2
    let ?a = "take (n - nat (- k)) ds" and ?b = "drop (n - nat (- k)) ds"
    have "int_part ?a" "list_all is_digit ?b" "?b \<noteq> []" "length ?b = nat (- k)"
      using ds 2 by (simp_all add: int_part_take list_all_take_drop n_def)
    moreover from this have "lit_mag (?a @ CHR ''.'' # ?b) = of_int d * pow10 k"
      using ds(4) 2(1) by (subst lit_mag_fraction) (simp_all add: int_part_def)
    ultimately show ?thesis
      using 2 by (intro literal_ofI [of ?a ?b "[]"]) (simp_all add: fixed_point_def Let_def ds_def n_def)
  next
    case 3
    let ?b = "replicate (nat (- k) - n) (CHR ''0'') @ ds"
    have "int_part ''0''" "list_all is_digit ?b" "?b \<noteq> []"
      using ds by (auto simp: int_part_def zeros_are_digits is_digit_def)
    moreover have "digits_val (''0'' @ ?b) = digits_val ds"
      using digits_val_append [of "''0''" ?b] digits_val_append [of "replicate (nat (- k) - n) (CHR ''0'')" ds]
        digits_val_zeros [of 1] by (simp add: digits_val_zeros)
    moreover from calculation have "lit_mag (''0'' @ CHR ''.'' # ?b) = of_int d * pow10 k"
      using ds(4) 3 by (subst lit_mag_fraction) (simp_all add: int_part_def n_def)
    ultimately show ?thesis
      using 3 by (intro literal_ofI [of "''0''" ?b "[]"]) (simp_all add: fixed_point_def Let_def ds_def n_def)
  qed
qed

lemma literal_scientific:
  assumes "0 < d"
  shows "literal_of (scientific d k) (of_int d * pow10 k)"
proof -
  define ds where "ds = FormatInt d"
  note ds = positive_digits [OF assms, folded ds_def]
  define e where "e = k + int (length ds) - 1"
  define x where "x = FormatInt \<bar>e\<bar>"
  have x: "list_all is_digit x" "x \<noteq> []" "digits_val x = nat \<bar>e\<bar>"
    using nat_digits_inverse [of "nat \<bar>e\<bar>"] by (simp_all add: x_def FormatInt_digits)
  let ?t = "take 1 ds @ (if drop 1 ds = [] then [] else CHR ''.'' # drop 1 ds) @ exp_text (e < 0) x"
  have "ds \<noteq> []" using ds by (auto simp: int_part_def)
  then have len: "length ds = 1 \<longleftrightarrow> drop 1 ds = []" "int (length (drop 1 ds)) = int (length ds) - 1"
    by (cases ds; simp)+
  have t: "scientific d k = ?t"
    unfolding scientific_def Let_def ds_def [symmetric] e_def [symmetric] x_def [symmetric] len(1) exp_text_def by simp
  have "(if e < 0 then - int (digits_val x) else int (digits_val x)) - int (length (drop 1 ds)) = k"
    unfolding x(3) len(2) e_def by simp
  then have "lit_mag ?t = of_int d * pow10 k"
    using ds by (subst lit_mag_exp) (simp_all add: x list_all_take_drop)
  moreover have "int_part (take 1 ds)" "list_all is_digit (drop 1 ds)"
    using ds by (simp_all add: int_part_take list_all_take_drop)
  ultimately show ?thesis
    using x by (intro literal_ofI [of "take 1 ds" "drop 1 ds" "exp_text (e < 0) x" "e < 0" x]) (simp_all add: t)
qed

section \<open>Floats\<close>

definition f64_ok :: "f64 \<Rightarrow> bool" where
  "f64_ok v \<longleftrightarrow> (case v of Fin s m \<Rightarrow> 0 \<le> m \<and> round_mag m = m \<and> m < 2 ^ 1024 | _ \<Rightarrow> False)"

theorem json_float_reads_back:
  assumes "f64_ok v"
  shows "\<exists>t. json_float v = Some t \<and> number_literal t \<and> ParseFloat t = Some v"
proof -
  obtain s m where v: "v = Fin s m" "0 \<le> m" "round_mag m = m" "m < 2 ^ 1024"
    using assms by (auto simp: f64_ok_def split: f64.splits)
  have "\<exists>t x. literal_of t x \<and> json_float v = Some ((if s then ''-'' else []) @ t) \<and> f_round s (if s then - x else x) = v"
  proof (cases "m = 0")
    case True
    have "literal_of ''0'' 0"
      by (rule literal_ofI [of "''0''" "[]" "[]"]) (simp_all add: int_part_def is_digit_def lit_mag_whole digits_val_def
          digit_val_def byte_val_def)
    with True v show ?thesis
      by (intro exI [of _ "''0''"] exI [of _ 0]) (simp add: json_float_def f_round_def)
  next
    case False
    then have pos: "0 < m" using v(2) by simp
    obtain d k where dk: "shortest m = (d, k)" by (cases "shortest m")
    note sh = shortest_reads_back [OF pos v(3) dk]
    define x where "x = of_int d * pow10 k"
    have x: "0 < x" using sh(2) by (simp add: x_def)
    have "f_round s (if s then - x else x) = v"
      using x v(4) sh(1) by (simp add: v(1) f_round_def Let_def x_def [symmetric] not_le)
    moreover have "\<exists>t. literal_of t x \<and> json_float v = Some ((if s then ''-'' else []) @ t)"
      using literal_fixed_point [OF sh(2), of k] literal_scientific [OF sh(2), of k] False
      by (auto simp: json_float_def v(1) dk x_def)
    ultimately show ?thesis by blast
  qed
  then obtain t x where t: "literal_of t x" "json_float v = Some ((if s then ''-'' else []) @ t)"
    "f_round s (if s then - x else x) = v" by blast
  have "split_sign ((if s then ''-'' else []) @ t) = (s, t)"
    using t(1) by (cases t) (auto simp: literal_of_def split_sign_def is_digit_def)
  then have "ParseFloat ((if s then ''-'' else []) @ t) = Some v"
    using t v(1) by (cases s) (simp_all add: ParseFloat_def literal_of_def Let_def)
  then show ?thesis using t by (auto simp: literal_of_def)
qed

section \<open>Computed floats\<close>

lemma quantum_at: "pow2 e \<le> x \<Longrightarrow> x < pow2 (e + 1) \<Longrightarrow> -1022 \<le> e \<Longrightarrow> quantum x = pow2 (e - 52)"
  using binexp_eq [of e x] by (simp add: quantum_def)

lemma round_mag_0: "round_mag 0 = 0"
  by (simp add: round_mag_def)

text \<open>Rounding twice is rounding once.\<close>

lemma round_mag_idem: "round_mag (round_mag x) = round_mag x"
proof (cases "round_mag x \<le> 0")
  case True
  then show ?thesis using round_mag_nonneg [of x] by (simp add: round_mag_0)
next
  case False
  define e where "e = max (binexp x) (-1022)"
  define q where "q = pow2 (e - 52)"
  define N where "N = round_even (x / q)"
  have x: "0 < x" using False by (cases "x \<le> 0") (simp_all add: round_mag_def)
  have q: "0 < q" "quantum x = q" by (simp_all add: q_def quantum_def e_def)
  have r: "round_mag x = of_int N * q" using x q(2) by (simp add: round_mag_def N_def)
  have p52: "pow2 e = of_int (2 ^ 52) * q" and p53: "pow2 (e + 1) = of_int (2 ^ 53) * q"
    using pow2_split [of "e - 52" 52] pow2_split [of "e - 52" 53] by (simp_all add: q_def add.commute)
  have "x < pow2 (e + 1)" using binexp_bounds [OF x] pow2_mono [of "binexp x + 1" "e + 1"] by (force simp: e_def)
  then have "x / q \<le> of_int (2 ^ 53)" unfolding p53 using q(1) by (simp add: pos_divide_le_eq del: of_int_power)
  from round_even_mono [OF this] have N: "N \<le> 2 ^ 53" unfolding round_even_of_int N_def .
  have le: "of_int a * q \<le> of_int b * q" if "a \<le> b" for a b
    using that q(1) by (intro mult_right_mono) simp_all
  have pos: "0 < round_mag x" using False by simp
  have "\<exists>m. round_mag x = of_int m * quantum (round_mag x)"
  proof (cases "N = 2 ^ 53")
    case True
    have "round_mag x = pow2 (e + 1)" unfolding r True p53 ..
    moreover have "quantum (pow2 (e + 1)) = pow2 (e + 1 - 52)"
      using pow2_Suc [of "e + 1"] pow2_pos [of "e + 1"] by (intro quantum_at) (simp_all add: e_def)
    moreover have "pow2 (e + 1) = of_int (2 ^ 52) * pow2 (e + 1 - 52)"
      using pow2_split [of "e + 1 - 52" 52] by (simp add: add.commute)
    ultimately show ?thesis by metis
  next
    case False
    have below: "round_mag x < pow2 (e + 1)"
    proof -
      have "of_int N * q \<le> of_int (2 ^ 53 - 1) * q" using N False by (intro le) simp
      also have "\<dots> < pow2 (e + 1)" unfolding p53 using q(1) by (simp add: left_diff_distrib)
      finally show ?thesis unfolding r .
    qed
    have "quantum (round_mag x) = q"
    proof (cases "2 ^ 52 \<le> N")
      case True
      then have "pow2 e \<le> round_mag x" unfolding p52 r by (rule le)
      then show ?thesis using below quantum_at [of e] by (simp add: q_def e_def)
    next
      case small: False
      have "binexp x < e"
      proof (rule ccontr)
        assume "\<not> binexp x < e"
        then have "pow2 e \<le> x" using binexp_bounds [OF x] by (simp add: e_def)
        then have "of_int (2 ^ 52) \<le> x / q" unfolding p52 using q(1) by (simp add: pos_le_divide_eq del: of_int_power)
        from round_even_mono [OF this] small show False unfolding round_even_of_int N_def by simp
      qed
      then have e: "e = -1022" by (simp add: e_def)
      have "binexp (round_mag x) < e + 1"
        using pow2_mono [of "e + 1" "binexp (round_mag x)"] binexp_bounds [OF pos] below by force
      then show ?thesis using e by (simp add: quantum_def q_def max_def)
    qed
    then show ?thesis using r by metis
  qed
  then show ?thesis using round_mag_multiple [OF pos] by blast
qed

text \<open>Whatever an operation computes is a number of the format, an infinity or not a number.\<close>

definition regular :: "f64 \<Rightarrow> bool" where
  "regular v \<longleftrightarrow> (case v of Fin _ _ \<Rightarrow> f64_ok v | _ \<Rightarrow> True)"

lemma regular_f_round [simp]: "regular (f_round s x)"
  using round_mag_nonneg [of "\<bar>x\<bar>"] round_mag_idem [of "\<bar>x\<bar>"]
  by (simp add: f_round_def Let_def regular_def f64_ok_def round_mag_0 not_le)

lemma regular_ops [simp]: "regular (f_add v w)" "regular (f_mul v w)" "regular (f_div v w)" "regular (f_sub v w)"
proof -
  have zero: "regular (Fin s 0)" for s by (simp add: regular_def f64_ok_def round_mag_0)
  show "regular (f_add v w)" for v w by (cases "(v, w)" rule: f_add.cases) (simp_all, simp_all add: regular_def)
  then show "regular (f_sub v w)" by (simp add: f_sub_def)
  show "regular (f_mul v w)" by (cases "(v, w)" rule: f_mul.cases) (simp_all, simp_all add: regular_def)
  show "regular (f_div v w)" by (cases "(v, w)" rule: f_div.cases) (simp_all add: zero, simp_all add: regular_def)
qed

end
