(* ===== verification/JsonDecode.thy ===== *)
theory JsonDecode
  imports NumRound GoUnmarshal
begin

text \<open>
  Decoding what the agent encoded: a struct whose members stand in the order of its fields is filled member by
  member, whatever it held before.
\<close>

section \<open>Fields in order\<close>

definition names_differ :: "string list \<Rightarrow> bool" where
  "names_differ ns \<longleftrightarrow> list_all is_ascii ns \<and> distinct (map (map ascii_lower) ns)"

fun fields_fill :: "(string \<times> 'r dec) list \<Rightarrow> (string \<times> json) list \<Rightarrow> 'r \<Rightarrow> 'r \<Rightarrow> bool" where
  "fields_fill [] [] r r' \<longleftrightarrow> r = r'"
| "fields_fill ((n, d) # fs) ((k, j) # ms) r r' \<longleftrightarrow>
    n = k \<and> snd (d j r) = DOk \<and> fields_fill fs ms (fst (d j r)) r'"
| "fields_fill _ _ _ _ \<longleftrightarrow> False"

lemma names_field_self [simp]: "names_field n n"
  by (simp add: names_field_def)

lemma find_own_field:
  assumes "names_differ (map fst fs)" and "(n, d) \<in> set fs"
  shows "find (\<lambda>f. names_field (fst f) n) fs = Some (n, d)"
  using assms
proof (induction fs)
  case (Cons f fs)
  show ?case
  proof (cases "f = (n, d)")
    case False
    with Cons.prems have n: "n \<in> set (map fst fs)" by force
    then have "map ascii_lower (fst f) \<noteq> map ascii_lower n" using Cons.prems(1) by (force simp: names_differ_def)
    then have "\<not> names_field (fst f) n"
      using Cons.prems(1) n names_field_ascii [of "fst f" n] by (auto simp: names_differ_def list_all_iff)
    with False Cons show ?thesis by (simp add: names_differ_def)
  qed simp
qed simp

lemma dec_fields_fill:
  assumes "names_differ (map fst fs0)" and "set fs \<subseteq> set fs0" and "fields_fill fs ms r r'"
  shows "dec_fields fs0 ms r = (r', DOk)"
  using assms(2,3)
proof (induction fs ms r r' rule: fields_fill.induct)
  case (2 n d fs k j ms r r')
  then have "find (\<lambda>f. names_field (fst f) k) fs0 = Some (n, d)"
    using find_own_field [OF assms(1), of n d] by simp
  with 2 show ?case by (cases "d j r") simp
qed simp_all

lemma dec_struct_fill:
  "names_differ (map fst fs) \<Longrightarrow> fields_fill fs ms r r' \<Longrightarrow> dec_struct fs (JObj ms) r = (r', DOk)"
  by (simp add: dec_struct_def dec_fields_fill [of fs fs])

section \<open>Values\<close>

lemma dec_string_JStr [simp]: "dec_string (JStr s) old = (s, DOk)"
  by (simp add: dec_string_def)

lemma dec_bool_JBool [simp]: "dec_bool (JBool b) old = (b, DOk)"
  by (simp add: dec_bool_def)

lemma dec_word_uint [simp]: "dec_word (JNum (FormatInt (uint (v :: 'w::len word)))) old = (v, DOk)"
proof -
  have "int (digits_val (nat_digits (nat (uint v)))) < 2 ^ LENGTH('w)"
    using nat_digits_inverse [of "nat (uint v)"] uint_bounded [of v] by simp
  then have "digits_val (nat_digits (nat (uint v))) < 2 ^ LENGTH('w)"
    by (metis of_nat_less_iff of_nat_numeral of_nat_power)
  then show ?thesis
    using nat_digits_inverse [of "nat (uint v)"] by (simp add: dec_word_def FormatInt_digits)
qed

lemma dec_at_val: "dec_at get upd d j r = (upd (\<lambda>_. fst (d j (get r))) r, snd (d j (get r)))"
  by (simp add: dec_at_def split: prod.split)

lemma dec_elems_read:
  "(\<And>x old. x \<in> set xs \<Longrightarrow> dec (f x) old = (x, DOk)) \<Longrightarrow> dec_elems zero dec (map f xs) olds = (xs, DOk)"
  by (induction xs arbitrary: olds) simp_all

end
