(* ===== verification/TimeRound.thy ===== *)
theory TimeRound
  imports NumRound
begin

text \<open>
  A time that was printed in one of the two layouts parses to the same instant, as far as the layout shows it:
  the calendar is a bijection, and the fields have fixed widths.
\<close>

section \<open>The calendar\<close>

text \<open>The first day of a year in an era of 400 years, and the year a day of an era lies in.\<close>

definition year_start :: "int \<Rightarrow> int" where
  "year_start y = 365 * y + y div 4 - y div 100 + y div 400"

definition year_of_day :: "int \<Rightarrow> int" where
  "year_of_day doe = (doe - doe div 1460 + doe div 36524 - doe div 146096) div 365"

lemma year_table:
  "list_all (\<lambda>y. year_of_day (year_start y) = y \<and> year_of_day (year_start (y + 1) - 1) = y
      \<and> year_start y < year_start (y + 1) \<and> year_start (y + 1) \<le> year_start y + 366
      \<and> (year_start (y + 1) = year_start y + 366 \<longrightarrow> is_leap (y + 1)))
    [0..399]"
  by code_simp

lemma month_table:
  "list_all (\<lambda>doy. let mp = (5 * doy + 2) div 153; d = doy - (153 * mp + 2) div 5 + 1; m = (if mp < 10 then mp + 3 else mp - 9) in
      0 \<le> mp \<and> mp \<le> 11 \<and> 1 \<le> d
      \<and> d \<le> (if m = 2 then (if doy = 365 then 29 else 28) else if m = 4 \<or> m = 6 \<or> m = 9 \<or> m = 11 then 30 else 31)) [0..365]"
  by code_simp

lemma year_facts:
  assumes "0 \<le> y" and "y < 400"
  shows "year_of_day (year_start y) = y" and "year_of_day (year_start (y + 1) - 1) = y"
    and "year_start y < year_start (y + 1)" and "year_start (y + 1) \<le> year_start y + 366"
    and "year_start (y + 1) = year_start y + 366 \<Longrightarrow> is_leap (y + 1)"
proof -
  have "y \<in> set [0..399]" using assms by simp
  then show "year_of_day (year_start y) = y" "year_of_day (year_start (y + 1) - 1) = y"
    "year_start y < year_start (y + 1)" "year_start (y + 1) \<le> year_start y + 366"
    "year_start (y + 1) = year_start y + 366 \<Longrightarrow> is_leap (y + 1)"
    using year_table unfolding list_all_iff by blast+
qed

lemma month_facts:
  fixes doy :: int
  assumes "0 \<le> doy" and "doy \<le> 365" and "mp = (5 * doy + 2) div 153" and "d = doy - (153 * mp + 2) div 5 + 1"
    and "m = (if mp < 10 then mp + 3 else mp - 9)"
  shows "0 \<le> mp" and "mp \<le> 11" and "1 \<le> d"
    and "d \<le> (if m = 2 then (if doy = 365 then 29 else 28) else if m = 4 \<or> m = 6 \<or> m = 9 \<or> m = 11 then 30 else 31)"
proof -
  have "doy \<in> set [0..365]" using assms by simp
  then show "0 \<le> mp" "mp \<le> 11" "1 \<le> d"
    "d \<le> (if m = 2 then (if doy = 365 then 29 else 28) else if m = 4 \<or> m = 6 \<or> m = 9 \<or> m = 11 then 30 else 31)"
    using month_table unfolding list_all_iff Let_def assms(3-5) by blast+
qed

lemma year_of_day_mono:
  assumes "a \<le> b" and "b < 146096" and "0 \<le> a"
  shows "year_of_day a \<le> year_of_day b"
proof -
  have "b div 1460 \<le> (a + (b - a) * 1460) div 1460" using assms(1) by (intro zdiv_mono1) simp_all
  also have "\<dots> = a div 1460 + (b - a)" by simp
  finally have "b div 1460 - a div 1460 \<le> b - a" by simp
  moreover have "a div 36524 \<le> b div 36524" using assms(1) by (rule zdiv_mono1) simp
  ultimately show ?thesis using assms unfolding year_of_day_def by (intro zdiv_mono1) simp_all
qed

text \<open>The year of a day is the one between whose first days it lies.\<close>

lemma year_exists:
  assumes "0 \<le> doe" and "doe < year_start (int n)"
  shows "\<exists>y. 0 \<le> y \<and> y < int n \<and> year_start y \<le> doe \<and> doe < year_start (y + 1)"
  using assms(2)
proof (induction n)
  case 0
  with assms(1) show ?case by (simp add: year_start_def)
next
  case (Suc n)
  show ?case
  proof (cases "doe < year_start (int n)")
    case True
    with Suc.IH show ?thesis by fastforce
  next
    case False
    with Suc.prems show ?thesis by (intro exI [of _ "int n"]) (simp add: add.commute)
  qed
qed

lemma year_start_400: "year_start 400 = 146097"
  by (simp add: year_start_def)

lemma year_of_day_correct:
  assumes "0 \<le> doe" and "doe < 146097" and "y = year_of_day doe"
  shows "0 \<le> y" and "y < 400" and "year_start y \<le> doe" and "doe < year_start (y + 1)"
proof -
  obtain z where z: "0 \<le> z" "z < 400" "year_start z \<le> doe" "doe < year_start (z + 1)"
    using year_exists [of doe 400] assms(1,2) year_start_400 by auto
  have "year_of_day doe = z"
  proof (cases "doe = 146096")
    case True
    have "\<not> z + 1 \<le> 399"
    proof
      assume "z + 1 \<le> 399"
      then have "(z + 1) div 4 \<le> 399 div 4" "0 \<le> (z + 1) div 100" using z by (simp_all add: zdiv_mono1)
      then have "year_start (z + 1) \<le> 365 * 399 + 99" using \<open>z + 1 \<le> 399\<close> unfolding year_start_def by simp
      with z(4) True show False by simp
    qed
    with z have "z = 399" by simp
    with True show ?thesis by (simp add: year_of_day_def)
  next
    case False
    then have d: "doe < 146096" using assms(2) by simp
    have "year_of_day (year_start z) \<le> year_of_day doe"
      using z d by (intro year_of_day_mono) (auto simp: year_start_def)
    moreover have "year_of_day doe \<le> year_of_day (year_start (z + 1) - 1)"
    proof (cases "year_start (z + 1) - 1 < 146096")
      case True
      then show ?thesis using z assms(1) by (intro year_of_day_mono) simp_all
    next
      case False
      have "year_of_day 146095 \<le> 399" by (simp add: year_of_day_def)
      moreover have "year_of_day doe \<le> year_of_day 146095" using d assms(1) by (intro year_of_day_mono) simp_all
      moreover have "z = 399"
      proof (rule ccontr)
        assume "z \<noteq> 399"
        then have "z + 1 \<le> 399" using z by simp
        then have "(z + 1) div 4 \<le> 399 div 4" "0 \<le> (z + 1) div 100" using z by (simp_all add: zdiv_mono1)
        then show False using False \<open>z + 1 \<le> 399\<close> unfolding year_start_def by simp
      qed
      ultimately show ?thesis using year_facts(2) [OF z(1,2)] by simp
    qed
    ultimately show ?thesis using year_facts(1,2) [OF z(1,2)] by simp
  qed
  with z assms(3) show "0 \<le> y" "y < 400" "year_start y \<le> doe" "doe < year_start (y + 1)" by simp_all
qed

lemma is_leap_era: "is_leap (y + era * 400) = is_leap y"
proof -
  have "y + era * 400 = y + era * 100 * 4" "y + era * 400 = y + era * 4 * 100" by simp_all
  then have "(y + era * 400) mod 4 = y mod 4" "(y + era * 400) mod 100 = y mod 100" by (metis mod_mult_self1)+
  then show ?thesis by (simp add: is_leap_def)
qed

text \<open>Every day has a valid date, and the date gives the day back.\<close>

theorem calendar_roundtrip:
  assumes "civil_from_days z = (y, m, d)"
  shows "days_from_civil y m d = z" and "1 \<le> m" and "m \<le> 12" and "1 \<le> d" and "d \<le> days_in m y"
proof -
  define era doe where "era = (z + 719468) div 146097" and "doe = (z + 719468) mod 146097"
  define yoe where "yoe = year_of_day doe"
  define doy where "doy = doe - (365 * yoe + yoe div 4 - yoe div 100)"
  define mp where "mp = (5 * doy + 2) div 153"
  have "civil_from_days z = (if (if mp < 10 then mp + 3 else mp - 9) \<le> 2 then yoe + era * 400 + 1 else yoe + era * 400,
      if mp < 10 then mp + 3 else mp - 9, doy - (153 * mp + 2) div 5 + 1)"
    by (simp only: civil_from_days_def Let_def era_def doe_def yoe_def doy_def mp_def year_of_day_def)
  then have ymd: "d = doy - (153 * mp + 2) div 5 + 1" "m = (if mp < 10 then mp + 3 else mp - 9)"
    "y = (if m \<le> 2 then yoe + era * 400 + 1 else yoe + era * 400)"
    using assms by simp_all
  have z: "z = era * 146097 + doe - 719468" by (simp add: era_def doe_def)
  have doe: "0 \<le> doe" "doe < 146097" by (simp_all add: doe_def)
  note yoe = year_of_day_correct [OF doe yoe_def]
  note yf = year_facts [OF yoe(1,2)]
  have doy_start: "doy = doe - year_start yoe" using yoe(1,2) by (simp add: doy_def year_start_def)
  have doy: "0 \<le> doy" "doy \<le> 365" using yoe yf(4) by (simp_all add: doy_start)
  note mf = month_facts [OF doy mp_def ymd(1,2)]
  show "1 \<le> m" "m \<le> 12" "1 \<le> d" using mf ymd(2) by auto
  have "(yoe + era * 400) div 400 = era" "(yoe + era * 400) mod 400 = yoe" using yoe(1,2) by simp_all
  moreover have "(if m \<le> 2 then y - 1 else y) = yoe + era * 400" using ymd(3) by simp
  moreover have "(if 2 < m then m - 3 else m + 9) = mp" using ymd(2) mf(1,2) by auto
  ultimately have "days_from_civil y m d =
      era * 146097 + (yoe * 365 + yoe div 4 - yoe div 100 + ((153 * mp + 2) div 5 + d - 1)) - 719468"
    unfolding days_from_civil_def Let_def by simp
  also have "\<dots> = z" unfolding z ymd(1) doy_def by simp
  finally show "days_from_civil y m d = z" .
  have "is_leap y" if "m = 2" "doy = 365"
  proof -
    have "year_start (yoe + 1) = year_start yoe + 366" using that(2) yoe(4) yf(4) by (simp add: doy_start)
    then show ?thesis using yf(5) is_leap_era [of "yoe + 1" era] ymd(3) that(1) by (simp add: algebra_simps)
  qed
  then show "d \<le> days_in m y" using mf(4) by (auto simp: days_in_def split: if_splits)
qed

section \<open>Fields of fixed width\<close>

lemma pad_digits:
  assumes "0 \<le> n" and "n < 10 ^ w" and "0 < w"
  shows "length (pad w n) = w" and "list_all is_digit (pad w n)" and "digits_val (pad w n) = nat n"
proof -
  define ds where "ds = nat_digits (nat n)"
  have ds: "list_all is_digit ds" "digits_val ds = nat n" using nat_digits_inverse [of "nat n"] by (simp_all add: ds_def)
  have "length ds \<le> w"
  proof (cases "n = 0")
    case True
    then show ?thesis using assms(3) by (simp add: ds_def nat_digits.simps [of 0])
  next
    case False
    then have "10 ^ (length ds - 1) \<le> nat n" using assms(1) nat_digits_bounds(1) [of "nat n"] by (simp add: ds_def)
    also have "\<dots> < 10 ^ w" using assms(1,2) by (simp add: nat_less_iff)
    finally have "length ds - 1 < w" by simp
    then show ?thesis by simp
  qed
  then show "length (pad w n) = w" "list_all is_digit (pad w n)" "digits_val (pad w n) = nat n"
    using assms(1) ds by (simp_all add: pad_def ds_def [symmetric] zeros_are_digits digits_val_append digits_val_zeros)
qed

lemma parse_field_pad:
  "0 \<le> lo \<Longrightarrow> lo \<le> n \<Longrightarrow> n \<le> hi \<Longrightarrow> n < 10 ^ w \<Longrightarrow> 0 < w \<Longrightarrow> parse_field (pad w n) lo hi = Some n"
  using pad_digits [of n w] by (simp add: parse_field_def)

lemma pad_2:
  assumes "0 \<le> n" and "n < 100"
  obtains a b where "pad 2 n = [a, b]"
proof -
  have "length (pad 2 n) = 2" using assms by (intro pad_digits) simp_all
  then show ?thesis using that by (auto simp: numeral_eq_Suc length_Suc_conv)
qed

lemma pad_4:
  assumes "0 \<le> n" and "n < 10000"
  obtains a b c d where "pad 4 n = [a, b, c, d]"
proof -
  have "length (pad 4 n) = 4" using assms by (intro pad_digits) simp_all
  then show ?thesis using that by (auto simp: numeral_eq_Suc length_Suc_conv)
qed

definition year_of :: "int \<Rightarrow> int" where
  "year_of secs = fst (civil_from_days (secs div 86400))"

lemma days_in_bound: "days_in m y \<le> 31"
  by (simp add: days_in_def)

lemma parse_seconds_format:
  assumes "0 \<le> year_of secs" and "year_of secs \<le> 9999"
  shows "parse_seconds (format_seconds secs @ r) = Some (secs, r)"
proof -
  obtain y m d where c: "civil_from_days (secs div 86400) = (y, m, d)" by (metis prod_cases3)
  note cal = calendar_roundtrip [OF c]
  define t where "t = secs mod 86400"
  define h mi se where "h = t div 3600" and "mi = t div 60 mod 60" and "se = t mod 60"
  have y: "0 \<le> y" "y \<le> 9999" using assms c by (simp_all add: year_of_def)
  have t: "0 \<le> t" "t < 86400" by (simp_all add: t_def)
  then have h: "0 \<le> h" "h \<le> 23" by (simp_all add: h_def)
  have ms: "0 \<le> mi" "mi \<le> 59" "0 \<le> se" "se \<le> 59" by (simp_all add: mi_def se_def)
  have secs: "secs = secs div 86400 * 86400 + h * 3600 + mi * 60 + se"
  proof -
    have "t = h * 3600 + mi * 60 + se"
    proof -
      define u where "u = t div 60"
      have "t = u * 60 + se" "u = u div 60 * 60 + mi" by (simp_all add: u_def mi_def se_def)
      moreover have "h = u div 60" using zdiv_zmult2_eq [of 60 t 60] by (simp add: h_def u_def)
      ultimately show ?thesis by linarith
    qed
    then show ?thesis using div_mult_mod_eq [of secs 86400] by (simp add: t_def)
  qed
  obtain y1 y2 y3 y4 where py: "pad 4 y = [y1, y2, y3, y4]" using pad_4 [of y] y by force
  obtain m1 m2 where pm: "pad 2 m = [m1, m2]" using pad_2 [of m] cal by force
  obtain d1 d2 where pd: "pad 2 d = [d1, d2]" using pad_2 [of d] cal days_in_bound [of m y] by force
  obtain h1 h2 where ph: "pad 2 h = [h1, h2]" using pad_2 [of h] h by force
  obtain i1 i2 where pi: "pad 2 mi = [i1, i2]" using pad_2 [of mi] ms by force
  obtain s1 s2 where ps: "pad 2 se = [s1, s2]" using pad_2 [of se] ms by force
  have form: "format_seconds secs @ r =
      y1 # y2 # y3 # y4 # CHR ''-'' # m1 # m2 # CHR ''-'' # d1 # d2 # CHR ''T'' # h1 # h2 # CHR '':'' # i1 # i2 # CHR '':'' # s1 # s2 # r"
    by (simp add: format_seconds_def c Let_def t_def [symmetric] h_def [symmetric] mi_def [symmetric] se_def [symmetric] py pm pd ph pi ps)
  have "parse_field [y1, y2, y3, y4] 0 9999 = Some y" "parse_field [m1, m2] 1 12 = Some m"
    "parse_field [d1, d2] 1 (days_in m y) = Some d" "parse_field [h1, h2] 0 23 = Some h"
    "parse_field [i1, i2] 0 59 = Some mi" "parse_field [s1, s2] 0 59 = Some se"
    unfolding py [symmetric] pm [symmetric] pd [symmetric] ph [symmetric] pi [symmetric] ps [symmetric]
    using y cal h ms days_in_bound [of m y] by (simp_all add: parse_field_pad)
  then show ?thesis
    unfolding form parse_seconds_def slice_def using cal(1) secs by (simp add: numeral_eq_Suc)
qed

section \<open>Fractions and zones\<close>

lemma TrimRight_zeros: "\<exists>k. s = TrimRight s c @ replicate k c"
proof -
  have "takeWhile (\<lambda>d. d = c) xs = replicate (length (takeWhile (\<lambda>d. d = c) xs)) c" for xs
    by (induction xs) simp_all
  then have "rev (takeWhile (\<lambda>d. d = c) (rev s)) = replicate (length (takeWhile (\<lambda>d. d = c) (rev s))) c"
    by (metis rev_replicate)
  then have "rev (takeWhile (\<lambda>d. d = c) (rev s) @ dropWhile (\<lambda>d. d = c) (rev s)) =
      TrimRight s c @ replicate (length (takeWhile (\<lambda>d. d = c) (rev s))) c"
    unfolding rev_append TrimRight_def by simp
  then show ?thesis unfolding takeWhile_dropWhile_id by auto
qed

lemma parse_fraction_format:
  assumes "0 \<le> n" and "n < Second" and "z \<noteq> []" and "\<not> is_digit (hd z)" and "hd z \<noteq> CHR ''.''"
  shows "parse_fraction (format_fraction n @ z) = (n, z)"
proof (cases "n = 0")
  case True
  with assms(3-5) show ?thesis by (simp add: format_fraction_def parse_fraction_def)
next
  case False
  define p where "p = pad 9 n"
  have p: "length p = 9" "list_all is_digit p" "digits_val p = nat n"
    using pad_digits [of n 9] assms(1,2) by (simp_all add: p_def)
  define ds where "ds = TrimRight p (CHR ''0'')"
  obtain k where k: "p = ds @ replicate k (CHR ''0'')" using TrimRight_zeros [of p "CHR ''0''"] by (auto simp: ds_def)
  have "ds \<noteq> []"
  proof
    assume "ds = []"
    then have "digits_val p = 0" using k by (simp add: digits_val_zeros)
    with p(3) False assms(1) show False by simp
  qed
  moreover have "list_all is_digit ds" using p(2) k by simp
  moreover obtain c r where z: "z = c # r" "\<not> is_digit c" using assms(3,4) by (cases z) auto
  moreover have "take 9 (ds @ ''000000000'') = p"
  proof -
    have "''000000000'' = replicate 9 (CHR ''0'')" by (simp add: numeral_eq_Suc)
    moreover have "9 - length ds = k" "length ds \<le> 9" "k \<le> 9" using p(1) k by simp_all
    ultimately show ?thesis by (simp add: k min_def)
  qed
  ultimately show ?thesis
    using p(3) assms(1) False
    by (simp add: format_fraction_def p_def [symmetric] ds_def [symmetric] parse_fraction_def literal_parts)
qed

lemma parse_zone_format:
  assumes "off mod 60 = 0" and "\<bar>off\<bar> < 24 * 60 * 60"
  shows "parse_zone (format_zone off) = Some off"
proof (cases "off = 0")
  case True
  then show ?thesis by (simp add: format_zone_def parse_zone_def)
next
  case False
  define m where "m = \<bar>off\<bar> div 60"
  have m: "\<bar>off\<bar> = m * 60" "m \<noteq> 0" "0 \<le> m" "m < 1440"
  proof -
    show "\<bar>off\<bar> = m * 60" using assms(1) by (auto simp: m_def abs_if)
    then show "m \<noteq> 0" "0 \<le> m" "m < 1440" using False assms(2) by (auto simp: m_def)
  qed
  define h mi where "h = m div 60" and "mi = m mod 60"
  have hm: "0 \<le> h" "h \<le> 23" "0 \<le> mi" "mi \<le> 59" "h * 60 + mi = m"
    using m(3,4) by (simp_all add: h_def mi_def)
  obtain h1 h2 where ph: "pad 2 h = [h1, h2]" using pad_2 [of h] hm by force
  obtain i1 i2 where pi: "pad 2 mi = [i1, i2]" using pad_2 [of mi] hm by force
  have "parse_field [h1, h2] 0 23 = Some h" "parse_field [i1, i2] 0 59 = Some mi"
    unfolding ph [symmetric] pi [symmetric] using hm by (simp_all add: parse_field_pad)
  moreover have "format_zone off = (if off < 0 then CHR ''-'' else CHR ''+'') # h1 # h2 # CHR '':'' # i1 # [i2]"
    using False m(2)
    by (simp add: format_zone_def Let_def m_def [symmetric] h_def [symmetric] mi_def [symmetric] ph pi)
  moreover have "(if off < 0 then - 1 else 1) * (h * 60 + mi) * 60 = off" unfolding hm(5) using m(1) by (simp add: abs_if split: if_splits)
  ultimately show ?thesis
    by (cases "off < 0") (simp_all add: parse_zone_def slice_def numeral_eq_Suc algebra_simps)
qed

lemma zone_head: "format_zone off \<noteq> [] \<and> \<not> is_digit (hd (format_zone off)) \<and> hd (format_zone off) \<noteq> CHR ''.''"
  by (simp add: format_zone_def Let_def is_digit_def)

section \<open>Round trips\<close>

theorem ParseZoned_time_text:
  assumes "time_text (t, off) = Some v" and "off mod 60 = 0"
  shows "ParseZoned v = Some (t, off)"
proof -
  define secs where "secs = t div Second + off"
  have y: "0 \<le> year_of secs" "year_of secs \<le> 9999" "\<bar>off\<bar> < 24 * 60 * 60" "v = FormatZonedNano (t, off)"
    using assms(1) by (auto simp: time_text_def year_of_def secs_def split: prod.splits if_splits)
  have "t = (secs - off) * Second + t mod Second" by (simp add: secs_def)
  then show ?thesis
    using y parse_fraction_format [of "t mod Second" "format_zone off"] parse_zone_format [OF assms(2) y(3)] zone_head [of off]
    by (simp add: FormatZonedNano_def secs_def [symmetric] ParseZoned_def parse_seconds_format)
qed

theorem ParseRFC3339_Nano:
  assumes "0 \<le> year_of (t div Second)" and "year_of (t div Second) \<le> 9999"
  shows "ParseRFC3339 (FormatRFC3339Nano t) = Some t"
  using parse_fraction_format [of "t mod Second" "''Z''"] assms
  by (simp add: FormatRFC3339Nano_def ParseRFC3339_def parse_seconds_format parse_zone_def is_digit_def)

theorem ParseRFC3339_seconds:
  assumes "0 \<le> year_of (t div Second)" and "year_of (t div Second) \<le> 9999"
  shows "ParseRFC3339 (FormatRFC3339 t) = Some (t div Second * Second)"
  using parse_fraction_format [of 0 "''Z''"] assms
  by (simp add: FormatRFC3339_def format_fraction_def ParseRFC3339_def parse_seconds_format parse_zone_def is_digit_def)

end
