(* ===== verification/InvRound.thy ===== *)
theory InvRound
  imports JsonDecode TimeRound InvNormal
begin

text \<open>
  What the inventory stores, it reads back: the snapshot and the timeline, written with \<open>json.Marshal\<close>, decode to
  the same Go values.
\<close>

section \<open>Trees\<close>

lemma dec_list_jList [simp]:
  "(\<And>x old. x \<in> set xs \<Longrightarrow> dec (f x) old = (x, DOk)) \<Longrightarrow> dec_list zero dec (jList f xs) olds = (xs, DOk)"
  by (simp add: dec_list_def jList_def dec_elems_read)

lemma dec_slice_jSlice [simp]:
  "(\<And>x old. x \<in> set (case xs of None \<Rightarrow> [] | Some ys \<Rightarrow> ys) \<Longrightarrow> dec (f x) old = (x, DOk)) \<Longrightarrow>
    dec_slice zero dec (jSlice f xs) olds = (xs, DOk)"
  by (cases xs) (simp_all add: dec_slice_def jSlice_def dec_elems_read)

lemma dec_float_jF [simp]: "f64_ok v \<Longrightarrow> dec_float (JNum (case json_float v of Some t \<Rightarrow> t | None \<Rightarrow> [])) old = (v, DOk)"
  using json_float_reads_back [of v] by (auto simp: dec_float_def)

lemmas tree_defs = jS_def jB_def jW_def jF_def

lemmas names_eval = names_differ_def is_ascii_def byte_val_def ascii_lower_def byte_of_def

lemma General_reads [simp]: "General_dec (General_json v) old = (v, DOk)"
  unfolding General_dec_def General_json_def
  by (rule dec_struct_fill) (simp_all add: names_eval tree_defs dec_at_val)

lemma OperatingSystem_reads [simp]: "OperatingSystem_dec (OperatingSystem_json v) old = (v, DOk)"
  unfolding OperatingSystem_dec_def OperatingSystem_json_def
  by (rule dec_struct_fill) (simp_all add: names_eval tree_defs dec_at_val)

lemma CPU_reads [simp]: "CPU_dec (CPU_json v) old = (v, DOk)"
  unfolding CPU_dec_def CPU_json_def
  by (rule dec_struct_fill) (simp_all add: names_eval tree_defs dec_at_val)

lemma MemoryModule_reads [simp]: "MemoryModule_dec (MemoryModule_json v) old = (v, DOk)"
  unfolding MemoryModule_dec_def MemoryModule_json_def
  by (rule dec_struct_fill) (simp_all add: names_eval tree_defs dec_at_val)

lemma Motherboard_reads [simp]: "Motherboard_dec (Motherboard_json v) old = (v, DOk)"
  unfolding Motherboard_dec_def Motherboard_json_def
  by (rule dec_struct_fill) (simp_all add: names_eval tree_defs dec_at_val)

lemma BIOS_reads [simp]: "BIOS_dec (BIOS_json v) old = (v, DOk)"
  unfolding BIOS_dec_def BIOS_json_def
  by (rule dec_struct_fill) (simp_all add: names_eval tree_defs dec_at_val)

lemma SecurityState_reads [simp]: "SecurityState_dec (SecurityState_json v) old = (v, DOk)"
  unfolding SecurityState_dec_def SecurityState_json_def
  by (rule dec_struct_fill) (simp_all add: names_eval tree_defs dec_at_val)

lemma Security_reads [simp]: "Security_dec (Security_json v) old = (v, DOk)"
  unfolding Security_dec_def Security_json_def
  by (rule dec_struct_fill) (simp_all add: names_eval tree_defs dec_at_val)

lemma Monitor_reads [simp]: "Monitor_dec (Monitor_json v) old = (v, DOk)"
  unfolding Monitor_dec_def Monitor_json_def
  by (rule dec_struct_fill) (simp_all add: names_eval tree_defs dec_at_val)

lemma GPU_reads [simp]: "GPU_dec (GPU_json v) old = (v, DOk)"
  unfolding GPU_dec_def GPU_json_def
  by (rule dec_struct_fill) (simp_all add: names_eval tree_defs dec_at_val)

lemma Users_reads [simp]: "Users_dec (Users_json v) old = (v, DOk)"
  unfolding Users_dec_def Users_json_def
  by (rule dec_struct_fill) (simp_all add: names_eval tree_defs dec_at_val)

lemma HardwareChange_reads [simp]: "HardwareChange_dec (HardwareChange_json v) old = (v, DOk)"
  unfolding HardwareChange_dec_def HardwareChange_json_def
  by (rule dec_struct_fill) (simp_all add: names_eval tree_defs dec_at_val)

lemma Memory_reads [simp]: "list_all f64_ok [rm_TotalGB v, rm_UsedGB v, rm_AvailableGB v, rm_UsagePercent v] \<Longrightarrow> Memory_dec (Memory_json v) old = (v, DOk)"
  unfolding Memory_dec_def Memory_json_def
  by (rule dec_struct_fill) (simp_all add: names_eval tree_defs dec_at_val)

lemma StorageDevice_reads [simp]: "list_all f64_ok (device_floats v) \<Longrightarrow> StorageDevice_dec (StorageDevice_json v) old = (v, DOk)"
  unfolding StorageDevice_dec_def StorageDevice_json_def
  by (rule dec_struct_fill) (simp_all add: names_eval tree_defs dec_at_val device_floats_def)

lemma NetworkAdapter_reads [simp]: "NetworkAdapter_dec (NetworkAdapter_json v) old = (v, DOk)"
  unfolding NetworkAdapter_dec_def NetworkAdapter_json_def
  by (rule dec_struct_fill) (simp_all add: names_eval tree_defs dec_at_val)

lemma devices_read: "list_all f64_ok (concat (map device_floats ds)) \<Longrightarrow> d \<in> set ds \<Longrightarrow> list_all f64_ok (device_floats d)"
  by (simp add: list_all_iff)

lemma DiskInventory_reads [simp]:
  assumes "list_all f64_ok [di_TotalGB v, di_UsedGB v, di_FreeGB v]" and "list_all f64_ok (concat (map device_floats (di_Devices v)))"
  shows "DiskInventory_dec (DiskInventory_json v) old = (v, DOk)"
  unfolding DiskInventory_dec_def DiskInventory_json_def
  by (rule dec_struct_fill) (use assms(1) devices_read [OF assms(2)] in \<open>simp_all add: names_eval tree_defs dec_at_val\<close>)

lemma Hardware_reads:
  assumes "list_all f64_ok (hardware_floats h)"
  shows "Hardware_dec (Hardware_json h) old = (h, DOk)"
proof -
  have f: "list_all f64_ok [rm_TotalGB (hw_RAM h), rm_UsedGB (hw_RAM h), rm_AvailableGB (hw_RAM h), rm_UsagePercent (hw_RAM h)]"
    "list_all f64_ok [di_TotalGB (hw_Disk h), di_UsedGB (hw_Disk h), di_FreeGB (hw_Disk h)]"
    "list_all f64_ok (concat (map device_floats (di_Devices (hw_Disk h))))"
    "list_all f64_ok (concat (map device_floats (hw_Storage h)))"
    using assms unfolding hardware_floats_def by simp_all
  have r: "Memory_dec (Memory_json (hw_RAM h)) old = (hw_RAM h, DOk)"
    "DiskInventory_dec (DiskInventory_json (hw_Disk h)) old' = (hw_Disk h, DOk)"
    "d \<in> set (hw_Storage h) \<Longrightarrow> StorageDevice_dec (StorageDevice_json d) old'' = (d, DOk)" for old old' old'' d
    using f Memory_reads DiskInventory_reads StorageDevice_reads devices_read [OF f(4)] by blast+
  show ?thesis
    unfolding Hardware_dec_def Hardware_json_def
    by (rule dec_struct_fill) (simp_all add: names_eval tree_defs dec_at_val r)
qed

section \<open>Trees that can be written\<close>

lemma number_literal_FormatInt [simp]: "number_literal (FormatInt n)"
proof -
  have "int_part (FormatInt \<bar>n\<bar>)"
  proof (cases "n = 0")
    case True
    then show ?thesis by (simp add: FormatInt_def nat_digits.simps digit_char_def int_part_def is_digit_def)
  next
    case False
    then show ?thesis by (intro positive_digits) simp
  qed
  from number_parts [OF this, of "[]" "[]"] show ?thesis by (cases "n < 0") (simp_all add: FormatInt_def)
qed

lemma number_literal_float: "f64_ok v \<Longrightarrow> number_literal (case json_float v of Some t \<Rightarrow> t | None \<Rightarrow> [])"
  using json_float_reads_back [of v] by auto

lemma json_wf_jList: "json_wf d (jList f xs) \<longleftrightarrow> xs = [] \<or> d < maxNestingDepth \<and> (\<forall>x\<in>set xs. json_wf (Suc d) (f x))"
  by (auto simp: jList_def list_all_iff)

lemma json_wf_jSlice:
  "json_wf d (jSlice f xs) \<longleftrightarrow> (case xs of None \<Rightarrow> True | Some ys \<Rightarrow> d < maxNestingDepth \<and> (\<forall>x\<in>set ys. json_wf (Suc d) (f x)))"
  by (auto simp: jSlice_def list_all_iff split: option.split)

lemmas wf_eval = json_wf_jList json_wf_jSlice tree_defs number_literal_float

lemma section_wf [simp]:
  assumes "d < 9990"
  shows "json_wf d (General_json gn)" "json_wf d (OperatingSystem_json os)" "json_wf d (CPU_json cp)"
    "json_wf d (MemoryModule_json mm)" "json_wf d (Motherboard_json mb)" "json_wf d (BIOS_json bi)"
    "json_wf d (SecurityState_json ss)" "json_wf d (Monitor_json mo)" "json_wf d (GPU_json gp)" "json_wf d (Users_json us)"
    "json_wf d (HardwareChange_json hc)" "json_wf d (NetworkAdapter_json na)"
  using assms
  by (simp_all add: General_json_def OperatingSystem_json_def CPU_json_def MemoryModule_json_def Motherboard_json_def
      BIOS_json_def SecurityState_json_def Monitor_json_def GPU_json_def Users_json_def HardwareChange_json_def
      NetworkAdapter_json_def wf_eval maxNestingDepth_def split: option.split)

lemma Security_wf [simp]: "d < 9980 \<Longrightarrow> json_wf d (Security_json v)"
  by (simp add: Security_json_def maxNestingDepth_def)

lemma StorageDevice_wf [simp]: "d < 9990 \<Longrightarrow> list_all f64_ok (device_floats v) \<Longrightarrow> json_wf d (StorageDevice_json v)"
  by (simp add: StorageDevice_json_def device_floats_def wf_eval maxNestingDepth_def)

lemma Hardware_wf_at:
  assumes "list_all f64_ok (hardware_floats h)" and "d < 9970"
  shows "json_wf d (Hardware_json h)"
proof -
  have f: "list_all f64_ok [rm_TotalGB (hw_RAM h), rm_UsedGB (hw_RAM h), rm_AvailableGB (hw_RAM h), rm_UsagePercent (hw_RAM h)]"
    "list_all f64_ok [di_TotalGB (hw_Disk h), di_UsedGB (hw_Disk h), di_FreeGB (hw_Disk h)]"
    "list_all f64_ok (concat (map device_floats (di_Devices (hw_Disk h))))"
    "list_all f64_ok (concat (map device_floats (hw_Storage h)))"
    using assms(1) unfolding hardware_floats_def by simp_all
  have "json_wf (Suc d) (Memory_json (hw_RAM h))" "json_wf (Suc d) (DiskInventory_json (hw_Disk h))"
    using f(1,2) devices_read [OF f(3)] assms(2) by (simp_all add: Memory_json_def DiskInventory_json_def wf_eval maxNestingDepth_def)
  then show ?thesis
    using devices_read [OF f(4)] assms(2) by (simp add: Hardware_json_def wf_eval maxNestingDepth_def)
qed

lemma Hardware_wf: "list_all f64_ok (hardware_floats h) \<Longrightarrow> json_wf 0 (Hardware_json h)"
  by (rule Hardware_wf_at) simp_all

end
