(* ===== verification/InvHistory.thy ===== *)
theory InvHistory
  imports InvEngine InvRound
begin

text \<open>
  The memory of the inventory across passes: the snapshot and the timeline that one pass stores are what the next one
  reads, so that the changes a pass reports are those since the last upload and the timeline holds the last 50 uploads.
\<close>

section \<open>Text\<close>

text \<open>A tree whose strings are valid UTF-8, so that writing it changes nothing.\<close>

definition text_ok :: "json \<Rightarrow> bool" where
  "text_ok j \<longleftrightarrow> json_clean j = j"

lemma utf8_clean_ascii:
  assumes "is_ascii s"
  shows "utf8_clean s = s"
proof -
  have "concat (map EncodeRune (map byte_val s)) = s"
    using assms by (induction s) (simp_all add: is_ascii_def EncodeRune_ascii)
  then show ?thesis by (simp add: utf8_clean_def runes_ascii [OF assms])
qed

lemma map_same_iff: "map f xs = xs \<longleftrightarrow> list_all (\<lambda>x. f x = x) xs"
  by (induction xs) auto

lemma text_ok_simps [simp]:
  "text_ok (JObj ms) \<longleftrightarrow> list_all (\<lambda>m. utf8_clean (fst m) = fst m \<and> text_ok (snd m)) ms"
  "text_ok (JArr es) \<longleftrightarrow> list_all text_ok es"
  "text_ok (JStr s) \<longleftrightarrow> utf8_clean s = s" "text_ok (JNum t)" "text_ok JNull" "text_ok (JBool b)"
  by (simp_all add: text_ok_def [abs_def] map_same_iff prod_eq_iff)

lemma jSlice_text_ok: "text_ok (jSlice f xs) \<longleftrightarrow> (case xs of None \<Rightarrow> True | Some ys \<Rightarrow> list_all (\<lambda>x. text_ok (f x)) ys)"
  by (auto simp: jSlice_def list_all_iff split: option.split)

lemma hex_ascii: "is_ascii (hex_EncodeToString s)"
proof -
  have "list_all (\<lambda>n. byte_val (hex_digit n) < 0x80) [0..<16]"
    by (simp add: upt_rec hex_digit_def byte_val_def)
  then have h: "byte_val (hex_digit n) < 0x80" if "n < 16" for n using that by (simp add: list_all_iff)
  have "byte_val c div 16 < 16" "byte_val c mod 16 < 16" for c
    using byte_val_less [of c] by (simp_all add: div_less_iff_less_mult)
  with h show ?thesis by (induction s) (simp_all add: hex_EncodeToString_def is_ascii_def)
qed

lemma fingerprint_ascii: "inv_Fingerprint u h = Inr fp \<Longrightarrow> is_ascii fp"
  by (auto simp: inv_Fingerprint_def Let_def hex_ascii split: sum.splits)

text \<open>The names and texts of the reported changes are constants.\<close>

lemma change_text_ok: "c \<in> set (DiffHardware u p h) \<Longrightarrow> text_ok (HardwareChange_json c)"
proof -
  assume c: "c \<in> set (DiffHardware u p h)"
  let ?names = "map fst (sections undefined undefined)"
  have names: "map fst (sections l r) = ?names" for l r by (simp add: sections_def)
  have ascii: "list_all is_ascii (''hardware'' # ''initial'' # ''changed'' # ''Initial hardware snapshot''
      # ?names @ map change_detail ?names)"
    by (simp add: sections_def change_detail_def is_ascii_def byte_val_def)
  have "{hc_Section c, hc_Type c, hc_Detail c} \<subseteq> set (''hardware'' # ''initial'' # ''changed'' # ''Initial hardware snapshot''
      # ?names @ map change_detail ?names)"
  proof (cases p)
    case None
    with c show ?thesis by (simp add: DiffHardware_def)
  next
    case (Some q)
    with c obtain s where s: "s \<in> set (sections (normalizedHardware u q) (normalizedHardware u h))"
      "c = \<lparr>hc_Section = fst s, hc_Type = ''changed'', hc_Detail = change_detail (fst s)\<rparr>"
      by (auto simp: DiffHardware_def)
    then have "fst s \<in> set ?names" using names by (metis image_eqI list.set_map)
    then have "change_detail (fst s) \<in> set (map change_detail ?names)" by (metis image_eqI list.set_map)
    with s(2) \<open>fst s \<in> set ?names\<close> show ?thesis by (simp del: list.set_map)
  qed
  with ascii have "is_ascii (hc_Section c)" "is_ascii (hc_Type c)" "is_ascii (hc_Detail c)"
    unfolding list_all_iff by blast+
  moreover have "list_all is_ascii [''section'', ''type'', ''detail'']" by (simp add: is_ascii_def byte_val_def)
  ultimately show ?thesis by (simp add: HardwareChange_json_def jS_def utf8_clean_ascii)
qed

section \<open>The snapshot\<close>

lemma regular_finite: "regular v \<Longrightarrow> finite_float v \<Longrightarrow> f64_ok v"
  by (auto simp: regular_def finite_float_def split: f64.splits)

lemma regular_values [simp]: "regular (bytesToGB v)" "regular (usage_percent a b)" "regular zero_f"
  by (simp_all add: bytesToGB_def usage_percent_def) (simp add: zero_f_def regular_def f64_ok_def round_mag_0)

lemma hardware_ram_regular: "list_all regular (ram_floats (hw_RAM (hardware_of u q)))"
proof -
  have scaled: "list_all regular (ram_floats m) \<Longrightarrow> list_all regular (ram_floats (ram_scaled m))" for m
    by (simp add: ram_floats_def ram_scaled_def)
  have from_os: "list_all regular (ram_floats m) \<Longrightarrow> list_all regular (ram_floats (ram_from_os r m))" for r m
    by (simp add: ram_floats_def ram_from_os_def ram_scaled_def Let_def)
  define h where "h = with_board q (with_bios q (with_enclosure q (with_product q (with_system q zero_Hardware))))"
  have "list_all regular (ram_floats (hw_RAM h))"
    by (simp add: h_def with_system_def zero_Hardware_def zero_Memory_def ram_floats_def split: list.split)
  then have "list_all regular (ram_floats (hw_RAM (with_os q h)))"
    by (auto simp: with_os_def Let_def scaled from_os split: list.split)
  then show ?thesis by (simp add: hardware_of_def h_def [symmetric] with_memory_def ram_floats_def)
qed

lemma device_floats_regular [simp]:
  "list_all regular (device_floats (volume_device u v))" "list_all regular (device_floats (drive_device u s d))"
  by (simp_all add: device_floats_def volume_device_def drive_device_def zero_StorageDevice_def Let_def)

text \<open>Every float of a collected snapshot is a number of the format.\<close>

lemma hardware_floats_ok: "list_all f64_ok (hardware_floats (named host (hardware_of u q)))"
proof -
  have "list_all regular [di_TotalGB (hw_Disk (hardware_of u q)), di_UsedGB (hw_Disk (hardware_of u q)),
      di_FreeGB (hw_Disk (hardware_of u q))]"
    unfolding hardware_of_def by (simp add: disk_totals)
  moreover have "list_all regular (concat (map device_floats (di_Devices (hw_Disk (hardware_of u q)))))"
    "list_all regular (concat (map device_floats (hw_Storage (hardware_of u q))))"
    unfolding hardware_devices using device_floats_regular by (auto simp: list_all_iff)
  ultimately have "list_all regular (hardware_floats (hardware_of u q))"
    using hardware_ram_regular [of u q] by (simp add: hardware_floats_def ram_floats_def)
  then show ?thesis using hardware_floats_finite [of u q] regular_finite by (auto simp: list_all_iff)
qed

lemma f64_ok_finite: "f64_ok v \<Longrightarrow> finite_float v"
  by (auto simp: f64_ok_def finite_float_def split: f64.splits)

text \<open>What \<open>persistSnapshot\<close> stores decodes to the snapshot.\<close>

lemma stored_snapshot_reads:
  assumes "list_all f64_ok (hardware_floats h)" and "text_ok (Hardware_json h)"
  shows "decode_hardware (Inr (Some (json_print (Hardware_json h)))) = Some h"
proof -
  have "json_parse (json_print (Hardware_json h)) = Some (Hardware_json h)"
    using json_parse_print [OF Hardware_wf [OF assms(1)]] assms(2) by (simp add: text_ok_def)
  moreover have "json_print (Hardware_json h) \<noteq> []" by (simp add: Hardware_json_def)
  ultimately show ?thesis by (simp add: decode_hardware_def Unmarshal_def Hardware_reads [OF assms(1)])
qed

section \<open>The timeline\<close>

definition TL :: string where "TL = ''inventory_change_timeline''"

text \<open>An event that is stored and read back unchanged: its text is valid and its zone is a whole number of minutes.\<close>

definition event_ok :: "InventoryHistoryEvent \<Rightarrow> bool" where
  "event_ok e \<longleftrightarrow>
    (case InventoryHistoryEvent_json e of None \<Rightarrow> False | Some j \<Rightarrow> text_ok j \<and> snd (ie_Timestamp e) mod 60 = 0)"

lemma event_reads:
  assumes "InventoryHistoryEvent_json e = Some j" and "snd (ie_Timestamp e) mod 60 = 0"
  shows "InventoryHistoryEvent_dec j old = (e, DOk)" and "json_wf 1 j"
proof -
  obtain t where t: "time_text (ie_Timestamp e) = Some t" "j = JObj
      [jS ''timestamp'' t, jS ''fingerprint'' (ie_Fingerprint e), (''changes'', jSlice HardwareChange_json (ie_Changes e))]"
    using assms(1) by (auto simp: InventoryHistoryEvent_json_def split: option.splits)
  obtain ns off where ts: "ie_Timestamp e = (ns, off)" by (cases "ie_Timestamp e")
  then have "ParseZoned t = Some (ns, off)" using ParseZoned_time_text t(1) assms(2) by simp
  then have "dec_time (JStr t) x = (ie_Timestamp e, DOk)" for x by (simp add: dec_time_def ts)
  then show "InventoryHistoryEvent_dec j old = (e, DOk)"
    unfolding InventoryHistoryEvent_dec_def t(2)
    by (intro dec_struct_fill) (simp_all add: names_eval tree_defs dec_at_val)
  show "json_wf 1 j" by (simp add: t(2) wf_eval maxNestingDepth_def split: option.split)
qed

lemma timeline_reads:
  assumes "list_all event_ok evs"
  shows "\<exists>v. timeline_text evs = Some v \<and> stored_timeline (Inr (Some v)) = evs"
proof -
  define tree where "tree = the \<circ> InventoryHistoryEvent_json"
  have e: "InventoryHistoryEvent_json e = Some (tree e) \<and> text_ok (tree e) \<and> snd (ie_Timestamp e) mod 60 = 0"
    if "e \<in> set evs" for e
    using assms that by (auto simp: event_ok_def list_all_iff tree_def split: option.splits)
  then have "map InventoryHistoryEvent_json evs = map (Some \<circ> tree) evs" by simp
  then have "those (map InventoryHistoryEvent_json evs) = Some (map tree evs)" by (simp only:) (induction evs; simp)
  then have t: "timeline_text evs = Some (json_print (JArr (map tree evs)))" by (simp add: timeline_text_def)
  have "text_ok (JArr (map tree evs))" "json_wf 0 (JArr (map tree evs))"
    using e event_reads(2) by (auto simp: list_all_iff maxNestingDepth_def)
  then have "json_parse (json_print (JArr (map tree evs))) = Some (JArr (map tree evs))"
    using json_parse_print unfolding text_ok_def by metis
  moreover have "dec_elems z InventoryHistoryEvent_dec (map tree evs) [] = (evs, DOk)" for z
    using e event_reads(1) by (intro dec_elems_read) blast
  ultimately show ?thesis
    using t by (auto simp: stored_timeline_def Unmarshal_def timeline_dec_def dec_list_def)
qed

text \<open>
  The events a database has seen: it starts without a timeline; whatever leaves the timeline alone keeps them, and
  recording the changes of a snapshot with its fingerprint adds one.
\<close>

inductive timeline_of :: "world \<Rightarrow> InventoryHistoryEvent list \<Rightarrow> bool" where
  empty: "kv w TL = None \<Longrightarrow> timeline_of w []"
| keep: "timeline_of w evs \<Longrightarrow> kv v TL = kv w TL \<Longrightarrow> timeline_of v evs"
| add_event: "timeline_of w evs \<Longrightarrow> sql_ok w \<Longrightarrow> time_text (o_time (ev w) (n_time w), 0) \<noteq> None \<Longrightarrow>
    inv_Fingerprint u h = Inr fp \<Longrightarrow> cs = DiffHardware u p h \<Longrightarrow>
    timeline_of (snd (run_state (persistTimeline cs fp) w))
      (evs @ [\<lparr>ie_Timestamp = (o_time (ev w) (n_time w), 0), ie_Fingerprint = fp, ie_Changes = Some cs\<rparr>])"

lemma is_ascii_append: "is_ascii (a @ b) \<longleftrightarrow> is_ascii a \<and> is_ascii b"
  by (simp add: is_ascii_def)

lemma digits_ascii: "list_all is_digit ds \<Longrightarrow> is_ascii ds"
  by (induction ds) (auto simp: is_ascii_def is_digit_def byte_val_def)

lemma pad_ascii: "is_ascii (pad w n)"
  using nat_digits_inverse [of "nat \<bar>n\<bar>"] digits_ascii zeros_are_digits
  by (auto simp: pad_def Let_def is_ascii_append) (simp_all add: is_ascii_def byte_val_def)

lemma TrimRight_ascii: "is_ascii s \<Longrightarrow> is_ascii (TrimRight s c)"
  using TrimRight_zeros [of s c] is_ascii_append by metis

lemma time_text_ascii: "time_text t = Some v \<Longrightarrow> is_ascii v"
proof -
  have "is_ascii (c # s) \<longleftrightarrow> byte_val c < 0x80 \<and> is_ascii s" "is_ascii []" for c s by (simp_all add: is_ascii_def)
  then have "is_ascii (format_seconds secs)" "is_ascii (format_fraction n)" "is_ascii (format_zone off)" for secs n off
    by (simp_all add: format_seconds_def format_fraction_def format_zone_def Let_def is_ascii_append pad_ascii TrimRight_ascii
        byte_val_def split: prod.split)
  then show "time_text t = Some v \<Longrightarrow> ?thesis"
    by (auto simp: time_text_def FormatZonedNano_def is_ascii_append split: prod.splits if_splits)
qed

lemma new_event_ok:
  assumes "time_text (t, 0) \<noteq> None" and "inv_Fingerprint u h = Inr fp" and "cs = DiffHardware u p h"
  shows "event_ok \<lparr>ie_Timestamp = (t, 0), ie_Fingerprint = fp, ie_Changes = Some cs\<rparr>"
proof -
  obtain v where v: "time_text (t, 0) = Some v" using assms(1) by blast
  have "list_all is_ascii [''timestamp'', ''fingerprint'', ''changes'']" by (simp add: is_ascii_def byte_val_def)
  moreover have "is_ascii v" using v by (rule time_text_ascii)
  ultimately show ?thesis
    using v change_text_ok [of _ u p h] fingerprint_ascii [OF assms(2)]
    by (simp add: event_ok_def InventoryHistoryEvent_json_def jS_def jSlice_text_ok utf8_clean_ascii assms(3) list_all_iff)
qed

lemma next_timeline_drop:
  "next_timeline e (drop (length evs - 50) evs) = drop (length (evs @ [e]) - 50) (evs @ [e])"
proof (cases "50 \<le> length evs")
  case True
  then have "Suc (length evs - 50) = length evs - 49" by simp
  with True show ?thesis by (simp add: next_timeline_def Let_def)
next
  case False
  then show ?thesis by (simp add: next_timeline_def Let_def)
qed

lemma timeline_of_stored:
  "timeline_of w evs \<Longrightarrow> list_all event_ok evs \<and> stored_timeline (Inr (kv w TL)) = drop (length evs - 50) evs"
proof (induction rule: timeline_of.induct)
  case (empty w)
  then show ?case by (simp add: stored_timeline_def)
next
  case (keep w evs v)
  then show ?case by simp
next
  case (add_event w evs u h fp cs p)
  let ?e = "\<lparr>ie_Timestamp = (o_time (ev w) (n_time w), 0), ie_Fingerprint = fp, ie_Changes = Some cs\<rparr>"
  let ?new = "drop (length (evs @ [?e]) - 50) (evs @ [?e])"
  have ok: "list_all event_ok (evs @ [?e])" using add_event new_event_ok by simp
  then have "list_all event_ok ?new" by (auto simp: list_all_iff dest: in_set_dropD)
  then obtain v where v: "timeline_text ?new = Some v" "stored_timeline (Inr (Some v)) = ?new"
    using timeline_reads by blast
  have "kv (snd (run_state (persistTimeline cs fp) w)) TL = Some v"
    using persistTimeline_stored [OF add_event.hyps(2) refl, of cs fp] add_event.IH v(1) next_timeline_drop [of ?e evs]
    by (simp add: TL_def)
  with ok v(2) show ?case by simp
qed

section \<open>What a pass uploads and remembers\<close>

text \<open>The scores of an assessment are numbers of the format, wherever they are finite.\<close>

lemma regular_arith [simp]: "regular (f_add a b)" "regular (f_sub a b)" "regular (f_mul a b)" "regular (f_div a b)"
proof -
  have special: "regular NaN" "regular (Inf s)" for s by (simp_all add: regular_def)
  have zero: "regular (Fin s 0)" for s by (simp add: regular_def f64_ok_def round_mag_0)
  show add: "regular (f_add a b)" for a b by (cases "(a, b)" rule: f_add.cases) (simp_all add: special)
  then show "regular (f_sub a b)" by (simp add: f_sub_def)
  show "regular (f_mul a b)" by (cases "(a, b)" rule: f_mul.cases) (simp_all add: special)
  show "regular (f_div a b)" by (cases "(a, b)" rule: f_div.cases) (simp_all add: special zero)
qed

lemma regular_int:
  assumes "0 \<le> n" and "n \<le> 2 ^ 53"
  shows "regular (Fin s (of_int n))"
proof -
  have "(of_int n :: rat) \<le> of_int (2 ^ 53)" using assms(2) unfolding of_int_le_iff .
  then have "(of_int n :: rat) < 2 ^ 1024" by simp
  then show ?thesis using round_mag_int [OF assms] assms(1) by (simp add: regular_def f64_ok_def)
qed

lemma regular_scores [simp]: "regular f50" "regular f100" "regular (Fin s 70)" "regular (Fin s 40)" "regular (Fin s 10)"
  using regular_int [of 50] regular_int [of 100] regular_int [of 70] regular_int [of 40] regular_int [of 10]
  by (simp_all add: f50_def f100_def)

lemma health_regular: "list_all regular (health_floats (CalculateHealthV2 up cpu memory disk status latency security))"
  by (simp add: health_floats_def CalculateHealthV2_def Let_def usageScore_def heartbeatScore_def latencyScore_def
      securityScore_def)

lemma inv_payload_regular: "list_all regular (health_floats (ip_Health (fst (run_state (inv_payload e u hn h fp) w))))"
  by (simp add: inv_payload_def inv_health_def Let_def health_regular)

definition HW :: string where "HW = ''inventory_last_hardware''"

lemma persistSnapshot_hardware:
  assumes "sql_ok w" and "list_all finite_float (hardware_floats h)"
  shows "kv (snd (run_state (persistSnapshot h fp) w)) HW = Some (json_print (Hardware_json h))"
  using assms by (simp add: persistSnapshot_def Marshal_def kv_Put run_simps HW_def)

lemma later_persists_hardware:
  assumes "sql_ok w"
  shows "kv (snd (run_state (persistTimeline cs fp) w)) HW = kv w HW"
    and "kv (snd (run_state (inv_persistSuccess rep) w)) HW = kv w HW"
    and "kv (snd (run_state (inv_persistFailure err rep) w)) HW = kv w HW"
  using assms persistTimeline_kv [OF assms, of HW]
  by (simp_all add: HW_def inv_persistSuccess_def inv_persistFailure_kv kv_Put run_simps)

lemma inv_delivered_hardware:
  assumes "sql_ok w" and "list_all finite_float (hardware_floats h)"
  shows "kv (snd (run_state (inv_delivered st rep h cs) w)) HW = Some (json_print (Hardware_json h))"
  using assms persistSnapshot_hardware [OF _ assms(2)]
  by (simp add: inv_delivered_def Let_def later_persists_hardware)

lemma inv_undelivered_hardware:
  assumes "sql_ok w" and "list_all finite_float (hardware_floats h)" and "errors_Is err ErrQueued"
  shows "kv (snd (run_state (inv_undelivered rep h err) w)) HW = Some (json_print (Hardware_json h))"
  using assms persistSnapshot_hardware [OF _ assms(2)]
  by (simp add: inv_undelivered_def Let_def later_persists_hardware)

text \<open>The data a pass sent are acknowledged, or they are at the end of the queue.\<close>

definition handed_over :: "inv_engine \<Rightarrow> string \<Rightarrow> world \<Rightarrow> inv_Report \<Rightarrow> world \<Rightarrow> bool" where
  "handed_over e data w rep w' \<longleftrightarrow>
    (if ir_Result rep = ''QUEUED'' then \<exists>i. queued w' = queued w @ [(i, InventoryType, data)]
     else queued w' = queued w \<and> (\<exists>rs r token. wire w' = wire w @ rs @ [r]
       \<and> carries (ev w) (inv_Sync e) token InventoryEndpoint data r
       \<and> portal_ok (o_net (ev w) (length (wire w) + length rs) r)))"

lemma inv_send_effect:
  assumes "sql_ok w" and "rand_ok w" and "inv_marshal p = Inr data"
    and "run_state (inv_send e st cd p data) w = ((rep, err), w')" and "ir_Result rep \<in> {''SENT'', ''QUEUED''}"
  shows "kv w' HW = Some (json_print (Hardware_json (ip_Hardware p))) \<and> ir_Fingerprint rep = ip_Fingerprint p
    \<and> handed_over e data w rep w'"
proof -
  define w1 where "w1 = snd (run_state Time_Now w)"
  define s where "s = run_state (SendJSON (inv_Sync e) InventoryEndpoint InventoryType (Inr data)) w1"
  define w2 where "w2 = snd (run_state Time_Now (snd (run_state Time_Now (snd s))))"
  have w1: "ev w1 = ev w" "same_tables w1 w" "wire w1 = wire w" by (simp_all add: w1_def)
  define sent where "sent = snd (fst s)"
  have acc: "queued (snd s) = queued w @ (if is_queued sent then [(next_rowid (map q_id (queue_tab w)), InventoryType, data)] else [])"
    "sent = None \<longleftrightarrow> (\<exists>rs r token. wire (snd s) = wire w @ rs @ [r]
        \<and> carries (ev w) (inv_Sync e) token InventoryEndpoint data r \<and> portal_ok (o_net (ev w) (length (wire w) + length rs) r))"
    using send_report [of w1 "inv_Sync e" InventoryEndpoint InventoryType data True] assms(2) w1
    by (simp_all add: sent_def s_def SendJSON_def)
  have w2: "ev w2 = ev w" "queue_tab w2 = queue_tab (snd s)" "wire w2 = wire (snd s)" by (simp_all add: w2_def s_def w1)
  obtain d where "Marshal (hardware_floats (ip_Hardware p)) (Hardware_json (ip_Hardware p)) = Inr d"
    using inv_marshal_hardware [OF assms(3)] by blast
  then have fl: "list_all finite_float (hardware_floats (ip_Hardware p))" by (auto simp: Marshal_def split: if_splits)
  define r where "r = zero_inv_Report\<lparr>ir_CollectDuration := cd,
    ir_UploadDuration := fst (run_state Time_Now (snd s)) - fst (run_state Time_Now w),
    ir_Duration := fst (run_state Time_Now (snd (run_state Time_Now (snd s)))) - st,
    ir_PayloadSize := int (length data), ir_HardwareCount := HardwareCount (ip_Hardware p),
    ir_ChangedItems := ip_ChangedItems p, ir_Fingerprint := ip_Fingerprint p\<rparr>"
  have r: "ir_Fingerprint r = ip_Fingerprint p" by (simp add: r_def)
  have run: "run_state (inv_send e st cd p data) w = (case sent of
      Some err \<Rightarrow> run_state (inv_undelivered r (ip_Hardware p) err) w2
    | None \<Rightarrow> run_state (inv_delivered st r (ip_Hardware p) (ip_Changes p)) w2)"
    by (simp add: inv_send_def Let_def w1_def [symmetric] s_def [symmetric] sent_def [symmetric])
      (simp add: w2_def r_def w1_def split: option.split)
  show ?thesis
  proof (cases sent)
    case None
    then have eq: "run_state (inv_delivered st r (ip_Hardware p) (ip_Changes p)) w2 = ((rep, err), w')" using run assms(4) by simp
    then have "ir_Result rep = ''SENT''" "ir_Fingerprint rep = ip_Fingerprint p"
      using r by (auto simp: inv_delivered_def Let_def)
    moreover have "queue_tab w' = queue_tab w2" "wire w' = wire w2"
      using inv_delivered_frame [of st r "ip_Hardware p" "ip_Changes p" w2] unfolding eq by simp_all
    moreover have "kv w' HW = Some (json_print (Hardware_json (ip_Hardware p)))"
      using inv_delivered_hardware [OF _ fl, of w2 st r "ip_Changes p"] assms(1) w2 unfolding eq by simp
    ultimately show ?thesis using acc None w2 by (simp add: handed_over_def is_queued_def)
  next
    case (Some er)
    then have eq: "run_state (inv_undelivered r (ip_Hardware p) er) w2 = ((rep, err), w')" using run assms(4) by simp
    then have rep: "ir_Result rep = ''QUEUED''" "errors_Is er ErrQueued" "ir_Fingerprint rep = ip_Fingerprint p"
      using inv_undelivered_report [of r "ip_Hardware p" er w2] assms(5) r by (auto split: if_splits)
    moreover have "queue_tab w' = queue_tab w2"
      using inv_undelivered_frame [of r "ip_Hardware p" er w2] unfolding eq by simp
    moreover have "kv w' HW = Some (json_print (Hardware_json (ip_Hardware p)))"
      using inv_undelivered_hardware [OF _ fl rep(2), of w2 r] assms(1) w2 unfolding eq by simp
    ultimately show ?thesis using acc Some w2 by (simp add: handed_over_def is_queued_def)
  qed
qed

lemma inv_payload_changes:
  assumes "sql_ok w"
  shows "ip_Changes (fst (run_state (inv_payload e u hn h fp) w)) =
    DiffHardware (o_lower (ev w)) (decode_hardware (Inr (kv w HW))) h"
  using assms by (simp add: inv_payload_def Let_def run_simps HW_def)

text \<open>The payload an upload made, and what became of it.\<close>

definition uploaded :: "inv_engine \<Rightarrow> world \<Rightarrow> inv_Payload \<Rightarrow> inv_Report \<Rightarrow> world \<Rightarrow> bool" where
  "uploaded e w p rep w' \<longleftrightarrow>
    ip_Fingerprint p = ir_Fingerprint rep \<and> list_all regular (health_floats (ip_Health p))
    \<and> inv_Fingerprint (o_lower (ev w)) (ip_Hardware p) = Inr (ip_Fingerprint p)
    \<and> ip_Changes p = DiffHardware (o_lower (ev w)) (decode_hardware (Inr (kv w HW))) (ip_Hardware p)
    \<and> kv w' HW = Some (json_print (Hardware_json (ip_Hardware p)))
    \<and> (\<exists>data. inv_marshal p = Inr data \<and> handed_over e data w rep w')"

lemma uploaded_cong:
  assumes "ev v = ev w" "config_tab v = config_tab w" "queue_tab v = queue_tab w" "wire v = wire w"
  shows "uploaded e v p rep w' \<longleftrightarrow> uploaded e w p rep w'"
  unfolding uploaded_def handed_over_def assms kv_cong [OF assms(2)] ..

lemma inv_upload_effect:
  assumes "sql_ok w" and "rand_ok w" and "inv_Fingerprint (o_lower (ev w)) h = Inr fp"
    and "run_state (inv_upload e st cd u hn h fp) w = ((rep, err), w')" and "ir_Result rep \<in> {''SENT'', ''QUEUED''}"
  shows "\<exists>p. ip_Hardware p = h \<and> uploaded e w p rep w'"
proof -
  define p where "p = fst (run_state (inv_payload e u hn h fp) w)"
  define v where "v = snd (run_state (inv_payload e u hn h fp) w)"
  have v: "ev v = ev w" "same_tables v w" "wire v = wire w" by (simp_all add: v_def)
  have p: "ip_Hardware p = h" "ip_Fingerprint p = fp"
    "ip_Changes p = DiffHardware (o_lower (ev w)) (decode_hardware (Inr (kv w HW))) h"
    using assms(1) by (simp_all add: p_def inv_payload_fields inv_payload_changes)
  have reg: "list_all regular (health_floats (ip_Health p))" unfolding p_def by (rule inv_payload_regular)
  obtain data where data: "inv_marshal p = Inr data"
    using assms(4,5)
    by (cases "inv_marshal p") (auto simp: inv_upload_def p_def [symmetric] inv_failure_def Let_def)
  then have "run_state (inv_send e st cd p data) v = ((rep, err), w')"
    using assms(4) by (simp add: inv_upload_def p_def [symmetric] v_def [symmetric])
  from inv_send_effect [OF _ _ data this assms(5)] assms(1,2,3) v p data reg
  have "uploaded e v p rep w'" by (auto simp: uploaded_def)
  then show ?thesis using p(1) uploaded_cong [of v w] v by auto
qed

lemma inv_compare_effect:
  assumes "sql_ok w" and "rand_ok w" and "inv_Fingerprint (o_lower (ev w)) h = Inr fp"
    and "run_state (inv_compare e st cd u hn h fp) w = ((rep, err), w')" and "ir_Result rep \<in> {''SENT'', ''QUEUED''}"
  shows "\<exists>p. ip_Hardware p = h \<and> uploaded e w p rep w'"
proof -
  define v where "v = snd (run_state (Get ''inventory_last_fingerprint'') w)"
  have v: "ev v = ev w" "same_tables v w" "wire v = wire w" by (simp_all add: v_def)
  have "run_state (inv_upload e st cd u hn h fp) v = ((rep, err), w')"
    using assms(4,5) by (auto simp: inv_compare_def v_def [symmetric] Let_def split: if_splits)
  from inv_upload_effect [OF _ _ _ this assms(5)] assms(1-3) v uploaded_cong [of v w]
  show ?thesis by auto
qed

lemma inv_failure_failed: "run_state (inv_failure st er) w = ((rep, err), w') \<Longrightarrow> ir_Result rep = ''FAILED''"
  by (auto simp: inv_failure_def Let_def)

lemma inv_Collect_wmi:
  "fst (run_state inv_Collect w) = Inr h \<Longrightarrow> \<exists>k. h = hardware_of (o_lower (ev w)) (o_wmi (ev w) k)"
  by (auto simp: inv_Collect_def wmi_read_def split: option.splits)

text \<open>The steps of a pass that does not fail: what it read, its fingerprint, and what the comparison starts from.\<close>

lemma inv_collect_steps:
  assumes "run_state (inv_collect e st u) w = ((rep, err), w')" and "ir_Result rep \<noteq> ''FAILED''"
  shows "\<exists>host k fp cd v. o_hostname (ev w) = Inr host
    \<and> inv_Fingerprint (o_lower (ev w)) (named host (hardware_of (o_lower (ev w)) (o_wmi (ev w) k))) = Inr fp
    \<and> ev v = ev w \<and> same_tables v w \<and> wire v = wire w
    \<and> run_state (inv_compare e st cd u host (named host (hardware_of (o_lower (ev w)) (o_wmi (ev w) k))) fp) v
        = ((rep, err), w')"
proof -
  define w1 where "w1 = snd (run_state Time_Now w)"
  define w2 where "w2 = snd (run_state inv_Collect w1)"
  define w3 where "w3 = snd (run_state Time_Now w2)"
  have w: "ev w1 = ev w" "ev w2 = ev w" "ev w3 = ev w" "same_tables w3 w" "wire w3 = wire w"
    by (simp_all add: w3_def w2_def w1_def)
  obtain hn where hn: "o_hostname (ev w) = Inr hn"
  proof (cases "o_hostname (ev w)")
    case (Inl m)
    with assms(1) have "run_state (inv_failure st (Wrapf ''read hostname: '' (Errorf m) [])) w = ((rep, err), w')"
      by (simp add: inv_collect_def)
    with assms(2) show ?thesis by (simp add: inv_failure_failed)
  qed
  obtain found where found: "fst (run_state inv_Collect w1) = Inr found"
  proof (cases "fst (run_state inv_Collect w1)")
    case (Inl er)
    with assms(1) hn have "run_state (inv_failure st er) w2 = ((rep, err), w')"
      by (simp add: inv_collect_def w1_def [symmetric]) (simp add: w2_def)
    with assms(2) show ?thesis by (simp add: inv_failure_failed)
  qed
  define h where "h = named hn found"
  obtain fp where fp: "inv_Fingerprint (o_lower (ev w)) h = Inr fp"
  proof (cases "inv_Fingerprint (o_lower (ev w)) h")
    case (Inl er)
    with assms(1) hn found have "run_state (inv_failure st er) w3 = ((rep, err), w')"
      by (simp add: inv_collect_def w1_def [symmetric]) (simp add: w2_def [symmetric] h_def Let_def w3_def)
    with assms(2) show ?thesis by (simp add: inv_failure_failed)
  qed
  obtain cd where run: "run_state (inv_compare e st cd u hn h fp) w3 = ((rep, err), w')"
    using assms(1) fp by (simp add: inv_collect_def hn w1_def [symmetric] found)
      (simp add: w2_def [symmetric] h_def Let_def w3_def [symmetric])
  obtain k where "found = hardware_of (o_lower (ev w)) (o_wmi (ev w) k)" using inv_Collect_wmi [OF found] w by auto
  with hn fp run w show ?thesis unfolding h_def by blast
qed

lemma inv_RunOnce_steps:
  assumes "sql_ok w" and "run_state (inv_RunOnce e) w = ((rep, err), w')" and "ir_Result rep \<notin> {''FAILED'', []}"
  shows "\<exists>host k fp st cd u v. o_hostname (ev w) = Inr host
    \<and> inv_Fingerprint (o_lower (ev w)) (named host (hardware_of (o_lower (ev w)) (o_wmi (ev w) k))) = Inr fp
    \<and> ev v = ev w \<and> same_tables v (inv_flushed e w) \<and> wire v = wire (inv_flushed e w)
    \<and> run_state (inv_compare e st cd u host (named host (hardware_of (o_lower (ev w)) (o_wmi (ev w) k))) fp) v
        = ((rep, err), w')"
proof -
  define v where "v = snd (run_state (Get ''agent_uuid'') (inv_flushed e w))"
  define st where "st = fst (run_state Time_Now w)"
  have v: "ev v = ev w" "same_tables v (inv_flushed e w)" "wire v = wire (inv_flushed e w)" by (simp_all add: v_def)
  have uuid: "fst (run_state (Get ''agent_uuid'') (inv_flushed e w)) = Inr (kv w ''agent_uuid'')"
    using assms by (simp add: run_simps)
  have started: "fst (run_state ctx_Err (snd (run_state Time_Now w))) = None"
    using assms(2,3) by (cases "fst (run_state ctx_Err (snd (run_state Time_Now w)))")
      (auto simp: inv_RunOnce_def zero_inv_Report_def)
  then have run: "run_state (inv_RunOnce e) w = run_state (case kv w ''agent_uuid'' of
      None \<Rightarrow> inv_failure st ErrNotRegistered
    | Some u \<Rightarrow> if u = [] then inv_failure st ErrNotRegistered else inv_collect e st u) v"
    using uuid
    by (simp add: inv_RunOnce_def inv_flushed_def [symmetric] v_def [symmetric] st_def [symmetric] split: option.split)
  obtain u where "run_state (inv_collect e st u) v = ((rep, err), w')"
    using run assms(2,3) inv_failure_failed [of st ErrNotRegistered v rep err w']
    by (cases "kv w ''agent_uuid''") (auto split: if_splits)
  from inv_collect_steps [OF this] assms(3) v show ?thesis by fastforce
qed

lemma inv_RunOnce_effect:
  assumes "sql_ok w" and "rand_ok w"
    and "run_state (inv_RunOnce e) w = ((rep, err), w')" and "ir_Result rep \<in> {''SENT'', ''QUEUED''}"
  shows "\<exists>p host k. o_hostname (ev w) = Inr host
    \<and> ip_Hardware p = named host (hardware_of (o_lower (ev w)) (o_wmi (ev w) k)) \<and> uploaded e (inv_flushed e w) p rep w'"
proof -
  obtain host k fp st cd u v where s: "o_hostname (ev w) = Inr host"
    "inv_Fingerprint (o_lower (ev w)) (named host (hardware_of (o_lower (ev w)) (o_wmi (ev w) k))) = Inr fp"
    "ev v = ev w" "same_tables v (inv_flushed e w)" "wire v = wire (inv_flushed e w)"
    "run_state (inv_compare e st cd u host (named host (hardware_of (o_lower (ev w)) (o_wmi (ev w) k))) fp) v
        = ((rep, err), w')"
    using inv_RunOnce_steps [OF assms(1,3)] assms(4) by auto
  have "\<exists>p. ip_Hardware p = named host (hardware_of (o_lower (ev w)) (o_wmi (ev w) k)) \<and> uploaded e v p rep w'"
    using s assms(1,2) by (intro inv_compare_effect [OF _ _ _ s(6) assms(4)]) simp_all
  then show ?thesis using s uploaded_cong [of v "inv_flushed e w"] by auto
qed

text \<open>The reading \<open>k\<close> of a machine, as a pass reports it.\<close>

definition reading :: "world \<Rightarrow> nat \<Rightarrow> Hardware" where
  "reading w k = named (case o_hostname (ev w) of Inr host \<Rightarrow> host | Inl _ \<Rightarrow> [])
    (hardware_of (o_lower (ev w)) (o_wmi (ev w) k))"

lemma inv_RunOnce_reading:
  assumes "sql_ok w" and "rand_ok w"
    and "run_state (inv_RunOnce e) w = ((rep, err), w')" and "ir_Result rep \<in> {''SENT'', ''QUEUED''}"
  shows "\<exists>p k. ip_Hardware p = reading w k \<and> uploaded e (inv_flushed e w) p rep w'"
proof -
  obtain p host k where "o_hostname (ev w) = Inr host" "uploaded e (inv_flushed e w) p rep w'"
    "ip_Hardware p = named host (hardware_of (o_lower (ev w)) (o_wmi (ev w) k))"
    using inv_RunOnce_effect [OF assms] by blast
  then show ?thesis by (intro exI [of _ p] exI [of _ k]) (simp add: reading_def)
qed

text \<open>A snapshot does not differ from itself.\<close>

lemma no_difference:
  assumes "list_all f64_ok (hardware_floats h)"
  shows "DiffHardware u (Some h) h = []"
proof -
  have "f64_ok (rm_TotalGB (hw_RAM h))" using assms by (simp add: hardware_floats_def)
  then have "f_eq (rm_TotalGB (hw_RAM h)) (rm_TotalGB (hw_RAM h))" by (auto simp: f64_ok_def split: f64.splits)
  then show ?thesis
    by (simp add: DiffHardware_def sections_def ram_equal_def normalizedHardware_def Let_def quiet_ram_def)
qed

section \<open>A machine that reports nothing\<close>

lemma empty_machine_reads [simp]:
  "wq_systems wmi_none = []" "wq_products wmi_none = []" "wq_enclosures wmi_none = []" "wq_bios wmi_none = []"
  "wq_boards wmi_none = []" "wq_os wmi_none = []" "wq_processors wmi_none = []" "wq_memory wmi_none = []"
  "wq_logical wmi_none = []" "wq_drives wmi_none = []" "wq_adapters wmi_none = []" "wq_details wmi_none = []"
  "wq_monitors wmi_none = []" "wq_gpus wmi_none = []" "registryString wmi_none p n = []" "timezone wmi_none = ''UTC''"
  by (simp_all add: wmi_none_def registryString_def timezone_def)

lemma empty_machine_sections:
  "hw_General (hardware_of u wmi_none) = zero_General"
  "hw_OperatingSystem (hardware_of u wmi_none) = zero_OperatingSystem\<lparr>os_Timezone := ''UTC''\<rparr>"
  "hw_CPU (hardware_of u wmi_none) = zero_CPU" "rm_Modules (hw_RAM (hardware_of u wmi_none)) = []"
  "hw_Motherboard (hardware_of u wmi_none) = zero_Motherboard" "hw_BIOS (hardware_of u wmi_none) = zero_BIOS"
  "hw_Users (hardware_of u wmi_none) = zero_Users" "hw_SerialNumber (hardware_of u wmi_none) = []"
  "hw_Storage (hardware_of u wmi_none) = []" "hw_NIC (hardware_of u wmi_none) = []"
  "hw_Network (hardware_of u wmi_none) = []" "hw_Monitor (hardware_of u wmi_none) = []" "hw_GPU (hardware_of u wmi_none) = []"
  "hw_Security (hardware_of u wmi_none) = collectSecurity wmi_none"
  "di_Model (hw_Disk (hardware_of u wmi_none)) = []" "di_Type (hw_Disk (hardware_of u wmi_none)) = []"
  "di_SerialNumber (hw_Disk (hardware_of u wmi_none)) = []" "di_Health (hw_Disk (hardware_of u wmi_none)) = []"
  "di_SMARTStatus (hw_Disk (hardware_of u wmi_none)) = []" "di_Devices (hw_Disk (hardware_of u wmi_none)) = []"
  by (simp_all add: hardware_of_def with_users_def with_displays_def with_network_def with_drives_def with_volumes_def
      with_memory_def with_processors_def with_os_def with_board_def with_bios_def with_enclosure_def with_product_def
      with_system_def zero_Hardware_def zero_OperatingSystem_def zero_DiskInventory_def zero_Memory_def zero_Users_def
      ram_scaled_def zero_General_def Let_def)

lemma no_text [simp]: "utf8_clean [] = []"
  by (simp add: utf8_clean_ascii is_ascii_def)

lemma empty_machine_text: "text_ok (Hardware_json (named ''host'' (hardware_of u wmi_none)))"
proof -
  let ?h = "named ''host'' (hardware_of u wmi_none)"
  note ascii = utf8_clean_ascii is_ascii_def byte_val_def
  have sec: "text_ok (Security_json (collectSecurity wmi_none))"
    by (simp add: Security_json_def SecurityState_json_def tree_defs ascii collectSecurity_def wmi_none_def registryDWORD_def
        zero_SecurityState_def boolStatus_def)
  have "text_ok (General_json (hw_General ?h))" "text_ok (OperatingSystem_json (hw_OperatingSystem ?h))"
    "text_ok (CPU_json (hw_CPU ?h))" "text_ok (Memory_json (hw_RAM ?h))" "text_ok (DiskInventory_json (hw_Disk ?h))"
    "text_ok (Motherboard_json (hw_Motherboard ?h))" "text_ok (BIOS_json (hw_BIOS ?h))" "text_ok (Users_json (hw_Users ?h))"
    by (simp_all add: named_def empty_machine_sections General_json_def OperatingSystem_json_def CPU_json_def Memory_json_def
        DiskInventory_json_def Motherboard_json_def BIOS_json_def Users_json_def tree_defs ascii jList_def
        zero_General_def zero_OperatingSystem_def zero_CPU_def zero_Motherboard_def zero_BIOS_def zero_Users_def)
  moreover have "hw_Storage ?h = []" "hw_NIC ?h = []" "hw_Network ?h = []" "hw_Monitor ?h = []" "hw_GPU ?h = []"
    "hw_Security ?h = collectSecurity wmi_none" "hw_SerialNumber ?h = []"
    by (simp_all add: named_def empty_machine_sections)
  ultimately show ?thesis using sec by (simp add: Hardware_json_def tree_defs jList_def ascii)
qed

text \<open>The world after a first pass that queued, with the remembered fingerprint wiped.\<close>

definition forgetful :: "world \<Rightarrow> world" where
  "forgetful w = w\<lparr>config_tab := (config_tab w)(last_fp := None)\<rparr>"

lemma forgetful_facts [simp]:
  "ev (forgetful w) = ev w" "kv (forgetful w) HW = kv w HW" "kv (forgetful w) last_fp = None"
  "inv_ready e token w \<Longrightarrow> inv_ready e token (forgetful w)"
  by (auto simp: forgetful_def last_fp_def HW_def tab_value_def inv_ready_def ready_def env_holds_secret_def)

lemma queued_again:
  assumes "ev v = ev (world_inv (\<lambda>_ _. Inl ''down''))" and "inv_ready inv_engine1 ''tok'' v" and "kv v last_fp = None"
    and "run_state (inv_RunOnce inv_engine1) v = ((rep, err), v')"
  shows "ir_Result rep = ''QUEUED''"
proof -
  note facts = world_inv_facts [of "\<lambda>_ _. Inl ''down''"]
  have "sql_ok v" "rand_ok v" using facts(2,3) assms(1) by simp_all
  moreover have "settled v fp_inv (rep, err)" using world_inv_settled [OF assms(1,2)] assms(4) by simp
  ultimately show ?thesis
    using inv_RunOnce_outcome [of v inv_engine1] assms(1,3,4) facts(4)
    by (auto simp: settled_def portal_ok_def inv_outcome_def Let_def)
qed

section \<open>Properties\<close>

text \<open>
  The snapshot in the database is the one that was taken: whatever was read from the machine, if its text is
  valid UTF-8 then what \<open>json.Marshal\<close> writes of the snapshot is decoded by \<open>json.Unmarshal\<close> to the same snapshot, every
  byte count and every float included.
\<close>

theorem snapshot_roundtrip:
  assumes "text_ok (Hardware_json (named host (hardware_of u q)))"
  shows "\<exists>v. Marshal (hardware_floats (named host (hardware_of u q))) (Hardware_json (named host (hardware_of u q))) = Inr v
    \<and> Unmarshal Hardware_dec v zero_Hardware = (named host (hardware_of u q), True)"
proof -
  let ?h = "named host (hardware_of u q)"
  have ok: "list_all f64_ok (hardware_floats ?h)" by (rule hardware_floats_ok)
  then have "list_all finite_float (hardware_floats ?h)" using f64_ok_finite by (auto simp: list_all_iff)
  then have "Marshal (hardware_floats ?h) (Hardware_json ?h) = Inr (json_print (Hardware_json ?h))" by (simp add: Marshal_def)
  with stored_snapshot_reads [OF ok assms] show ?thesis
    by (auto simp: decode_hardware_def Let_def split: if_splits prod.splits)
qed

theorem snapshot_roundtrip_witness:
  "\<exists>v. Unmarshal Hardware_dec v zero_Hardware = (named ''host'' (hardware_of (\<lambda>r. r) wmi_none), True)"
  using snapshot_roundtrip [OF empty_machine_text] by blast

text \<open>
  C7. The changes a pass reports are those since the last upload. After a pass that sent or queued a snapshot, the
  next one that sends or queues, whatever ran in between, as long as the stored snapshot stayed, hands over
  a payload whose changes are the differences between the snapshot uploaded before and the one it carries.
\<close>

theorem changes_since_last_upload:
  assumes "sql_ok w" and "rand_ok w" and "run_state (inv_RunOnce e) w = ((rep, err), w')"
    and "ir_Result rep \<in> {''SENT'', ''QUEUED''}" and "\<And>k. text_ok (Hardware_json (reading w k))"
    and "sql_ok v" and "rand_ok v" and "kv v HW = kv w' HW"
    and "run_state (inv_RunOnce e) v = ((rep2, err2), v')" and "ir_Result rep2 \<in> {''SENT'', ''QUEUED''}"
  shows "\<exists>k j p data. inv_Fingerprint (o_lower (ev w)) (reading w k) = Inr (ir_Fingerprint rep)
    \<and> ip_Hardware p = reading v j \<and> ip_Fingerprint p = ir_Fingerprint rep2
    \<and> ip_Changes p = DiffHardware (o_lower (ev v)) (Some (reading w k)) (reading v j)
    \<and> inv_marshal p = Inr data \<and> handed_over e data (inv_flushed e v) rep2 v'"
proof -
  obtain p k where p: "ip_Hardware p = reading w k" "uploaded e (inv_flushed e w) p rep w'"
    using inv_RunOnce_reading [OF assms(1-4)] by blast
  obtain p2 j where p2: "ip_Hardware p2 = reading v j" "uploaded e (inv_flushed e v) p2 rep2 v'"
    using inv_RunOnce_reading [OF assms(6,7,9,10)] by blast
  have "decode_hardware (Inr (kv w' HW)) = Some (reading w k)"
    using p stored_snapshot_reads [OF hardware_floats_ok] assms(5) by (simp add: uploaded_def reading_def)
  then have "decode_hardware (Inr (kv (inv_flushed e v) HW)) = Some (reading w k)" using assms(8) by simp
  then show ?thesis
    using p p2 unfolding uploaded_def by (intro exI [of _ k] exI [of _ j] exI [of _ p2]) auto
qed

theorem changes_since_last_upload_witness:
  "\<exists>p data. inv_marshal p = Inr data \<and> ip_Changes p = []
    \<and> (\<exists>i v'. v' = snd (run_state (inv_RunOnce inv_engine1)
          (forgetful (snd (run_state (inv_RunOnce inv_engine1) (world_inv (\<lambda>_ _. Inl ''down''))))))
        \<and> (i, InventoryType, data) \<in> set (queued v'))"
proof -
  let ?w = "world_inv (\<lambda>_ _. Inl ''down'')"
  note facts = world_inv_facts [of "\<lambda>_ _. Inl ''down''"]
  obtain rep err w' where run: "run_state (inv_RunOnce inv_engine1) ?w = ((rep, err), w')" by (metis surj_pair)
  note q = queued_pass [OF run]
  let ?v = "forgetful w'"
  obtain rep2 err2 v' where run2: "run_state (inv_RunOnce inv_engine1) ?v = ((rep2, err2), v')" by (metis surj_pair)
  have q2: "ir_Result rep2 = ''QUEUED''" using q by (intro queued_again [OF _ _ _ run2]) simp_all
  have E: "o_lower (ev ?w) = (\<lambda>r. r)" "o_hostname (ev ?w) = Inr ''host''" "o_wmi (ev ?w) k = wmi_none" for k
    by (simp_all add: world_inv_def world_beat_def world1_def world0_def env0_def)
  then have r: "reading ?w k = named ''host'' (hardware_of (\<lambda>r. r) wmi_none)" "reading ?v k = reading ?w k" for k
    using q(3) by (simp_all add: reading_def)
  have "text_ok (Hardware_json (reading ?w k))" for k unfolding r(1) by (rule empty_machine_text)
  moreover have "sql_ok ?v" "rand_ok ?v" using facts(2,3) q(3) by simp_all
  ultimately obtain p data where "ip_Changes p = DiffHardware (\<lambda>r. r) (Some (reading ?w 0)) (reading ?w 0)"
    "inv_marshal p = Inr data" "handed_over inv_engine1 data (inv_flushed inv_engine1 ?v) rep2 v'"
    using changes_since_last_upload [OF facts(2,3) run _ _ _ _ _ run2] q q2 r E(1) by auto
  moreover have "DiffHardware u (Some (reading ?w 0)) (reading ?w 0) = []" for u
    unfolding reading_def by (rule no_difference [OF hardware_floats_ok])
  ultimately show ?thesis
    using run run2 q2 by (intro exI [of _ p] exI [of _ data]) (auto simp: handed_over_def)
qed

text \<open>
  C22. The timeline holds the last 50 uploads. However many snapshots were recorded, each with its fingerprint and
  its changes, and whatever else was stored in between, the stored timeline decodes to the newest 50 of their events, or
  to all of them if there are fewer, in the order in which they were recorded.
\<close>

theorem timeline_keeps_last_50:
  assumes "timeline_of w evs"
  shows "stored_timeline (Inr (kv w TL)) = drop (length evs - 50) evs"
  using timeline_of_stored [OF assms] by simp

theorem timeline_keeps_last_50_witness:
  "\<exists>w cs. stored_timeline (Inr (kv w TL)) = [\<lparr>ie_Timestamp = (0, 0), ie_Fingerprint = fp_inv, ie_Changes = Some cs\<rparr>]
    \<and> map hc_Type cs = [''initial'']"
proof -
  let ?w = "world_inv (\<lambda>_ _. Inl ''down'')"
  let ?h = "named ''host'' (hardware_of (\<lambda>r. r) wmi_none)"
  let ?cs = "DiffHardware (\<lambda>r. r) None ?h"
  obtain fp where fp: "inv_Fingerprint (\<lambda>r. r) ?h = Inr fp"
    using fingerprint_exists [of ?h "\<lambda>r. r"] hardware_floats_finite by auto
  then have fp_inv: "fp = fp_inv" by (simp add: fp_inv_def)
  have w: "kv ?w TL = None" "o_time (ev ?w) n = 0" for n
    by (simp_all add: world_inv_def world_beat_def tab_value_def TL_def)
  have "timeline_of (snd (run_state (persistTimeline ?cs fp) ?w))
      ([] @ [\<lparr>ie_Timestamp = (o_time (ev ?w) (n_time ?w), 0), ie_Fingerprint = fp, ie_Changes = Some ?cs\<rparr>])"
    using w(2) fp world_inv_facts(2) [of "\<lambda>_ _. Inl ''down''"]
    by (intro timeline_of.add_event [OF timeline_of.empty [OF w(1)]]) (auto simp: time_text_epoch)
  from timeline_keeps_last_50 [OF this] w(2) fp_inv
  have "stored_timeline (Inr (kv (snd (run_state (persistTimeline ?cs fp) ?w)) TL)) =
      [\<lparr>ie_Timestamp = (0, 0), ie_Fingerprint = fp_inv, ie_Changes = Some ?cs\<rparr>]" by simp
  moreover have "map hc_Type ?cs = [''initial'']" by (simp add: DiffHardware_def)
  ultimately show ?thesis
    by (intro exI [of _ "snd (run_state (persistTimeline ?cs fp) ?w)"] exI [of _ ?cs]) (rule conjI)
qed

end
