(* ===== verification/Unchanged.thy ===== *)
theory Unchanged
  imports SoftEngine InvHistory
begin

text \<open>
  What a skipped pass means. A pass of either inventory skips its upload when the SHA-256 of what it read is the one it
  remembers; here this is traced back to what was read: the normal forms, and the lists of applications, are the same, or the
  two texts that were hashed are a collision of SHA-256.
\<close>

section \<open>Equal fingerprints\<close>

definition collision :: "string \<Rightarrow> string \<Rightarrow> bool" where
  "collision x y \<longleftrightarrow> x \<noteq> y \<and> sha256_Sum256 x = sha256_Sum256 y"

lemma hex_digit_inj: "a < 16 \<Longrightarrow> b < 16 \<Longrightarrow> hex_digit a = hex_digit b \<Longrightarrow> a = b"
proof -
  have "distinct (map hex_digit [0..<16])" by (simp add: upt_rec hex_digit_def)
  then show "a < 16 \<Longrightarrow> b < 16 \<Longrightarrow> hex_digit a = hex_digit b \<Longrightarrow> a = b"
    by (simp add: distinct_map inj_on_def)
qed

lemma hex_inj: "hex_EncodeToString x = hex_EncodeToString y \<Longrightarrow> x = y"
proof (induction x arbitrary: y)
  case Nil
  then show ?case by (cases y) (simp_all add: hex_EncodeToString_def)
next
  case (Cons c x)
  then obtain d z where y: "y = d # z" by (cases y) (simp_all add: hex_EncodeToString_def)
  have less: "byte_val b div 16 < 16" "byte_val b mod 16 < 16" for b
    using byte_val_less [of b] by (simp_all add: div_less_iff_less_mult)
  have "byte_val c div 16 = byte_val d div 16" "byte_val c mod 16 = byte_val d mod 16" "hex_EncodeToString x = hex_EncodeToString z"
    using Cons.prems hex_digit_inj less by (auto simp: y hex_EncodeToString_def)
  then have "byte_val c = byte_val d" "x = z" using Cons.IH by (metis div_mult_mod_eq)+
  then show ?case by (simp add: y byte_val_def)
qed

lemma same_hash: "hex_EncodeToString (sha256_Sum256 x) = hex_EncodeToString (sha256_Sum256 y) \<Longrightarrow> x = y \<or> collision x y"
  using hex_inj by (auto simp: collision_def)

section \<open>The normal form of a snapshot\<close>

text \<open>Normalising keeps valid text valid, and the floats numbers of the format.\<close>

lemma set_sort_by [simp]: "set (sort_by key xs) = set xs"
  using mset_sort_by [of key xs] by (metis set_mset_mset)

lemma jList_text_ok: "text_ok (jList f xs) \<longleftrightarrow> (\<forall>x\<in>set xs. text_ok (f x))"
  by (auto simp: jList_def list_all_iff)

lemma quiet_text_ok:
  "text_ok (StorageDevice_json d) \<Longrightarrow> text_ok (StorageDevice_json (quiet_device d))"
  "text_ok (NetworkAdapter_json n) \<Longrightarrow> text_ok (NetworkAdapter_json (quiet_nic n))"
  by (simp_all add: StorageDevice_json_def NetworkAdapter_json_def quiet_device_def quiet_nic_def tree_defs jSlice_text_ok)

lemma quiet_parts_text_ok:
  "text_ok (Memory_json m) \<Longrightarrow> text_ok (Memory_json (quiet_ram u m))"
  "text_ok (DiskInventory_json d) \<Longrightarrow> text_ok (DiskInventory_json (quiet_disk u d))"
  "text_ok (OperatingSystem_json v) \<Longrightarrow> text_ok (OperatingSystem_json (v\<lparr>os_LastBootTime := []\<rparr>))"
  "text_ok (Users_json zero_Users)"
  by (simp_all add: Memory_json_def quiet_ram_def DiskInventory_json_def quiet_disk_def OperatingSystem_json_def Users_json_def
      zero_Users_def tree_defs jList_text_ok quiet_text_ok utf8_clean_ascii is_ascii_def byte_val_def)

lemma normalized_text_ok:
  assumes "text_ok (Hardware_json h)"
  shows "text_ok (Hardware_json (normalizedHardware u h))"
  using assms
  by (simp add: Hardware_json_def normalizedHardware_def Let_def tree_defs jList_text_ok quiet_parts_text_ok quiet_text_ok)

lemma f64_ok_zero [simp]: "f64_ok zero_f"
  by (simp add: zero_f_def f64_ok_def round_mag_0)

lemma quiet_device_floats: "device_floats (quiet_device d) = [zero_f, zero_f, zero_f]"
  by (simp add: device_floats_def quiet_device_def)

lemma normalized_floats_ok:
  assumes "list_all f64_ok (hardware_floats h)"
  shows "list_all f64_ok (hardware_floats (normalizedHardware u h))"
  using assms
  by (auto simp: hardware_floats_def normalizedHardware_def Let_def quiet_ram_def quiet_disk_def quiet_device_floats list_all_iff)

text \<open>Two snapshots with one fingerprint have one normal form, up to a collision of the two texts.\<close>

definition normal_text :: "(nat \<Rightarrow> nat) \<Rightarrow> Hardware \<Rightarrow> string" where
  "normal_text u h = json_print (Hardware_json (normalizedHardware u h))"

lemma fingerprint_of_text:
  assumes "list_all f64_ok (hardware_floats h)"
  shows "inv_Fingerprint u h = Inr (hex_EncodeToString (sha256_Sum256 (normal_text u h)))"
proof -
  have "list_all finite_float (hardware_floats (normalizedHardware u h))"
    using normalized_floats_ok [OF assms] f64_ok_finite by (auto simp: list_all_iff)
  then show ?thesis by (simp add: inv_Fingerprint_def Let_def Marshal_def normal_text_def)
qed

lemma normal_text_inj:
  assumes "list_all f64_ok (hardware_floats h)" and "text_ok (Hardware_json h)"
    and "list_all f64_ok (hardware_floats h')" and "text_ok (Hardware_json h')" and "normal_text u h = normal_text u' h'"
  shows "normalizedHardware u h = normalizedHardware u' h'"
proof -
  have "decode_hardware (Inr (Some (normal_text u h))) = Some (normalizedHardware u h)"
    "decode_hardware (Inr (Some (normal_text u' h'))) = Some (normalizedHardware u' h')"
    unfolding normal_text_def
    by (rule stored_snapshot_reads [OF normalized_floats_ok normalized_text_ok], rule assms, rule assms)+
  then show ?thesis using assms(5) by simp
qed

lemma same_fingerprint:
  assumes "list_all f64_ok (hardware_floats h)" and "text_ok (Hardware_json h)"
    and "list_all f64_ok (hardware_floats h')" and "text_ok (Hardware_json h')"
    and "inv_Fingerprint u h = Inr fp" and "inv_Fingerprint u' h' = Inr fp"
  shows "normalizedHardware u h = normalizedHardware u' h' \<or> collision (normal_text u h) (normal_text u' h')"
proof -
  have "hex_EncodeToString (sha256_Sum256 (normal_text u h)) = hex_EncodeToString (sha256_Sum256 (normal_text u' h'))"
    using assms(5,6) unfolding fingerprint_of_text [OF assms(1)] fingerprint_of_text [OF assms(3)] by simp
  from same_hash [OF this] show ?thesis using normal_text_inj [OF assms(1-4)] by blast
qed

lemma fingerprints_compared:
  assumes "list_all f64_ok (hardware_floats h)" and "text_ok (Hardware_json h)"
    and "list_all f64_ok (hardware_floats h')" and "text_ok (Hardware_json h')"
  shows "\<exists>a b. inv_Fingerprint u h = Inr a \<and> inv_Fingerprint u h' = Inr b
    \<and> (a = b \<longrightarrow> normalizedHardware u h = normalizedHardware u h' \<or> collision (normal_text u h) (normal_text u h'))
    \<and> (normalizedHardware u h = normalizedHardware u h' \<longrightarrow> a = b)"
proof -
  obtain a b where ab: "inv_Fingerprint u h = Inr a" "inv_Fingerprint u h' = Inr b"
    using fingerprint_of_text [OF assms(1)] fingerprint_of_text [OF assms(3)] by blast
  moreover have "normalizedHardware u h = normalizedHardware u h' \<Longrightarrow> a = b"
    using ab by (simp add: inv_Fingerprint_def Let_def)
  ultimately show ?thesis using same_fingerprint [OF assms] by blast
qed

section \<open>What the keys of the normal form do not tell apart\<close>

text \<open>
  Monitors are sorted by their name alone. Two different ones of the same name that Windows enumerates in the other order
  are the same machine, but they are reported as a change, and the fingerprint is another one.
\<close>

lemma swapped_monitors:
  assumes "list_all f64_ok (hardware_floats h)" and "text_ok (Hardware_json h)" and "rm_TotalGB (hw_RAM h) \<noteq> NaN"
    and "hw_Monitor h = [a, b]" and "mo_Name a = mo_Name b" and "a \<noteq> b" and "h' = h\<lparr>hw_Monitor := [b, a]\<rparr>"
  shows "same_machine h h' \<and> map hc_Section (DiffHardware u (Some h) h') = [''display'']
    \<and> (\<exists>x y. inv_Fingerprint u h = Inr x \<and> inv_Fingerprint u h' = Inr y
      \<and> (x \<noteq> y \<or> collision (normal_text u h) (normal_text u h')))"
proof -
  have ok: "list_all f64_ok (hardware_floats h')" "text_ok (Hardware_json h')"
    using assms(1,2) by (simp_all add: assms(4,7) hardware_floats_def Hardware_json_def tree_defs jList_def)
  have same: "same_machine h h'" by (simp add: same_machine_def same_items_def assms(4,7))
  have sorted: "sort_by mo_Name [a, b] = [a, b]" "sort_by mo_Name [b, a] = [b, a]"
    using assms(5) by (simp_all add: sort_by_def sort_Slice_def)
  have n: "normalizedHardware u h' = (normalizedHardware u h)\<lparr>hw_Monitor := [b, a]\<rparr>" "hw_Monitor (normalizedHardware u h) = [a, b]"
    by (simp_all add: normalizedHardware_def Let_def assms(4,7) sorted)
  have "rm_TotalGB (hw_RAM (normalizedHardware u h)) \<noteq> NaN"
    using assms(3) by (simp add: normalizedHardware_def quiet_ram_def Let_def)
  then have "map hc_Section (DiffHardware u (Some h) h') = [''display'']"
    using assms(6) n by (simp add: DiffHardware_def sections_def ram_equal_def f_eq_refl)
  moreover have "hw_Monitor (normalizedHardware u h') = [b, a]" by (simp add: n(1))
  then have "normalizedHardware u h \<noteq> normalizedHardware u h'" using n(2) assms(6) by (metis list.inject)
  ultimately show ?thesis using same fingerprints_compared [OF assms(1,2) ok, of u] by blast
qed

section \<open>The software report\<close>

text \<open>An item whose text is valid and whose date is in a zone of whole minutes; and what of it the report shows.\<close>

definition item_ok :: "Installation \<Rightarrow> bool" where
  "item_ok i \<longleftrightarrow> list_all (\<lambda>s. utf8_clean s = s) [in_Name i, in_DisplayName i, in_Version i, in_Publisher i, in_Architecture i,
      in_InstallLocation i, in_UninstallString i, in_QuietUninstallString i, in_RegistryKey i, in_Source i, in_Scope i, in_Evidence i]
    \<and> (case in_InstallDate i of None \<Rightarrow> True | Some t \<Rightarrow> snd t mod 60 = 0)"

definition shown :: "Installation \<Rightarrow> Installation" where
  "shown i = i\<lparr>in_FirstSeen := 0, in_LastSeen := 0\<rparr>"

definition text_at :: "(string \<times> json) list \<Rightarrow> string \<Rightarrow> string" where
  "text_at ms name = (case map_of ms name of Some (JStr s) \<Rightarrow> s | _ \<Rightarrow> [])"

lemma text_at_append [simp]:
  "text_at ((n, j) # ms) name = (if name = n then (case j of JStr s \<Rightarrow> s | _ \<Rightarrow> []) else text_at ms name)"
  "text_at (omitempty n v @ ms) name = (if name = n \<and> v \<noteq> [] then v else text_at ms name)"
  "text_at (omitempty n v) name = (if name = n then v else [])" "text_at [] name = []"
  by (simp_all add: text_at_def omitempty_def)

lemma map_of_omitempty [simp]: "map_of (omitempty n v) name = (if name = n \<and> v \<noteq> [] then Some (JStr v) else None)"
  by (simp add: omitempty_def)

lemma map_of_app: "map_of (xs @ ys) n = (case map_of xs n of None \<Rightarrow> map_of ys n | Some v \<Rightarrow> Some v)"
  by (simp add: map_add_def)

definition item_tree :: "Installation \<Rightarrow> (string \<times> json) list \<Rightarrow> (string \<times> json) list" where
  "item_tree i date =
    [(''name'', JStr (in_Name i)), (''displayName'', JStr (in_DisplayName i))]
    @ omitempty ''version'' (in_Version i) @ omitempty ''publisher'' (in_Publisher i)
    @ omitempty ''architecture'' (in_Architecture i) @ date @ omitempty ''installLocation'' (in_InstallLocation i)
    @ omitempty ''uninstallString'' (in_UninstallString i) @ omitempty ''quietUninstallString'' (in_QuietUninstallString i)
    @ omitempty ''registryKey'' (in_RegistryKey i) @ [(''source'', JStr (in_Source i))]
    @ omitempty ''scope'' (in_Scope i) @ omitempty ''evidence'' (in_Evidence i)"

definition item_date :: "Installation \<Rightarrow> (string \<times> json) list \<Rightarrow> bool" where
  "item_date i date \<longleftrightarrow> (case in_InstallDate i of
      None \<Rightarrow> date = [] | Some t \<Rightarrow> \<exists>v. time_text t = Some v \<and> date = [(''installDate'', JStr v)])"

lemma item_members:
  assumes "installation_json i = Some (JObj ms)"
  shows "\<exists>date. ms = item_tree i date
    \<and> item_date i date"
  using assms by (cases "in_InstallDate i") (auto simp: installation_json_def item_tree_def item_date_def Let_def)

lemma texts_of_item:
  assumes "installation_json i = Some (JObj ms)"
  shows "text_at ms ''name'' = in_Name i" "text_at ms ''displayName'' = in_DisplayName i" "text_at ms ''version'' = in_Version i"
    "text_at ms ''publisher'' = in_Publisher i" "text_at ms ''architecture'' = in_Architecture i"
    "text_at ms ''installLocation'' = in_InstallLocation i" "text_at ms ''uninstallString'' = in_UninstallString i"
    "text_at ms ''quietUninstallString'' = in_QuietUninstallString i" "text_at ms ''registryKey'' = in_RegistryKey i"
    "text_at ms ''source'' = in_Source i" "text_at ms ''scope'' = in_Scope i" "text_at ms ''evidence'' = in_Evidence i"
    and "map_of ms ''installDate'' = map_option (\<lambda>t. JStr (the (time_text t))) (in_InstallDate i)"
proof -
  obtain date where ms: "ms = item_tree i date"
    and date: "item_date i date"
    using item_members [OF assms] by blast
  have d: "text_at (date @ r) n = text_at r n" if "n \<noteq> ''installDate''" for r n
    using date that by (auto simp: item_date_def split: option.splits)
  have "map_of date ''installDate'' = map_option (\<lambda>t. JStr (the (time_text t))) (in_InstallDate i)"
    using date by (auto simp: item_date_def split: option.splits)
  then show "map_of ms ''installDate'' = map_option (\<lambda>t. JStr (the (time_text t))) (in_InstallDate i)"
    unfolding ms item_tree_def by (cases "in_InstallDate i") (simp_all add: map_of_app del: map_of_append)
  show "text_at ms ''name'' = in_Name i" "text_at ms ''displayName'' = in_DisplayName i" "text_at ms ''version'' = in_Version i"
    "text_at ms ''publisher'' = in_Publisher i" "text_at ms ''architecture'' = in_Architecture i"
    "text_at ms ''installLocation'' = in_InstallLocation i" "text_at ms ''uninstallString'' = in_UninstallString i"
    "text_at ms ''quietUninstallString'' = in_QuietUninstallString i" "text_at ms ''registryKey'' = in_RegistryKey i"
    "text_at ms ''source'' = in_Source i" "text_at ms ''scope'' = in_Scope i" "text_at ms ''evidence'' = in_Evidence i"
    unfolding ms item_tree_def by (simp_all add: d)
qed

lemma item_tree_inj:
  assumes "installation_json i = Some j" and "installation_json i' = Some j" and "item_ok i" and "item_ok i'"
  shows "shown i = shown i'"
proof -
  obtain ms where j: "j = JObj ms" using assms(1) by (auto simp: installation_json_def Let_def split: option.splits)
  note m = texts_of_item [OF assms(1) [unfolded j]] texts_of_item [OF assms(2) [unfolded j]]
  have date: "in_InstallDate x = Some t \<Longrightarrow> installation_json x = Some j \<Longrightarrow> item_ok x \<Longrightarrow>
      ParseZoned (the (time_text t)) = Some t" for x t
    using ParseZoned_time_text [of "fst t" "snd t"]
    by (auto simp: installation_json_def Let_def item_ok_def split: option.splits)
  have "in_InstallDate i = in_InstallDate i'"
    using m(13,26) date [OF _ assms(1,3)] date [OF _ assms(2,4)]
    by (cases "in_InstallDate i"; cases "in_InstallDate i'") (auto simp del: split_paired_All)
  with m show ?thesis by (simp add: shown_def)
qed

lemma all_some_Cons: "all_some (x # xs) = Some ts \<longleftrightarrow> (\<exists>t us. x = Some t \<and> all_some xs = Some us \<and> ts = t # us)"
  by (cases x) auto

lemma items_tree_inj:
  assumes "all_some (map installation_json xs) = Some ts" and "all_some (map installation_json ys) = Some ts"
    and "list_all item_ok xs" and "list_all item_ok ys"
  shows "map shown xs = map shown ys"
  using assms
proof (induction xs arbitrary: ys ts)
  case Nil
  then show ?case by (cases ys) (auto simp: all_some_Cons)
next
  case (Cons x xs)
  then obtain y zs where "ys = y # zs" by (cases ys) (auto simp: all_some_Cons)
  moreover from this obtain t us where "installation_json x = Some t" "installation_json y = Some t"
    "all_some (map installation_json xs) = Some us" "all_some (map installation_json zs) = Some us"
    using Cons.prems(1,2) by (auto simp: all_some_Cons)
  ultimately show ?case using Cons.IH [of us zs] item_tree_inj [of x t y] Cons.prems(3,4) by simp
qed

text \<open>What is fingerprinted reads back as the tree it was printed from.\<close>

definition report_text :: "sw_Payload \<Rightarrow> string" where
  "report_text p = (case all_some (map installation_json (sp_Items p)) of
      Some items \<Rightarrow> json_print (JObj [(''agentUuid'', JStr (sp_AgentUUID p)), (''items'', JArr items)])
    | None \<Rightarrow> [])"

lemma payloadFingerprint_text: "payloadFingerprint p = hex_EncodeToString (sha256_Sum256 (report_text p))"
  by (simp add: payloadFingerprint_def report_text_def)

lemma item_trees:
  assumes "all_some (map installation_json xs) = Some ts" and "list_all item_ok xs"
  shows "list_all (\<lambda>t. json_wf 2 t \<and> text_ok t) ts"
  using assms
proof (induction xs arbitrary: ts)
  case Nil
  then show ?case by simp
next
  case (Cons x xs)
  then obtain t us where x: "installation_json x = Some t" "all_some (map installation_json xs) = Some us" "ts = t # us"
    by (auto simp: all_some_Cons)
  obtain ms where t: "t = JObj ms" using x(1) by (auto simp: installation_json_def Let_def split: option.splits)
  obtain date where ms: "ms = item_tree x date"
    and date: "item_date x date"
    using item_members [OF x(1) [unfolded t]] by blast
  note ascii = utf8_clean_ascii is_ascii_def byte_val_def
  define ok where "ok m \<longleftrightarrow> utf8_clean (fst m) = fst m \<and> text_ok (snd m) \<and> json_wf 3 (snd m)" for m
  have plain: "list_all ok (omitempty n v)" if "utf8_clean n = n" "utf8_clean v = v" for n v
    using that by (simp add: ok_def omitempty_def)
  have "list_all ok date"
    using date time_text_ascii utf8_clean_ascii by (auto simp: item_date_def ok_def ascii split: option.splits)
  then have "list_all ok ms"
    using Cons.prems(2) unfolding ms item_tree_def list_all_append
    by (intro conjI plain) (simp_all add: item_ok_def ok_def ascii)
  then have "json_wf 2 t \<and> text_ok t" by (simp add: t ok_def list_all_iff maxNestingDepth_def)
  with Cons.IH [OF x(2)] Cons.prems(2) x(3) show ?case by simp
qed

lemma report_text_reads:
  assumes "sw_marshal p = Inr data" and "utf8_clean (sp_AgentUUID p) = sp_AgentUUID p" and "list_all item_ok (sp_Items p)"
  shows "\<exists>ts. all_some (map installation_json (sp_Items p)) = Some ts
    \<and> json_parse (report_text p) = Some (JObj [(''agentUuid'', JStr (sp_AgentUUID p)), (''items'', JArr ts)])"
proof -
  obtain ts where ts: "all_some (map installation_json (sp_Items p)) = Some ts"
    using assms(1) by (auto simp: sw_marshal_def split: option.splits)
  let ?j = "JObj [(''agentUuid'', JStr (sp_AgentUUID p)), (''items'', JArr ts)]"
  have two: "Suc (Suc 0) = 2" by simp
  have "json_wf 0 ?j" "text_ok ?j"
    using item_trees [OF ts assms(3)] assms(2)
    by (simp_all add: list_all_iff maxNestingDepth_def two utf8_clean_ascii is_ascii_def byte_val_def)
  then have "json_parse (json_print ?j) = Some ?j" using json_parse_print [of ?j] by (simp add: text_ok_def)
  then show ?thesis using ts by (simp add: report_text_def)
qed

lemma same_report:
  assumes "sw_marshal p = Inr data" and "utf8_clean (sp_AgentUUID p) = sp_AgentUUID p" and "list_all item_ok (sp_Items p)"
    and "sw_marshal q = Inr data'" and "utf8_clean (sp_AgentUUID q) = sp_AgentUUID q" and "list_all item_ok (sp_Items q)"
    and "payloadFingerprint p = payloadFingerprint q"
  shows "sp_AgentUUID p = sp_AgentUUID q \<and> map shown (sp_Items p) = map shown (sp_Items q)
    \<or> collision (report_text p) (report_text q)"
proof -
  have "report_text p = report_text q \<or> collision (report_text p) (report_text q)"
    using assms(7) unfolding payloadFingerprint_text by (rule same_hash)
  then show ?thesis
    using report_text_reads [OF assms(1-3)] report_text_reads [OF assms(4-6)] items_tree_inj [OF _ _ assms(3,6)] by auto
qed

section \<open>A pass that skips\<close>

lemma inv_send_skips: "run_state (inv_send e st cd p data) w = ((rep, err), w') \<Longrightarrow> ir_Result rep \<noteq> ''SKIPPED''"
  by (auto simp: inv_send_def Let_def inv_delivered_def inv_undelivered_def split: option.splits if_splits)

lemma inv_upload_skips: "run_state (inv_upload e st cd u hn h fp) w = ((rep, err), w') \<Longrightarrow> ir_Result rep \<noteq> ''SKIPPED''"
  by (auto simp: inv_upload_def inv_failure_def Let_def dest: inv_send_skips split: sum.splits)

lemma inv_compare_skips:
  assumes "run_state (inv_compare e st cd u hn h fp) w = ((rep, err), w')" and "ir_Result rep = ''SKIPPED''"
  shows "ir_Fingerprint rep = fp"
  using assms inv_upload_skips [of e st cd u hn h fp "snd (run_state (Get ''inventory_last_fingerprint'') w)" rep err w']
  by (auto simp: inv_compare_def Let_def split: if_splits)

lemma reading_fingerprint:
  assumes "sql_ok w" and "rand_ok w" and "run_state (inv_RunOnce e) w = ((rep, err), w')"
    and "ir_Result rep \<in> {''SENT'', ''QUEUED'', ''SKIPPED''}"
  shows "\<exists>k. inv_Fingerprint (o_lower (ev w)) (reading w k) = Inr (ir_Fingerprint rep)"
proof (cases "ir_Result rep = ''SKIPPED''")
  case True
  then obtain host k fp st cd u v where s: "o_hostname (ev w) = Inr host"
    "inv_Fingerprint (o_lower (ev w)) (named host (hardware_of (o_lower (ev w)) (o_wmi (ev w) k))) = Inr fp"
    "run_state (inv_compare e st cd u host (named host (hardware_of (o_lower (ev w)) (o_wmi (ev w) k))) fp) v
        = ((rep, err), w')"
    using inv_RunOnce_steps [OF assms(1,3)] by auto
  then show ?thesis using inv_compare_skips [OF s(3) True] by (auto simp: reading_def intro!: exI [of _ k])
next
  case False
  then obtain p k where "ip_Hardware p = reading w k" "uploaded e (inv_flushed e w) p rep w'"
    using inv_RunOnce_reading [OF assms(1-3)] assms(4) by blast
  then show ?thesis by (auto simp: uploaded_def intro!: exI [of _ k])
qed

text \<open>The same for the software, where a pass with a result has a payload.\<close>

definition report_ok :: "world \<Rightarrow> bool" where
  "report_ok w \<longleftrightarrow> (\<forall>u. kv w ''agent_uuid'' = Some u \<longrightarrow> utf8_clean u = u)
    \<and> (\<forall>items. sw_reading w items \<longrightarrow> list_all item_ok items)"

lemma sw_RunOnce_payload:
  assumes "sql_ok w" and "run_state (sw_RunOnce e) w = ((rep, err), w')" and "sr_Result rep \<noteq> ''FAILED''"
  shows "\<exists>p data. kv w ''agent_uuid'' = Some (sp_AgentUUID p) \<and> sw_reading w (sp_Items p) \<and> sw_marshal p = Inr data
    \<and> sr_Fingerprint rep = payloadFingerprint p"
  using sw_RunOnce_cases [OF assms(1), of e] assms(2,3) by (auto simp: sw_outcome_def sw_early_def Let_def)

lemma world2_reads:
  assumes "ev w = ev world2" and "sw_reading w items"
  shows "items = []"
  using assms world2_collects by (auto simp: sw_reading_def)

section \<open>Concrete machines\<close>

text \<open>An empty snapshot, and the same with a volume.\<close>

definition with_volume :: "StorageDevice list \<Rightarrow> Hardware" where
  "with_volume ds = zero_Hardware\<lparr>hw_Disk := zero_DiskInventory\<lparr>di_Devices := ds\<rparr>\<rparr>"

lemma with_volume_ok:
  assumes "ds \<in> {[], [drive_c]}"
  shows "text_ok (Hardware_json (with_volume ds))" and "list_all f64_ok (hardware_floats (with_volume ds))"
proof -
  note ascii = utf8_clean_ascii is_ascii_def byte_val_def
  have drive: "text_ok (StorageDevice_json drive_c)"
    by (simp add: StorageDevice_json_def drive_c_def zero_StorageDevice_def tree_defs ascii)
  have sec: "text_ok (Security_json zero_Security)"
    by (simp add: Security_json_def SecurityState_json_def tree_defs ascii zero_Security_def zero_SecurityState_def)
  have "text_ok (General_json zero_General)" "text_ok (OperatingSystem_json zero_OperatingSystem)"
    "text_ok (CPU_json zero_CPU)" "text_ok (Memory_json zero_Memory)" "text_ok (Motherboard_json zero_Motherboard)"
    "text_ok (BIOS_json zero_BIOS)" "text_ok (Users_json zero_Users)"
    "text_ok (DiskInventory_json (zero_DiskInventory\<lparr>di_Devices := ds\<rparr>))"
    using drive assms
    by (auto simp: General_json_def OperatingSystem_json_def CPU_json_def Memory_json_def DiskInventory_json_def
        Motherboard_json_def BIOS_json_def Users_json_def tree_defs ascii jList_def zero_General_def zero_OperatingSystem_def
        zero_CPU_def zero_Memory_def zero_DiskInventory_def zero_Motherboard_def zero_BIOS_def zero_Users_def)
  with sec show "text_ok (Hardware_json (with_volume ds))"
    by (simp add: with_volume_def Hardware_json_def zero_Hardware_def tree_defs jList_def ascii)
  show "list_all f64_ok (hardware_floats (with_volume ds))"
    using assms by (auto simp: with_volume_def hardware_floats_def device_floats_def zero_Hardware_def zero_Memory_def
        zero_DiskInventory_def drive_c_def zero_StorageDevice_def)
qed

section \<open>Properties\<close>

text \<open>
  C8. A skipped pass means an unchanged machine. After a pass that sent, queued or skipped, a later pass that skips,
  while the remembered fingerprint stayed, read hardware with the same normal form, so that no section of it
  differs from what was read before; or the two texts that were hashed are a collision of SHA-256.
\<close>

theorem skipped_means_unchanged:
  assumes "sql_ok w" and "rand_ok w" and "run_state (inv_RunOnce e) w = ((rep, err), w')"
    and "ir_Result rep \<in> {''SENT'', ''QUEUED'', ''SKIPPED''}" and "\<And>k. text_ok (Hardware_json (reading w k))"
    and "sql_ok v" and "rand_ok v" and "kv v last_fp = kv w' last_fp"
    and "run_state (inv_RunOnce e) v = ((rep2, err2), v')" and "ir_Result rep2 = ''SKIPPED''"
    and "\<And>k. text_ok (Hardware_json (reading v k))"
  shows "\<exists>k j. inv_Fingerprint (o_lower (ev w)) (reading w k) = Inr (ir_Fingerprint rep)
    \<and> inv_Fingerprint (o_lower (ev v)) (reading v j) = Inr (ir_Fingerprint rep2)
    \<and> (normalizedHardware (o_lower (ev w)) (reading w k) = normalizedHardware (o_lower (ev v)) (reading v j)
       \<or> collision (normal_text (o_lower (ev w)) (reading w k)) (normal_text (o_lower (ev v)) (reading v j)))"
proof -
  have "kv w' last_fp = Some (ir_Fingerprint rep)" "kv v last_fp = Some (ir_Fingerprint rep2)"
    using inv_RunOnce_outcome [OF assms(1,2), of e] inv_RunOnce_outcome [OF assms(6,7), of e] assms(4,10)
    unfolding assms(3,9) by (auto simp: inv_outcome_def Let_def last_fp_def split: if_splits)
  then have fp: "ir_Fingerprint rep2 = ir_Fingerprint rep" using assms(8) by simp
  obtain k j where "inv_Fingerprint (o_lower (ev w)) (reading w k) = Inr (ir_Fingerprint rep)"
    "inv_Fingerprint (o_lower (ev v)) (reading v j) = Inr (ir_Fingerprint rep)"
    using reading_fingerprint [OF assms(1-4)] reading_fingerprint [OF assms(6,7,9)] assms(10) fp by auto
  moreover have "list_all f64_ok (hardware_floats (reading x i))" for x i
    unfolding reading_def by (rule hardware_floats_ok)
  ultimately show ?thesis
    using same_fingerprint [OF _ assms(5) _ assms(11)] fp by metis
qed

theorem skipped_means_unchanged_witness:
  "\<exists>rep err w' rep2 err2 v' k j. run_state (inv_RunOnce inv_engine1) (world_inv (\<lambda>_ _. Inl ''down'')) = ((rep, err), w')
    \<and> run_state (inv_RunOnce inv_engine1) w' = ((rep2, err2), v') \<and> ir_Result rep2 = ''SKIPPED''
    \<and> (normalizedHardware (\<lambda>r. r) (reading (world_inv (\<lambda>_ _. Inl ''down'')) k) = normalizedHardware (\<lambda>r. r) (reading w' j)
       \<or> collision (normal_text (\<lambda>r. r) (reading (world_inv (\<lambda>_ _. Inl ''down'')) k)) (normal_text (\<lambda>r. r) (reading w' j)))"
proof -
  let ?w = "world_inv (\<lambda>_ _. Inl ''down'')"
  note facts = world_inv_facts [of "\<lambda>_ _. Inl ''down''"]
  obtain rep err w' where run: "run_state (inv_RunOnce inv_engine1) ?w = ((rep, err), w')" by (metis surj_pair)
  obtain rep2 err2 v' where run2: "run_state (inv_RunOnce inv_engine1) w' = ((rep2, err2), v')" by (metis surj_pair)
  note q = queued_pass [OF run]
  have ok: "sql_ok w'" "rand_ok w'" using q(3) facts(2,3) by simp_all
  have rep2: "ir_Fingerprint rep2 = fp_inv" "ir_Result rep2 \<in> {''SENT'', ''QUEUED'', ''SKIPPED''}"
    using world_inv_settled [OF q(3,4)] run2 by (auto simp: settled_def)
  have "kv w' last_fp = Some fp_inv"
    using inv_RunOnce_outcome [OF facts(2,3), of inv_engine1] q(1,2) unfolding run
    by (auto simp: inv_outcome_def Let_def)
  then have skipped: "ir_Result rep2 = ''SKIPPED''"
    using inv_RunOnce_outcome [OF ok, of inv_engine1] rep2 unfolding run2
    by (auto simp: inv_outcome_def Let_def)
  have E: "o_lower (ev ?w) = (\<lambda>r. r)" "o_hostname (ev ?w) = Inr ''host''" "o_wmi (ev ?w) k = wmi_none" for k
    by (simp_all add: world_inv_def world_beat_def world1_def world0_def env0_def)
  then have "text_ok (Hardware_json (reading ?w k))" "text_ok (Hardware_json (reading w' k))" for k
    using empty_machine_text q(3) by (simp_all add: reading_def)
  then show ?thesis
    using skipped_means_unchanged [OF facts(2,3) run _ _ ok refl run2 skipped] q(1,3) run run2 skipped E(1) by auto
qed

text \<open>
  C19. A skipped software report means the same software: when a later pass skips while the remembered fingerprint stayed,
  the agent and every item it read, in every field a report shows, its date included, are those of the pass before; or the two
  texts that were hashed are a collision of SHA-256.
\<close>

theorem sw_skipped_means_unchanged:
  assumes "sql_ok w" and "run_state (sw_RunOnce e) w = ((rep, err), w')"
    and "sr_Result rep \<in> {''SENT'', ''QUEUED'', ''SKIPPED''}" and "report_ok w"
    and "sql_ok v" and "kv v ''software_last_fingerprint'' = kv w' ''software_last_fingerprint''"
    and "run_state (sw_RunOnce e) v = ((rep2, err2), v')" and "sr_Result rep2 = ''SKIPPED''" and "report_ok v"
  shows "\<exists>p q. kv w ''agent_uuid'' = Some (sp_AgentUUID p) \<and> sw_reading w (sp_Items p) \<and> payloadFingerprint p = sr_Fingerprint rep
    \<and> kv v ''agent_uuid'' = Some (sp_AgentUUID q) \<and> sw_reading v (sp_Items q) \<and> payloadFingerprint q = sr_Fingerprint rep2
    \<and> (sp_AgentUUID p = sp_AgentUUID q \<and> map shown (sp_Items p) = map shown (sp_Items q)
       \<or> collision (report_text p) (report_text q))"
proof -
  have "kv w' ''software_last_fingerprint'' = Some (sr_Fingerprint rep)" "kv v ''software_last_fingerprint'' = Some (sr_Fingerprint rep2)"
    using sw_RunOnce_cases [OF assms(1), of e] sw_RunOnce_cases [OF assms(5), of e] assms(3,8) unfolding assms(2,7)
    by (auto simp: sw_outcome_def sw_early_def Let_def split: if_splits)
  then have fp: "sr_Fingerprint rep2 = sr_Fingerprint rep" using assms(6) by simp
  obtain p data where p: "kv w ''agent_uuid'' = Some (sp_AgentUUID p)" "sw_reading w (sp_Items p)" "sw_marshal p = Inr data"
    "sr_Fingerprint rep = payloadFingerprint p"
    using sw_RunOnce_payload [OF assms(1,2)] assms(3) by auto
  obtain q data2 where q: "kv v ''agent_uuid'' = Some (sp_AgentUUID q)" "sw_reading v (sp_Items q)" "sw_marshal q = Inr data2"
    "sr_Fingerprint rep2 = payloadFingerprint q"
    using sw_RunOnce_payload [OF assms(5,7)] assms(8) by auto
  show ?thesis
    using same_report [OF p(3) _ _ q(3), of] p q fp assms(4,9) unfolding report_ok_def
    by (intro exI [of _ p] exI [of _ q]) auto
qed

theorem sw_skipped_means_unchanged_witness:
  "\<exists>rep err w' rep2 err2 v'. run_state (sw_RunOnce engine1) world2 = ((rep, err), w')
    \<and> run_state (sw_RunOnce engine1) w' = ((rep2, err2), v') \<and> sr_Result rep2 = ''SKIPPED''
    \<and> (\<exists>p q. sw_reading w' (sp_Items q) \<and> payloadFingerprint q = sr_Fingerprint rep2
        \<and> (map shown (sp_Items p) = map shown (sp_Items q) \<or> collision (report_text p) (report_text q)))"
proof -
  obtain rep err w' where run: "run_state (sw_RunOnce engine1) world2 = ((rep, err), w')" by (metis surj_pair)
  obtain rep2 err2 v' where run2: "run_state (sw_RunOnce engine1) w' = ((rep2, err2), v')" by (metis surj_pair)
  have first: "sr_Result rep = ''SKIPPED''" "config_tab w' = config_tab world2" "ev w' = ev world2"
    using world2_skips [of world2 engine1] sw_RunOnce_frame [of engine1 world2] run by simp_all
  then have second: "sr_Result rep2 = ''SKIPPED''" using world2_skips(1) [of w' engine1] run2 by simp
  have "kv x ''agent_uuid'' = Some ''u''" if "config_tab x = config_tab world2" for x
    using that by (simp add: world2_def tab_value_def)
  moreover have "sw_reading x items \<Longrightarrow> list_all item_ok items" if "ev x = ev world2" for x items
    using world2_reads [OF that, of items] by simp
  ultimately have ok: "report_ok world2" "report_ok w'"
    using first(2,3) by (auto simp: report_ok_def utf8_clean_ascii is_ascii_def byte_val_def)
  moreover have "sql_ok world2" "sql_ok w'" using first(3) by (simp_all add: world2_def env_sql_ok_def env0_def)
  ultimately show ?thesis
    using sw_skipped_means_unchanged [OF _ run _ _ _ refl run2 second] first(1) run run2 second by blast
qed

text \<open>
  C39. The change report leaves out the logical volumes, which the fingerprint covers. Two snapshots that differ in nothing but
  the disk section, whatever the difference (a new volume, one that is gone, another size), are compared without any
  change being reported; but their fingerprints are equal only if the normal forms of the section are, free space and order
  left out, or if the two texts that were hashed are a collision of SHA-256. So the snapshot is uploaded, with no
  changes. The text of both snapshots is valid UTF-8, and their floats are numbers.
\<close>

theorem diff_misses_volumes:
  assumes "list_all f64_ok (hardware_floats h)" and "text_ok (Hardware_json h)"
    and "h' = h\<lparr>hw_Disk := d\<rparr>" and "list_all f64_ok (hardware_floats h')" and "text_ok (Hardware_json h')"
  shows "DiffHardware u (Some h) h' = []
    \<and> (\<exists>a b. inv_Fingerprint u h = Inr a \<and> inv_Fingerprint u h' = Inr b
      \<and> (if quiet_disk u d = quiet_disk u (hw_Disk h) then a = b
         else a \<noteq> b \<or> collision (normal_text u h) (normal_text u h')))"
proof
  have "rm_TotalGB (hw_RAM h) \<noteq> NaN" using assms(1) by (auto simp: hardware_floats_def f64_ok_def)
  then show "DiffHardware u (Some h) h' = []" unfolding assms(3) by (rule DiffHardware_disk)
  have "normalizedHardware u h' = (normalizedHardware u h)\<lparr>hw_Disk := quiet_disk u d\<rparr>"
    "hw_Disk (normalizedHardware u h) = quiet_disk u (hw_Disk h)"
    by (simp_all add: assms(3) normalizedHardware_def Let_def)
  then have "hw_Disk (normalizedHardware u h') = quiet_disk u d" "hw_Disk (normalizedHardware u h) = quiet_disk u (hw_Disk h)"
    "quiet_disk u d = quiet_disk u (hw_Disk h) \<Longrightarrow> normalizedHardware u h' = normalizedHardware u h" by simp_all
  then have "normalizedHardware u h = normalizedHardware u h' \<longleftrightarrow> quiet_disk u d = quiet_disk u (hw_Disk h)" by metis
  then show "\<exists>a b. inv_Fingerprint u h = Inr a \<and> inv_Fingerprint u h' = Inr b
      \<and> (if quiet_disk u d = quiet_disk u (hw_Disk h) then a = b
         else a \<noteq> b \<or> collision (normal_text u h) (normal_text u h'))"
    using fingerprints_compared [OF assms(1,2,4,5), of u] by (metis (no_types, lifting))
qed

theorem diff_misses_volumes_witness:
  "DiffHardware (\<lambda>r. r) (Some (with_volume [])) (with_volume [drive_c]) = []
    \<and> ((\<exists>a b. inv_Fingerprint (\<lambda>r. r) (with_volume []) = Inr a \<and> inv_Fingerprint (\<lambda>r. r) (with_volume [drive_c]) = Inr b \<and> a \<noteq> b)
       \<or> collision (normal_text (\<lambda>r. r) (with_volume [])) (normal_text (\<lambda>r. r) (with_volume [drive_c])))"
proof -
  let ?d = "zero_DiskInventory\<lparr>di_Devices := [drive_c]\<rparr>"
  have vol: "with_volume [drive_c] = (with_volume [])\<lparr>hw_Disk := ?d\<rparr>" by (simp add: with_volume_def)
  have "length (di_Devices (quiet_disk u ?d)) = 1" "length (di_Devices (quiet_disk u (hw_Disk (with_volume [])))) = 0" for u
    by (simp_all add: quiet_disk_def with_volume_def sort_by_def sort_Slice_def)
  then have "quiet_disk u ?d \<noteq> quiet_disk u (hw_Disk (with_volume []))" for u by (metis zero_neq_one)
  then show ?thesis
    using diff_misses_volumes [OF with_volume_ok(2,1) vol with_volume_ok(2,1), of "\<lambda>r. r"] by auto
qed

end
