(* ===== verification/Config.thy ===== *)
theory Config
  imports World
begin

text \<open>
  Package \<open>internal/config\<close>: the bootstrap configuration in a YAML file. The record \<open>config\<close> is declared in
  \<open>World\<close>, where the codec of the YAML library is part of the environment. Directories are outside the
  world: creating one only succeeds or fails.
\<close>

definition Default :: config where
  "Default = \<lparr>PortalURL = ''https://portal.example.com'', EnrollmentKey = [], TLSValidation = True, Proxy = [],
    LogLevel = ''info''\<rparr>"

fun make_directories :: "string list \<Rightarrow> error option go" where
  "make_directories [] = State_Monad.return None"
| "make_directories (name # names) = do {
    f \<leftarrow> fs_step;
    case f of
      Some m \<Rightarrow> State_Monad.return (Some (Wrapf (''create '' @ name @ '' directory: '') (Errorf m) []))
    | None \<Rightarrow> make_directories names
  }"

definition EnsureDirectories :: "error option go" where
  "EnsureDirectories = make_directories [[], ''logs'', ''cache'', ''downloads'', ''queue'']"

definition Save :: "config \<Rightarrow> error option go" where
  "Save cfg = do {
    E \<leftarrow> getw ev;
    case o_yaml_marshal E cfg of
      Inl m \<Rightarrow> State_Monad.return (Some (Wrapf ''serialize configuration: '' (Errorf m) []))
    | Inr d \<Rightarrow> do {
        f \<leftarrow> WriteFile d;
        State_Monad.return (map_option (\<lambda>m. Wrapf ''write configuration: '' (Errorf m) []) f)
      }
  }"

text \<open>The configuration comes back together with an error only where \<open>Save\<close> of the default failed.\<close>

definition zero_config :: config where
  "zero_config = \<lparr>PortalURL = [], EnrollmentKey = [], TLSValidation = False, Proxy = [], LogLevel = []\<rparr>"

definition LoadOrCreate :: "(config \<times> error option) go" where
  "LoadOrCreate = do {
    d \<leftarrow> EnsureDirectories;
    case d of
      Some err \<Rightarrow> State_Monad.return (zero_config, Some err)
    | None \<Rightarrow> do {
        r \<leftarrow> ReadFile;
        case r of
          Inl None \<Rightarrow> do { s \<leftarrow> Save Default; State_Monad.return (Default, s) }
        | Inl (Some m) \<Rightarrow> State_Monad.return (zero_config, Some (Wrapf ''read configuration: '' (Errorf m) []))
        | Inr data \<Rightarrow> do {
            E \<leftarrow> getw ev;
            case o_yaml_unmarshal E data of
              Inl m \<Rightarrow> State_Monad.return (zero_config, Some (Wrapf ''parse configuration: '' (Errorf m) []))
            | Inr cfg \<Rightarrow>
              State_Monad.return (if LogLevel cfg = [] then cfg\<lparr>LogLevel := LogLevel Default\<rparr> else cfg, None)
          }
      }
  }"

section \<open>Frames\<close>

text \<open>Everything but the configuration file.\<close>

abbreviation only_file :: "world \<Rightarrow> world \<Rightarrow> bool" where
  "only_file v w \<equiv> ev v = ev w \<and> config_tab v = config_tab w \<and> queue_tab v = queue_tab w
    \<and> history_tab v = history_tab w \<and> same_logs v w"

lemma make_directories_frame [simp]: "only_counters (snd (run_state (make_directories ns) w)) w"
  by (induction ns arbitrary: w) (simp_all split: option.split)

lemma EnsureDirectories_frame [simp]: "only_counters (snd (run_state EnsureDirectories w)) w"
  unfolding EnsureDirectories_def using make_directories_frame by metis

lemma Save_frame [simp]: "only_file (snd (run_state (Save cfg) w)) w"
  by (simp add: Save_def split: sum.split)

lemma LoadOrCreate_frame [simp]: "only_file (snd (run_state LoadOrCreate w)) w"
  by (simp add: LoadOrCreate_def split: sum.split option.split)

section \<open>Reading back\<close>

lemma EnsureDirectories_ok [run_simps]:
  assumes "fs_ok w"
  shows "fst (run_state EnsureDirectories w) = None"
proof -
  have "fst (run_state (make_directories ns) v) = None" if "fs_ok v" for ns v
    using that by (induction ns arbitrary: v) (simp_all add: run_simps)
  with assms show ?thesis unfolding EnsureDirectories_def by metis
qed

lemma Save_ok:
  assumes "fs_ok w" and "o_yaml_marshal (ev w) cfg = Inr d"
  shows "fst (run_state (Save cfg) w) = None" and "config_file (snd (run_state (Save cfg) w)) = Some d"
  using assms by (simp_all add: Save_def WriteFile_def run_simps)

lemma LoadOrCreate_file:
  assumes "fs_ok w" and "config_file w = Some d" and "o_yaml_unmarshal (ev w) d = Inr cfg"
  shows "fst (run_state LoadOrCreate w) = (if LogLevel cfg = [] then cfg\<lparr>LogLevel := ''info''\<rparr> else cfg, None)"
  using assms by (simp add: LoadOrCreate_def ReadFile_def run_simps Default_def)

section \<open>Properties\<close>

text \<open>
  What \<open>Save\<close> writes \<open>LoadOrCreate\<close> reads: with a working file system and a codec that reads back what it
  wrote for this configuration, saving succeeds and loading then returns the configuration, with the
  log level filled in where it was empty. Every other field comes back as it was saved.
\<close>

theorem config_roundtrip:
  assumes "fs_ok w" and "env_yaml_reads (ev w) cfg" and "run_state (Save cfg) w = (err, w')"
  shows "err = None
    \<and> fst (run_state LoadOrCreate w') = (if LogLevel cfg = [] then cfg\<lparr>LogLevel := ''info''\<rparr> else cfg, None)
    \<and> config_file (snd (run_state LoadOrCreate w')) = config_file w'"
proof -
  obtain d where d: "o_yaml_marshal (ev w) cfg = Inr d" "o_yaml_unmarshal (ev w) d = Inr cfg"
    using assms(2) by (auto simp: env_yaml_reads_def)
  have w': "w' = snd (run_state (Save cfg) w)" and err: "err = fst (run_state (Save cfg) w)"
    using assms(3) by simp_all
  have written: "config_file w' = Some d" "ev w' = ev w" using Save_ok(2) [OF assms(1) d(1)] unfolding w' by simp_all
  then have "fst (run_state LoadOrCreate w') = (if LogLevel cfg = [] then cfg\<lparr>LogLevel := ''info''\<rparr> else cfg, None)"
    using LoadOrCreate_file [of w' d cfg] assms(1) d(2) by simp
  moreover have "config_file (snd (run_state LoadOrCreate w')) = config_file w'"
    using written assms(1) d(2) by (simp add: LoadOrCreate_def ReadFile_def run_simps)
  ultimately show ?thesis using Save_ok(1) [OF assms(1) d(1)] err by simp
qed

theorem config_roundtrip_witness:
  "fst (run_state LoadOrCreate (snd (run_state (Save Default) world0))) = (Default, None)"
proof -
  obtain err w' where run: "run_state (Save Default) world0 = (err, w')" by (metis surj_pair)
  have "fs_ok world0" "env_yaml_reads (ev world0) Default"
    by (simp_all add: world0_def env0_def env_fs_ok_def env_yaml_reads_def Default_def)
  then show ?thesis using config_roundtrip [OF _ _ run] run by (simp add: Default_def)
qed

end
