(* ===== verification/Bootstrap.thy ===== *)
theory Bootstrap
  imports Config HttpClient GoUnmarshal
begin

text \<open>
  Package \<open>internal/bootstrap\<close>: the one-time registration and the download of the Portal-owned configuration.
  The service keeps its configuration in memory and clears the enrollment key there after a
  registration, so the operations that change it return it.
\<close>

section \<open>Data\<close>

record service =
  sv_Config :: config
  sv_Version :: string
  sv_client :: client

record boot_status =
  st_Registered :: bool
  st_AgentUUID :: string
  st_PortalURL :: string
  st_AgentVersion :: string
  st_ConfigurationVersion :: string
  st_LastSync :: string

record registerRequest =
  rr_EnrollmentKey :: string
  rr_Hostname :: string
  rr_ComputerName :: string
  rr_MachineUUID :: string
  rr_OperatingSystem :: string
  rr_OSVersion :: string
  rr_Architecture :: string
  rr_AgentVersion :: string

record portalResponse =
  pr_AgentUUID :: string
  pr_AgentToken :: string
  pr_Configuration :: string
  pr_Policy :: string
  pr_RegistrationTime :: string
  pr_ConfigurationVersion :: string

definition New_service :: "env \<Rightarrow> config \<Rightarrow> string \<Rightarrow> service" where
  "New_service E cfg version =
    \<lparr>sv_Config = cfg, sv_Version = version,
     sv_client = NewWithOptions E \<lparr>opt_Timeout = 30 * Second, opt_RetryDelay = Second, opt_Token = [],
       opt_TLSValidation = TLSValidation cfg, opt_Proxy = Proxy cfg\<rparr>\<rparr>"

text \<open>The JSON of the registration request, and the decoding of a response.\<close>

definition register_json :: "registerRequest \<Rightarrow> string" where
  "register_json r = json_print (JObj
    [(''enrollment_key'', JStr (rr_EnrollmentKey r)), (''hostname'', JStr (rr_Hostname r)),
     (''computer_name'', JStr (rr_ComputerName r)), (''machine_uuid'', JStr (rr_MachineUUID r)),
     (''operating_system'', JStr (rr_OperatingSystem r)), (''os_version'', JStr (rr_OSVersion r)),
     (''architecture'', JStr (rr_Architecture r)), (''agent_version'', JStr (rr_AgentVersion r))])"

definition decode_response :: "string \<Rightarrow> portalResponse option" where
  "decode_response data =
    (case Unmarshal_object data of
       None \<Rightarrow> None
     | Some ms \<Rightarrow>
       if string_ok ''agent_uuid'' ms \<and> string_ok ''agent_token'' ms \<and> string_ok ''registration_time'' ms
         \<and> string_ok ''configuration_version'' ms
       then Some \<lparr>pr_AgentUUID = string_field ''agent_uuid'' ms, pr_AgentToken = string_field ''agent_token'' ms,
         pr_Configuration = raw_field ''configuration'' (raw_object data),
         pr_Policy = raw_field ''policy'' (raw_object data),
         pr_RegistrationTime = string_field ''registration_time'' ms,
         pr_ConfigurationVersion = string_field ''configuration_version'' ms\<rparr>
       else None)"

section \<open>Talking to the Portal\<close>

definition machineUUID :: "string go" where
  "machineUUID = do {
    r \<leftarrow> exec [''powershell.exe'', ''-NoProfile'', ''-NonInteractive'', ''-Command'',
      ''(Get-CimInstance Win32_ComputerSystemProduct).UUID''];
    State_Monad.return (case fst r of
      Some _ \<Rightarrow> ''unknown''
    | None \<Rightarrow> if TrimSpace (snd r) = [] then ''unknown'' else TrimSpace (snd r))
  }"

definition osVersion :: "string go" where
  "osVersion = do {
    r \<leftarrow> exec [''cmd.exe'', ''/c'', ''ver''];
    State_Monad.return (case fst r of Some _ \<Rightarrow> ''unknown'' | None \<Rightarrow> TrimSpace (snd r))
  }"

definition registrationPayload :: "service \<Rightarrow> registerRequest result go" where
  "registrationPayload s = do {
    E \<leftarrow> getw ev;
    case o_hostname E of
      Inl m \<Rightarrow> State_Monad.return (Inl (Wrapf ''read hostname: '' (Errorf m) []))
    | Inr hostname \<Rightarrow> do {
        uuid \<leftarrow> machineUUID;
        os \<leftarrow> osVersion;
        State_Monad.return (Inr \<lparr>rr_EnrollmentKey = EnrollmentKey (sv_Config s), rr_Hostname = hostname,
          rr_ComputerName = hostname, rr_MachineUUID = uuid, rr_OperatingSystem = ''windows'',
          rr_OSVersion = os, rr_Architecture = o_goarch E, rr_AgentVersion = sv_Version s\<rparr>)
      }
  }"

text \<open>The verdict on an answer of the Portal.\<close>

definition portal_answer :: "response result \<Rightarrow> portalResponse result" where
  "portal_answer answer =
    (case answer of
       Inl e \<Rightarrow> Inl e
     | Inr resp \<Rightarrow>
       (case resp_body resp of
          Inl m \<Rightarrow> Inl (Wrapf ''read portal response: '' (Errorf m) [])
        | Inr data \<Rightarrow>
          if StatusCode resp < 200 \<or> 300 \<le> StatusCode resp then
            Inl (Errorf (''portal returned '' @ Status resp @ '': '' @ TrimSpace data))
          else case decode_response data of
            None \<Rightarrow> Inl (Wrapf ''parse portal response: '' (Errorf ''json'') [])
          | Some r \<Rightarrow> Inr r))"

definition boot_request :: "service \<Rightarrow> string \<Rightarrow> string \<Rightarrow> string \<Rightarrow> registerRequest option \<Rightarrow> portalResponse result go" where
  "boot_request s meth endpoint token payload = do {
    E \<leftarrow> getw ev;
    let b = (case payload of Some r \<Rightarrow> Body (register_json r) None None | None \<Rightarrow> NilBody);
    case NewRequest E meth (TrimRight (PortalURL (sv_Config s)) (CHR ''/'') @ endpoint) b of
      Inl m \<Rightarrow> State_Monad.return (Inl (Wrapf ''create portal request: '' (Errorf m) []))
    | Inr r \<Rightarrow> do {
        answer \<leftarrow> Client_Do ((sv_client s)\<lparr>cl_Token := token\<rparr>) (Header_Set ''Content-Type'' ''application/json'' r);
        State_Monad.return (portal_answer answer)
      }
  }"

section \<open>Saving\<close>

text \<open>Statement by statement, as the source does it, up to the first failure.\<close>

fun in_order :: "error option go list \<Rightarrow> error option go" where
  "in_order [] = State_Monad.return None"
| "in_order (f # fs) = do { e \<leftarrow> f; case e of Some err \<Rightarrow> State_Monad.return (Some err) | None \<Rightarrow> in_order fs }"

definition Put_now :: "string \<Rightarrow> error option go" where
  "Put_now key = do { now \<leftarrow> Time_Now; Put key (FormatRFC3339 now) }"

definition saveConfiguration :: "portalResponse \<Rightarrow> error option go" where
  "saveConfiguration r = in_order
    ((if pr_AgentToken r \<noteq> [] then [PutSecret ''agent_token'' (pr_AgentToken r)] else [])
     @ (if pr_Configuration r \<noteq> [] then [Put ''portal_configuration'' (pr_Configuration r)] else [])
     @ (if pr_Policy r \<noteq> [] then [Put ''portal_policy'' (pr_Policy r)] else [])
     @ (if pr_ConfigurationVersion r \<noteq> [] then [Put ''configuration_version'' (pr_ConfigurationVersion r)] else [])
     @ [Put_now ''last_configuration_sync''])"

definition saveRegistration :: "portalResponse \<Rightarrow> error option go" where
  "saveRegistration r = in_order
    [Put ''agent_uuid'' (pr_AgentUUID r),
     PutSecret ''agent_token'' (pr_AgentToken r),
     (if pr_RegistrationTime r = [] then Put_now ''registration_time''
      else Put ''registration_time'' (pr_RegistrationTime r)),
     saveConfiguration r]"

section \<open>The operations\<close>

definition Registered :: "bool result go" where
  "Registered = do {
    r \<leftarrow> Get ''agent_uuid'';
    State_Monad.return (case r of Inl e \<Rightarrow> Inl e | Inr v \<Rightarrow> Inr (v \<noteq> None))
  }"

definition Register :: "service \<Rightarrow> (service \<times> error option) go" where
  "Register s =
    (if EnrollmentKey (sv_Config s) = [] then
       State_Monad.return (s, Some (Errorf ''enrollment_key is required for first registration''))
     else do {
       payload \<leftarrow> registrationPayload s;
       case payload of
         Inl err \<Rightarrow> State_Monad.return (s, Some err)
       | Inr p \<Rightarrow> do {
           response \<leftarrow> boot_request s ''POST'' ''/api/agent/register'' [] (Some p);
           case response of
             Inl err \<Rightarrow> State_Monad.return (s, Some err)
           | Inr r \<Rightarrow>
             if pr_AgentUUID r = [] \<or> pr_AgentToken r = [] then
               State_Monad.return (s, Some (Errorf ''registration response is missing agent_uuid or agent_token''))
             else do {
               saved \<leftarrow> saveRegistration r;
               case saved of
                 Some err \<Rightarrow> State_Monad.return (s, Some err)
               | None \<Rightarrow> do {
                   let s' = s\<lparr>sv_Config := (sv_Config s)\<lparr>EnrollmentKey := []\<rparr>\<rparr>;
                   Save (sv_Config s');
                   State_Monad.return (s', None)
                 }
             }
         }
     })"

definition EnsureRegistered :: "service \<Rightarrow> (service \<times> error option) go" where
  "EnsureRegistered s = do {
    registered \<leftarrow> Registered;
    case registered of
      Inl err \<Rightarrow> State_Monad.return (s, Some err)
    | Inr True \<Rightarrow> do {
        c \<leftarrow> Get ''portal_configuration'';
        State_Monad.return (s, case c of Inl err \<Rightarrow> Some err | Inr _ \<Rightarrow> None)
      }
    | Inr False \<Rightarrow> Register s
  }"

definition ReloadConfig :: "service \<Rightarrow> error option go" where
  "ReloadConfig s = do {
    secret \<leftarrow> GetSecret ''agent_token'';
    case secret of
      Inl err \<Rightarrow> State_Monad.return (Some err)
    | Inr None \<Rightarrow> State_Monad.return (Some (Errorf ''agent is not registered''))
    | Inr (Some token) \<Rightarrow> do {
        response \<leftarrow> boot_request s ''GET'' ''/api/agent/configuration'' token None;
        case response of
          Inl err \<Rightarrow> State_Monad.return (Some err)
        | Inr r \<Rightarrow>
          if pr_Configuration r = [] then State_Monad.return (Some (Errorf ''configuration response is empty''))
          else saveConfiguration r
      }
  }"

definition Status_of :: "service \<Rightarrow> boot_status result go" where
  "Status_of s = do {
    uuid \<leftarrow> Get ''agent_uuid'';
    case uuid of
      Inl err \<Rightarrow> State_Monad.return (Inl err)
    | Inr u \<Rightarrow> do {
        version \<leftarrow> Get ''configuration_version'';
        case version of
          Inl err \<Rightarrow> State_Monad.return (Inl err)
        | Inr v \<Rightarrow> do {
            sync \<leftarrow> Get ''last_configuration_sync'';
            case sync of
              Inl err \<Rightarrow> State_Monad.return (Inl err)
            | Inr l \<Rightarrow> State_Monad.return (Inr
                \<lparr>st_Registered = (u \<noteq> None), st_AgentUUID = (case u of Some x \<Rightarrow> x | None \<Rightarrow> []),
                 st_PortalURL = PortalURL (sv_Config s), st_AgentVersion = sv_Version s,
                 st_ConfigurationVersion = (case v of Some x \<Rightarrow> x | None \<Rightarrow> []),
                 st_LastSync = (case l of Some x \<Rightarrow> x | None \<Rightarrow> [])\<rparr>)
          }
      }
  }"

section \<open>Frames\<close>

lemma in_order_rel:
  assumes "\<And>f v. f \<in> set fs \<Longrightarrow> R v (snd (run_state f v))"
    and "\<And>v. R v v" and "\<And>u v x. R u v \<Longrightarrow> R v x \<Longrightarrow> R u x"
  shows "R w (snd (run_state (in_order fs) w))"
  using assms(1)
proof (induction fs arbitrary: w)
  case (Cons f fs)
  have "R w (snd (run_state f w))" using Cons.prems by simp
  moreover have "R (snd (run_state f w)) (snd (run_state (in_order fs) (snd (run_state f w))))"
    using Cons.IH Cons.prems by simp
  ultimately show ?case using assms(3) by (fastforce split: option.split)
qed (simp add: assms(2))

lemma Put_now_frame [simp]: "only_config (snd (run_state (Put_now key) w)) w"
  by (simp add: Put_now_def)

lemma saveConfiguration_frame [simp]: "only_config (snd (run_state (saveConfiguration r) w)) w"
  unfolding saveConfiguration_def
  by (rule in_order_rel [where R = "\<lambda>v w. only_config w v"]) (auto split: if_splits)

lemma saveRegistration_frame [simp]: "only_config (snd (run_state (saveRegistration r) w)) w"
  unfolding saveRegistration_def
  by (rule in_order_rel [where R = "\<lambda>v w. only_config w v"]) (auto split: if_splits)

lemma boot_request_frame [simp]:
  "ev (snd (run_state (boot_request s m ep t p) w)) = ev w"
  "same_tables (snd (run_state (boot_request s m ep t p) w)) w"
  by (simp_all add: boot_request_def Let_def split: sum.split)

lemma device_frame [simp]:
  "ev (snd (run_state machineUUID w)) = ev w" "same_tables (snd (run_state machineUUID w)) w"
  "wire (snd (run_state machineUUID w)) = wire w"
  "ev (snd (run_state osVersion w)) = ev w" "same_tables (snd (run_state osVersion w)) w"
  "wire (snd (run_state osVersion w)) = wire w"
  by (simp_all add: machineUUID_def osVersion_def)

lemma registrationPayload_frame [simp]:
  "ev (snd (run_state (registrationPayload s) w)) = ev w"
  "same_tables (snd (run_state (registrationPayload s) w)) w"
  "wire (snd (run_state (registrationPayload s) w)) = wire w"
  by (simp_all add: registrationPayload_def split: sum.split)

lemma Registered_frame [simp]: "only_counters (snd (run_state Registered w)) w"
  by (simp add: Registered_def)

lemma Register_frame [simp]:
  "ev (snd (run_state (Register s) w)) = ev w"
  "queue_tab (snd (run_state (Register s) w)) = queue_tab w"
  "history_tab (snd (run_state (Register s) w)) = history_tab w"
  by (simp_all add: Register_def Let_def split: sum.split option.split)

lemma EnsureRegistered_frame [simp]:
  "ev (snd (run_state (EnsureRegistered s) w)) = ev w"
  "queue_tab (snd (run_state (EnsureRegistered s) w)) = queue_tab w"
  "history_tab (snd (run_state (EnsureRegistered s) w)) = history_tab w"
  by (simp_all add: EnsureRegistered_def split: sum.split bool.split)

section \<open>What saving stores\<close>

lemma holds_secret_kv:
  "ev v = ev w \<Longrightarrow> kv v key = kv w key \<Longrightarrow> holds_secret v key x \<longleftrightarrow> holds_secret w key x"
  by (simp add: env_holds_secret_def)

lemma kv_PutSecret_other: "key' \<noteq> key \<Longrightarrow> kv (snd (run_state (PutSecret key x) w)) key' = kv w key'"
  by (simp add: tab_value_def PutSecret_other)

lemma kv_Put_now_other: "key' \<noteq> key \<Longrightarrow> kv (snd (run_state (Put_now key) w)) key' = kv w key'"
  by (simp add: Put_now_def kv_Put)

text \<open>A secret that could be stored is there, whatever the driver does otherwise.\<close>

lemma PutSecret_holds_if_stored:
  assumes "fst (run_state (PutSecret key x) w) = None" and "dpapi_ok w" and "x \<noteq> []" and "length x < 2 ^ 31"
  shows "holds_secret (snd (run_state (PutSecret key x) w)) key x"
proof -
  obtain n y where y: "o_protect (ev w) n x = Inr y" "kv (snd (run_state (PutSecret key x) w)) key = Some (b64_EncodeToString y)"
    using PutSecret_stores [OF assms(1)] assms(4) by auto
  moreover obtain z where "z \<noteq> []" "length z < 2 ^ 32" "o_protect (ev w) n x = Inr z" "\<forall>m. o_unprotect (ev w) m z = Inr x"
    using assms(2-4) unfolding env_dpapi_ok_def by meson
  ultimately show ?thesis by (auto simp: env_holds_secret_def)
qed

lemma saveConfiguration_keeps_uuid:
  "kv (snd (run_state (saveConfiguration r) w)) ''agent_uuid'' = kv w ''agent_uuid''"
  unfolding saveConfiguration_def
  by (rule in_order_rel [where R = "\<lambda>v w. kv w ''agent_uuid'' = kv v ''agent_uuid''"])
    (auto simp: kv_Put kv_PutSecret_other kv_Put_now_other split: if_splits)

text \<open>After a successful save, the configuration and the token are those of the response.\<close>

lemma saveConfiguration_stores:
  assumes "fst (run_state (saveConfiguration r) w) = None"
  shows "pr_Configuration r \<noteq> [] \<Longrightarrow>
      kv (snd (run_state (saveConfiguration r) w)) ''portal_configuration'' = Some (pr_Configuration r)"
    and "dpapi_ok w \<Longrightarrow> pr_AgentToken r \<noteq> [] \<Longrightarrow> length (pr_AgentToken r) < 2 ^ 31 \<Longrightarrow>
      holds_secret (snd (run_state (saveConfiguration r) w)) ''agent_token'' (pr_AgentToken r)"
    and "pr_AgentToken r = [] \<Longrightarrow>
      kv (snd (run_state (saveConfiguration r) w)) ''agent_token'' = kv w ''agent_token''"
proof -
  define rest where "rest = (if pr_Policy r \<noteq> [] then [Put ''portal_policy'' (pr_Policy r)] else [])
     @ (if pr_ConfigurationVersion r \<noteq> [] then [Put ''configuration_version'' (pr_ConfigurationVersion r)] else [])
     @ [Put_now ''last_configuration_sync'']"
  define confs where "confs = (if pr_Configuration r \<noteq> [] then [Put ''portal_configuration'' (pr_Configuration r)] else [])"
  define toks where "toks = (if pr_AgentToken r \<noteq> [] then [PutSecret ''agent_token'' (pr_AgentToken r)] else [])"
  have split: "saveConfiguration r = in_order (toks @ confs @ rest)"
    by (simp add: saveConfiguration_def toks_def confs_def rest_def)
  have rest: "ev (snd (run_state (in_order rest) v)) = ev v"
    "kv (snd (run_state (in_order rest) v)) ''portal_configuration'' = kv v ''portal_configuration''"
    "kv (snd (run_state (in_order rest) v)) ''agent_token'' = kv v ''agent_token''" for v
    unfolding rest_def
    by (rule in_order_rel [where R = "\<lambda>v w. ev w = ev v"]; auto split: if_splits)
      (rule in_order_rel [where R = "\<lambda>v w. kv w _ = kv v _"]; auto simp: kv_Put kv_Put_now_other split: if_splits)+
  have conf: "ev (snd (run_state (in_order (confs @ rest)) v)) = ev v"
    "kv (snd (run_state (in_order (confs @ rest)) v)) ''agent_token'' = kv v ''agent_token''"
    "fst (run_state (in_order (confs @ rest)) v) = None \<Longrightarrow> pr_Configuration r \<noteq> [] \<Longrightarrow>
      kv (snd (run_state (in_order (confs @ rest)) v)) ''portal_configuration'' = Some (pr_Configuration r)" for v
    using rest by (auto simp: confs_def kv_Put simp del: in_order.simps simp: in_order.simps split: option.splits)
  show "pr_Configuration r \<noteq> [] \<Longrightarrow>
      kv (snd (run_state (saveConfiguration r) w)) ''portal_configuration'' = Some (pr_Configuration r)"
    using assms conf(3) unfolding split by (auto simp: toks_def split: option.splits if_splits)
  show "pr_AgentToken r = [] \<Longrightarrow>
      kv (snd (run_state (saveConfiguration r) w)) ''agent_token'' = kv w ''agent_token''"
    using conf(2) unfolding split by (simp add: toks_def)
  assume "dpapi_ok w" "pr_AgentToken r \<noteq> []" "length (pr_AgentToken r) < 2 ^ 31"
  with assms have "fst (run_state (PutSecret ''agent_token'' (pr_AgentToken r)) w) = None"
    and eq: "snd (run_state (saveConfiguration r) w) =
      snd (run_state (in_order (confs @ rest)) (snd (run_state (PutSecret ''agent_token'' (pr_AgentToken r)) w)))"
    unfolding split by (auto simp: toks_def split: option.splits)
  from PutSecret_holds_if_stored [OF this(1)] \<open>dpapi_ok w\<close> \<open>pr_AgentToken r \<noteq> []\<close> \<open>length (pr_AgentToken r) < 2 ^ 31\<close>
  have "holds_secret (snd (run_state (PutSecret ''agent_token'' (pr_AgentToken r)) w)) ''agent_token'' (pr_AgentToken r)"
    by blast
  then show "holds_secret (snd (run_state (saveConfiguration r) w)) ''agent_token'' (pr_AgentToken r)"
    unfolding eq using holds_secret_kv [OF conf(1) conf(2)] by blast
qed

lemma saveRegistration_stores:
  assumes "fst (run_state (saveRegistration r) w) = None"
  shows "kv (snd (run_state (saveRegistration r) w)) ''agent_uuid'' = Some (pr_AgentUUID r)"
    and "pr_Configuration r \<noteq> [] \<Longrightarrow>
      kv (snd (run_state (saveRegistration r) w)) ''portal_configuration'' = Some (pr_Configuration r)"
    and "dpapi_ok w \<Longrightarrow> pr_AgentToken r \<noteq> [] \<Longrightarrow> length (pr_AgentToken r) < 2 ^ 31 \<Longrightarrow>
      holds_secret (snd (run_state (saveRegistration r) w)) ''agent_token'' (pr_AgentToken r)"
proof -
  define t where "t = (if pr_RegistrationTime r = [] then Put_now ''registration_time''
    else Put ''registration_time'' (pr_RegistrationTime r))"
  define w1 where "w1 = snd (run_state (Put ''agent_uuid'' (pr_AgentUUID r)) w)"
  define w2 where "w2 = snd (run_state (PutSecret ''agent_token'' (pr_AgentToken r)) w1)"
  define w3 where "w3 = snd (run_state t w2)"
  have "fst (run_state (Put ''agent_uuid'' (pr_AgentUUID r)) w) = None"
    and last: "fst (run_state (saveConfiguration r) w3) = None"
    and w': "snd (run_state (saveRegistration r) w) = snd (run_state (saveConfiguration r) w3)"
    using assms unfolding saveRegistration_def t_def [symmetric]
    by (auto simp: w1_def w2_def w3_def split: option.splits)
  then have "kv w1 ''agent_uuid'' = Some (pr_AgentUUID r)" by (simp add: w1_def kv_Put)
  then have "kv w3 ''agent_uuid'' = Some (pr_AgentUUID r)"
    by (simp add: w3_def w2_def t_def kv_PutSecret_other kv_Put kv_Put_now_other)
  then show "kv (snd (run_state (saveRegistration r) w)) ''agent_uuid'' = Some (pr_AgentUUID r)"
    unfolding w' saveConfiguration_keeps_uuid .
  show "pr_Configuration r \<noteq> [] \<Longrightarrow>
      kv (snd (run_state (saveRegistration r) w)) ''portal_configuration'' = Some (pr_Configuration r)"
    unfolding w' by (rule saveConfiguration_stores(1) [OF last])
  have "ev w3 = ev w" by (simp add: w3_def w2_def w1_def t_def)
  then show "dpapi_ok w \<Longrightarrow> pr_AgentToken r \<noteq> [] \<Longrightarrow> length (pr_AgentToken r) < 2 ^ 31 \<Longrightarrow>
      holds_secret (snd (run_state (saveRegistration r) w)) ''agent_token'' (pr_AgentToken r)"
    unfolding w' using saveConfiguration_stores(2) [OF last] by simp
qed

section \<open>What a request puts on the wire\<close>

text \<open>The answer of the Portal to a request that came back with \<open>r\<close>.\<close>

definition answered :: "env \<Rightarrow> nat \<Rightarrow> request \<Rightarrow> portalResponse \<Rightarrow> bool" where
  "answered E k req r \<longleftrightarrow>
    (\<exists>resp data. o_net E k req = Inr resp \<and> resp_body resp = Inr data \<and> 200 \<le> StatusCode resp
      \<and> StatusCode resp < 300 \<and> decode_response data = Some r)"

definition boot_url :: "service \<Rightarrow> string \<Rightarrow> string" where
  "boot_url s endpoint = TrimRight (PortalURL (sv_Config s)) (CHR ''/'') @ endpoint"

lemma portal_answer_ok:
  "portal_answer a = Inr r \<Longrightarrow> \<exists>resp data. a = Inr resp \<and> resp_body resp = Inr data \<and> 200 \<le> StatusCode resp
    \<and> StatusCode resp < 300 \<and> decode_response data = Some r"
  by (auto simp: portal_answer_def split: sum.splits if_splits option.splits)

lemma boot_request_spec:
  assumes "rand_ok w" and "fst (run_state (boot_request s m ep token payload) w) = Inr r"
  shows "\<exists>rs req. wire (snd (run_state (boot_request s m ep token payload) w)) = wire w @ rs @ [req]
    \<and> answered (ev w) (length (wire w) + length rs) req r
    \<and> (\<forall>x\<in>set (rs @ [req]). rq_method x = m \<and> rq_url x = boot_url s ep
        \<and> rq_body x = Body (case payload of Some p \<Rightarrow> register_json p | None \<Rightarrow> []) None None
        \<and> (token \<noteq> [] \<longrightarrow> signature_valid token x))"
proof -
  let ?b = "case payload of Some p \<Rightarrow> Body (register_json p) None None | None \<Rightarrow> NilBody"
  let ?c = "(sv_client s)\<lparr>cl_Token := token\<rparr>"
  obtain q where q: "NewRequest (ev w) m (boot_url s ep) ?b = Inr q"
    using assms(2) by (auto simp: boot_request_def boot_url_def Let_def split: sum.splits)
  define r0 where "r0 = Header_Set ''Content-Type'' ''application/json'' q"
  have r0: "rq_method r0 = m" "rq_url r0 = boot_url s ep" "rq_body r0 = ?b"
    using q by (auto simp: r0_def NewRequest_def split: sum.splits)
  have run: "run_state (boot_request s m ep token payload) w =
      (portal_answer (fst (run_state (Client_Do ?c r0) w)), snd (run_state (Client_Do ?c r0) w))"
    using q by (simp add: boot_request_def boot_url_def Let_def r0_def)
  let ?n = "nat (cl_Retries ?c + 1)" and ?t = "content (rq_body r0)"
  have "readable (rq_body r0)" unfolding r0 by (simp add: readable_def split: option.split)
  note do_attempts = Client_Do_readable [OF this]
  obtain rs where rs: "wire (snd (run_state (Client_Do ?c r0) w)) = wire w @ rs" "\<forall>x\<in>set rs. copy_of ?c r0 ?t x"
    "attempts_outcome ?c ?n None w rs (fst (run_state (Client_Do ?c r0) w))"
    using attempts_spec [OF assms(1), of ?c ?t ?n r0 None] unfolding do_attempts by blast
  obtain resp data where a: "fst (run_state (Client_Do ?c r0) w) = Inr resp" "resp_body resp = Inr data"
    "200 \<le> StatusCode resp" "StatusCode resp < 300" "decode_response data = Some r"
    using portal_answer_ok assms(2) unfolding run by force
  then have "rs \<noteq> []" and net: "o_net (ev w) (length (wire w) + (length rs - 1)) (List.last rs) = Inr resp"
    using rs(3) by (simp_all add: attempts_outcome_def)
  have "?t = (case payload of Some p \<Rightarrow> register_json p | None \<Rightarrow> [])"
    unfolding r0 by (simp add: content_def split: option.split)
  then have car: "\<forall>x\<in>set rs. rq_method x = m \<and> rq_url x = boot_url s ep
      \<and> rq_body x = Body (case payload of Some p \<Rightarrow> register_json p | None \<Rightarrow> []) None None
      \<and> (token \<noteq> [] \<longrightarrow> signature_valid token x)"
    using rs(2) r0 by (simp add: copy_of_def)
  obtain ss x where ss: "rs = ss @ [x]" using \<open>rs \<noteq> []\<close> by (cases rs rule: rev_cases) auto
  then have "answered (ev w) (length (wire w) + length ss) x r"
    using net a unfolding answered_def by auto
  then show ?thesis
    using rs(1) car unfolding run ss by (intro exI [of _ ss] exI [of _ x]) simp
qed

section \<open>How a registration ends\<close>

lemma Register_stages:
  assumes "run_state (Register s) w = ((s', None), w')"
  shows "\<exists>p r v. fst (run_state (registrationPayload s) w) = Inr p
    \<and> v = snd (run_state (registrationPayload s) w)
    \<and> fst (run_state (boot_request s ''POST'' ''/api/agent/register'' [] (Some p)) v) = Inr r
    \<and> pr_AgentUUID r \<noteq> [] \<and> pr_AgentToken r \<noteq> []
    \<and> fst (run_state (saveRegistration r) (snd (run_state (boot_request s ''POST'' ''/api/agent/register'' [] (Some p)) v))) = None
    \<and> s' = s\<lparr>sv_Config := (sv_Config s)\<lparr>EnrollmentKey := []\<rparr>\<rparr>
    \<and> w' = snd (run_state (Save (sv_Config s')) (snd (run_state (saveRegistration r)
        (snd (run_state (boot_request s ''POST'' ''/api/agent/register'' [] (Some p)) v)))))"
  using assms by (auto simp: Register_def Let_def split: if_splits sum.splits option.splits)

lemma registrationPayload_key:
  "fst (run_state (registrationPayload s) w) = Inr p \<Longrightarrow> rr_EnrollmentKey p = EnrollmentKey (sv_Config s)"
  by (auto simp: registrationPayload_def split: sum.splits)

lemma EnsureRegistered_unregistered:
  assumes "kv w ''agent_uuid'' = None" and "run_state (EnsureRegistered s) w = ((s', None), w')"
  shows "run_state (Register s) (snd (run_state Registered w)) = ((s', None), w')"
  using assms by (auto simp: EnsureRegistered_def Registered_def dest: Get_result split: sum.splits bool.splits)

section \<open>Registration succeeds when everything works\<close>

lemma saveConfiguration_ok:
  assumes "sql_ok w" and "dpapi_ok w" and "length (pr_AgentToken r) < 2 ^ 31"
  shows "fst (run_state (saveConfiguration r) w) = None"
proof -
  have each: "fst (run_state (in_order fs) v) = None"
    if "ev v = ev w" "\<forall>f\<in>set fs. \<forall>x. ev x = ev w \<longrightarrow> fst (run_state f x) = None \<and> ev (snd (run_state f x)) = ev w" for fs v
    using that by (induction fs arbitrary: v) simp_all
  show ?thesis
    unfolding saveConfiguration_def using assms PutSecret_holds(1)
    by (intro each) (auto simp: run_simps Put_now_def split: if_splits)
qed

lemma saveRegistration_ok:
  assumes "sql_ok w" and "dpapi_ok w" and "pr_AgentToken r \<noteq> []" and "length (pr_AgentToken r) < 2 ^ 31"
  shows "fst (run_state (saveRegistration r) w) = None"
  using assms by (simp add: saveRegistration_def run_simps PutSecret_holds(1) saveConfiguration_ok Put_now_def)

lemma boot_request_ok:
  assumes "rand_ok w" and "\<forall>url. \<exists>path. o_url (ev w) url = Inr path" and "0 \<le> cl_Retries (sv_client s)"
    and "\<forall>k q. o_net (ev w) k q = Inr resp"
  shows "fst (run_state (boot_request s m ep token payload) w) = portal_answer (Inr resp)"
proof -
  let ?b = "case payload of Some p \<Rightarrow> Body (register_json p) None None | None \<Rightarrow> NilBody"
  obtain path where "o_url (ev w) (boot_url s ep) = Inr path" using assms(2) by blast
  then obtain q where q: "NewRequest (ev w) m (boot_url s ep) ?b = Inr q" by (simp add: NewRequest_def)
  then have "readable (rq_body (Header_Set ''Content-Type'' ''application/json'' q))"
    by (auto simp: NewRequest_def readable_def split: sum.splits option.splits)
  then show ?thesis
    using q Client_Do_answered [OF assms(1) _ _ assms(4)] assms(3)
    by (simp add: boot_request_def boot_url_def Let_def)
qed

lemma EnsureRegistered_succeeds:
  assumes "sql_ok w" and "rand_ok w" and "dpapi_ok w" and "kv w ''agent_uuid'' = None"
    and "EnrollmentKey (sv_Config s) \<noteq> []" and "o_hostname (ev w) = Inr h"
    and "\<forall>url. \<exists>path. o_url (ev w) url = Inr path" and "0 \<le> cl_Retries (sv_client s)"
    and "\<forall>k q. o_net (ev w) k q = Inr resp" and "portal_answer (Inr resp) = Inr r"
    and "pr_AgentUUID r \<noteq> []" and "pr_AgentToken r \<noteq> []" and "length (pr_AgentToken r) < 2 ^ 31"
  shows "\<exists>s'. fst (run_state (EnsureRegistered s) w) = (s', None)"
proof -
  have "fst (run_state (boot_request s ''POST'' ''/api/agent/register'' [] p) v) = Inr r" if "ev v = ev w" for p v
    using boot_request_ok [of v s resp] assms(2,7-10) that by simp
  moreover have "fst (run_state (saveRegistration r) v) = None" if "ev v = ev w" for v
    using saveRegistration_ok [of v r] assms(1,3,12,13) that by simp
  ultimately show ?thesis
    using assms(1,4,5,6,11,12)
    by (simp add: EnsureRegistered_def Registered_def run_simps Register_def registrationPayload_def Let_def)
qed

section \<open>A concrete Portal\<close>

definition portal_json :: string where
  "portal_json = ''{'' @ quoted ''agent_uuid'' @ '':'' @ quoted ''u1'' @ '','' @ quoted ''agent_token'' @ '':'' @ quoted ''t1''
    @ '','' @ quoted ''configuration'' @ '':{}'' @ ''}''"

lemma portal_json_tree:
  "json_parse portal_json = Some (JObj [(''agent_uuid'', JStr ''u1''), (''agent_token'', JStr ''t1''), (''configuration'', JObj [])])"
  unfolding portal_json_def json_parse_def by (simp add: json_eval)

lemma portal_json_raw:
  "raw_object portal_json = [(''agent_uuid'', quoted ''u1''), (''agent_token'', quoted ''t1''), (''configuration'', ''{}'')]"
  unfolding portal_json_def raw_object_def by (simp add: json_eval raw_numeral)

definition response1 :: portalResponse where
  "response1 = \<lparr>pr_AgentUUID = ''u1'', pr_AgentToken = ''t1'', pr_Configuration = ''{}'', pr_Policy = [],
    pr_RegistrationTime = [], pr_ConfigurationVersion = []\<rparr>"

lemma portal_json_decoded: "decode_response portal_json = Some response1"
  by (simp add: decode_response_def Unmarshal_object_def portal_json_tree portal_json_raw field_eval response1_def)

text \<open>A machine that is not registered, a Portal that answers every request with the document above.\<close>

definition env_portal :: env where
  "env_portal = env0\<lparr>o_net := \<lambda>_ _. Inr \<lparr>StatusCode = 200, Status = ''200 OK'', resp_body = Inr portal_json\<rparr>\<rparr>"

definition world_new :: world where
  "world_new = world0\<lparr>ev := env_portal\<rparr>"

definition service1 :: service where
  "service1 = New_service env0 (Default\<lparr>EnrollmentKey := ''key''\<rparr>) ''0.2.0''"

lemma world_new_ok:
  "sql_ok world_new" "rand_ok world_new" "dpapi_ok world_new" "kv world_new key = None"
  using world0_ok by (simp_all add: world_new_def env_portal_def tab_value_def)
    (simp_all add: world0_def env_sql_ok_def env_rand_ok_def env_dpapi_ok_def env0_def)

lemma service1_client: "cl_Retries (sv_client service1) = 3"
  by (simp add: service1_def New_service_def NewWithOptions_def Let_def)

lemma world_new_registers: "\<exists>s'. fst (run_state (EnsureRegistered service1) world_new) = (s', None)"
proof (rule EnsureRegistered_succeeds [where r = response1])
  show "portal_answer (Inr \<lparr>StatusCode = 200, Status = ''200 OK'', resp_body = Inr portal_json\<rparr>) = Inr response1"
    by (simp add: portal_answer_def portal_json_decoded)
qed (use world_new_ok in \<open>simp_all add: service1_client response1_def\<close>,
    simp_all add: world_new_def env_portal_def env0_def service1_def New_service_def)

text \<open>The Portal of \<open>world0\<close> answers with an empty document, which is no registration.\<close>

lemma world0_refuses:
  "ev v = ev world0 \<Longrightarrow> fst (run_state (boot_request service1 m ep t p) v) \<noteq> Inr r"
  "\<exists>err. fst (run_state (Register service1) world0) = (service1, Some err)"
proof -
  have "json_parse [] = None" by (simp add: json_parse_def p_value.simps skip_ws_def)
  then have answer: "portal_answer (Inr \<lparr>StatusCode = 200, Status = ''200 OK'', resp_body = Inr []\<rparr>) =
      Inl (Wrapf ''parse portal response: '' (Errorf ''json'') [])"
    by (simp add: portal_answer_def decode_response_def Unmarshal_object_def)
  have refuse: "fst (run_state (boot_request service1 m ep t p) v) = Inl (Wrapf ''parse portal response: '' (Errorf ''json'') [])"
    if "ev v = ev world0" for m ep t p v
    unfolding answer [symmetric]
    by (rule boot_request_ok) (use that world0_ok(4) in \<open>simp_all add: service1_client\<close>,
        simp_all add: world0_def env0_def)
  then show "ev v = ev world0 \<Longrightarrow> fst (run_state (boot_request service1 m ep t p) v) \<noteq> Inr r" by simp
  have "EnrollmentKey (sv_Config service1) \<noteq> []" by (simp add: service1_def New_service_def)
  moreover have "o_hostname (ev world0) = Inr ''host''" by (simp add: world0_def env0_def)
  ultimately show "\<exists>err. fst (run_state (Register service1) world0) = (service1, Some err)"
    using refuse by (simp add: Register_def registrationPayload_def)
qed

text \<open>The same Portal and an agent that is registered.\<close>

definition token_row0 :: config_row where
  "token_row0 = \<lparr>c_value = ''u0'', c_updated_at = []\<rparr>"

definition world_registered :: world where
  "world_registered = world_new\<lparr>config_tab :=
    [''agent_uuid'' \<mapsto> token_row0, ''agent_token'' \<mapsto> \<lparr>c_value = b64_EncodeToString ''Ptok'', c_updated_at = []\<rparr>]\<rparr>"

lemma world_registered_ok:
  "sql_ok world_registered" "rand_ok world_registered" "holds_secret world_registered ''agent_token'' ''tok''"
  "dpapi_ok world_registered" "kv world_registered ''agent_uuid'' = Some ''u0''"
proof -
  show "holds_secret world_registered ''agent_token'' ''tok''"
    unfolding env_holds_secret_def
    by (rule exI [of _ "''Ptok''"])
      (simp add: world_registered_def tab_value_def world_new_def env_portal_def env0_def)
qed (use world_new_ok in \<open>simp_all add: world_registered_def tab_value_def token_row0_def\<close>)

lemma world_registered_reloads: "fst (run_state (ReloadConfig service1) world_registered) = None"
proof -
  have answer: "portal_answer (Inr \<lparr>StatusCode = 200, Status = ''200 OK'', resp_body = Inr portal_json\<rparr>) = Inr response1"
    by (simp add: portal_answer_def portal_json_decoded)
  have "fst (run_state (boot_request service1 ''GET'' ''/api/agent/configuration'' ''tok'' None) v) = Inr response1"
    if "ev v = env_portal" for v
    unfolding answer [symmetric]
    by (rule boot_request_ok) (use that world_new_ok(2) in \<open>simp_all add: service1_client world_new_def\<close>,
        simp_all add: env_portal_def env0_def)
  moreover have "ev world_registered = env_portal" by (simp add: world_registered_def world_new_def)
  moreover have "fst (run_state (saveConfiguration response1) v) = None" if "ev v = env_portal" for v
    using saveConfiguration_ok [of v response1] that world_new_ok(1,3) by (simp add: world_new_def response1_def)
  ultimately show ?thesis
    using world_registered_ok(1,3) by (simp add: ReloadConfig_def run_simps response1_def [symmetric])
      (simp add: response1_def)
qed

section \<open>Properties\<close>

text \<open>
  C5. What a successful first registration guarantees. The last request on the wire posted the enrollment key
  to the registration endpoint, the Portal answered it with a UUID and a token, and afterwards the
  UUID is stored, the token can be read back (if it is shorter than two gigabytes) and so can the
  configuration; the enrollment key is gone from memory.
\<close>

theorem registration_establishes:
  assumes "rand_ok w" and "dpapi_ok w" and "kv w ''agent_uuid'' = None"
    and "run_state (EnsureRegistered s) w = ((s', None), w')"
  shows "\<exists>rs req p r. wire w' = wire w @ rs @ [req] \<and> answered (ev w) (length (wire w) + length rs) req r
    \<and> rq_method req = ''POST'' \<and> rq_url req = boot_url s ''/api/agent/register''
    \<and> rq_body req = Body (register_json p) None None \<and> rr_EnrollmentKey p = EnrollmentKey (sv_Config s)
    \<and> pr_AgentUUID r \<noteq> [] \<and> kv w' ''agent_uuid'' = Some (pr_AgentUUID r)
    \<and> pr_AgentToken r \<noteq> [] \<and> (length (pr_AgentToken r) < 2 ^ 31 \<longrightarrow> holds_secret w' ''agent_token'' (pr_AgentToken r))
    \<and> (pr_Configuration r \<noteq> [] \<longrightarrow> kv w' ''portal_configuration'' = Some (pr_Configuration r))
    \<and> EnrollmentKey (sv_Config s') = []"
proof -
  obtain p r v where st: "fst (run_state (registrationPayload s) (snd (run_state Registered w))) = Inr p"
    "v = snd (run_state (registrationPayload s) (snd (run_state Registered w)))"
    "fst (run_state (boot_request s ''POST'' ''/api/agent/register'' [] (Some p)) v) = Inr r"
    "pr_AgentUUID r \<noteq> []" "pr_AgentToken r \<noteq> []"
    "fst (run_state (saveRegistration r) (snd (run_state (boot_request s ''POST'' ''/api/agent/register'' [] (Some p)) v))) = None"
    "s' = s\<lparr>sv_Config := (sv_Config s)\<lparr>EnrollmentKey := []\<rparr>\<rparr>"
    "w' = snd (run_state (Save (sv_Config s')) (snd (run_state (saveRegistration r)
        (snd (run_state (boot_request s ''POST'' ''/api/agent/register'' [] (Some p)) v)))))"
    using Register_stages [OF EnsureRegistered_unregistered [OF assms(3,4)]] by blast
  define x where "x = snd (run_state (boot_request s ''POST'' ''/api/agent/register'' [] (Some p)) v)"
  have v: "ev v = ev w" "wire v = wire w" by (simp_all add: st(2))
  obtain rs req where wire: "wire x = wire w @ rs @ [req]" "answered (ev w) (length (wire w) + length rs) req r"
    "rq_method req = ''POST''" "rq_url req = boot_url s ''/api/agent/register''" "rq_body req = Body (register_json p) None None"
    using boot_request_spec [OF _ st(3)] assms(1) v unfolding x_def by auto
  note stored = saveRegistration_stores [OF st(6), folded x_def]
  have x: "ev x = ev w" by (simp add: x_def v)
  have w': "ev w' = ev x" "config_tab w' = config_tab (snd (run_state (saveRegistration r) x))" "wire w' = wire x"
    unfolding st(8) x_def by simp_all
  have "kv w' ''agent_uuid'' = Some (pr_AgentUUID r)"
    "pr_Configuration r \<noteq> [] \<Longrightarrow> kv w' ''portal_configuration'' = Some (pr_Configuration r)"
    "length (pr_AgentToken r) < 2 ^ 31 \<Longrightarrow> holds_secret w' ''agent_token'' (pr_AgentToken r)"
    using stored assms(2) x w' st(5) by simp_all
  then show ?thesis
    using wire w' registrationPayload_key [OF st(1)] st(4,5,7)
    by (intro exI [of _ rs] exI [of _ req] exI [of _ p] exI [of _ r]) simp
qed

theorem registration_establishes_witness:
  "\<exists>s' w'. run_state (EnsureRegistered service1) world_new = ((s', None), w') \<and> EnrollmentKey (sv_Config s') = []
    \<and> (\<exists>u. kv w' ''agent_uuid'' = Some u \<and> u \<noteq> [])"
proof -
  obtain s' w' where run: "run_state (EnsureRegistered service1) world_new = ((s', None), w')"
    using world_new_registers by (metis surj_pair fst_conv)
  then show ?thesis using registration_establishes [OF world_new_ok(2,3,4) run] by blast
qed

text \<open>
  Registration happens once: an agent with a stored UUID never posts the enrollment key again.
  \<open>EnsureRegistered\<close> then succeeds without a request and changes neither the tables nor the file nor
  the configuration in memory.
\<close>

theorem registered_stays_registered:
  assumes "sql_ok w" and "kv w ''agent_uuid'' \<noteq> None"
  shows "fst (run_state (EnsureRegistered s) w) = (s, None) \<and> only_counters (snd (run_state (EnsureRegistered s) w)) w"
  using assms by (auto simp: EnsureRegistered_def Registered_def run_simps)

theorem registered_stays_registered_witness:
  "fst (run_state (EnsureRegistered service1) (world0\<lparr>config_tab := [''agent_uuid'' \<mapsto> token_row0]\<rparr>)) = (service1, None)"
  using registered_stays_registered [of "world0\<lparr>config_tab := [''agent_uuid'' \<mapsto> token_row0]\<rparr>" service1]
  by (simp add: tab_value_def)

text \<open>
  A registration that got no usable answer can be tried again: when it fails before anything is saved
  (no enrollment key, no host name, the network, a refusal, a malformed or incomplete answer), the
  tables, the file and the configuration in memory are as before.
\<close>

theorem failed_registration_changes_nothing:
  assumes "run_state (Register s) w = ((s', Some err), w')"
    and "\<forall>p r. fst (run_state (registrationPayload s) w) = Inr p \<longrightarrow>
      fst (run_state (boot_request s ''POST'' ''/api/agent/register'' [] (Some p))
        (snd (run_state (registrationPayload s) w))) = Inr r \<longrightarrow> pr_AgentUUID r = [] \<or> pr_AgentToken r = []"
  shows "s' = s \<and> ev w' = ev w \<and> same_tables w' w"
  using assms by (auto simp: Register_def Let_def split: if_splits sum.splits option.splits)

theorem failed_registration_changes_nothing_witness:
  "\<exists>err w'. run_state (Register service1) world0 = ((service1, Some err), w') \<and> same_tables w' world0"
proof -
  obtain err w' where run: "run_state (Register service1) world0 = ((service1, Some err), w')"
    using world0_refuses(2) by (metis surj_pair fst_conv)
  then show ?thesis using failed_registration_changes_nothing [OF run] by (simp add: world0_refuses(1))
qed

text \<open>
  C31. A half registration is final. The UUID is stored before the token, so when the token cannot be
  protected the registration fails, but from then on the agent counts as registered: \<open>EnsureRegistered\<close>
  succeeds without a request, and there is no token to send anything with.
\<close>

theorem half_registration:
  assumes "sql_ok w" and "\<forall>n x. \<exists>m. o_protect (ev w) n x = Inl m" and "kv w ''agent_token'' = None"
    and "pr_AgentToken r \<noteq> []" and "run_state (saveRegistration r) w = (err, w')"
  shows "err \<noteq> None \<and> kv w' ''agent_uuid'' = Some (pr_AgentUUID r)
    \<and> fst (run_state (EnsureRegistered s) w') = (s, None) \<and> wire (snd (run_state (EnsureRegistered s) w')) = wire w'
    \<and> fst (run_state (GetSecret ''agent_token'') w') = Inr None"
proof -
  define v where "v = snd (run_state (Put ''agent_uuid'' (pr_AgentUUID r)) w)"
  have v: "ev v = ev w" "kv v ''agent_uuid'' = Some (pr_AgentUUID r)" "kv v ''agent_token'' = None"
    using assms(1,3) by (simp_all add: v_def kv_Put run_simps)
  obtain m where "o_protect (ev v) (n_dp v) (take (length (pr_AgentToken r) mod 2 ^ 32) (pr_AgentToken r)) = Inl m"
    using assms(2) v(1) by metis
  then obtain e where e: "fst (run_state (ProtectSecret (pr_AgentToken r)) v) = Inl e"
    using assms(4) by (simp add: ProtectSecret_def transform_def CryptProtectData_def)
  then have run: "run_state (PutSecret ''agent_token'' (pr_AgentToken r)) v =
      (Some (Wrapf ''protect agent_token: '' e []), snd (run_state (ProtectSecret (pr_AgentToken r)) v))"
    by (simp add: PutSecret_def)
  have first: "fst (run_state (Put ''agent_uuid'' (pr_AgentUUID r)) w) = None"
    using assms(1) by (simp add: run_simps)
  have "run_state (saveRegistration r) w = run_state (PutSecret ''agent_token'' (pr_AgentToken r)) v"
    using run unfolding saveRegistration_def v_def by (simp add: first)
  then have res: "err = Some (Wrapf ''protect agent_token: '' e [])" "ev w' = ev w" "config_tab w' = config_tab v"
    using assms(5) run v(1) by (auto)
  then have "kv w' ''agent_uuid'' = Some (pr_AgentUUID r)" "kv w' ''agent_token'' = None"
    using v by simp_all
  with res assms(1) show ?thesis
    by (simp add: EnsureRegistered_def Registered_def run_simps)
qed

theorem half_registration_witness:
  "\<exists>err w'. run_state (saveRegistration response1) (world0\<lparr>ev := env0\<lparr>o_protect := \<lambda>_ _. Inl ''denied''\<rparr>\<rparr>) = (err, w')
    \<and> err \<noteq> None \<and> fst (run_state (EnsureRegistered service1) w') = (service1, None)
    \<and> fst (run_state (GetSecret ''agent_token'') w') = Inr None"
proof -
  let ?w = "world0\<lparr>ev := env0\<lparr>o_protect := \<lambda>_ _. Inl ''denied''\<rparr>\<rparr>"
  obtain err w' where run: "run_state (saveRegistration response1) ?w = (err, w')" by (metis surj_pair)
  have "sql_ok ?w" "\<forall>n x. \<exists>m. o_protect (ev ?w) n x = Inl m" "kv ?w ''agent_token'' = None" "pr_AgentToken response1 \<noteq> []"
    by (simp_all add: env_sql_ok_def env0_def world0_def tab_value_def response1_def)
  from half_registration [where s = service1, OF this run] run show ?thesis by blast
qed

text \<open>
  A successful reload replaces the configuration by the one in the Portal's answer, which came to a signed
  \<open>GET\<close>, keeps the UUID, and replaces the token if, and only if, the answer holds a new one.
\<close>

theorem reload_replaces_configuration:
  assumes "rand_ok w" and "holds_secret w ''agent_token'' token" and "token \<noteq> []" and "sql_ok w" and "dpapi_ok w"
    and "run_state (ReloadConfig s) w = (None, w')"
  shows "\<exists>rs req r. wire w' = wire w @ rs @ [req] \<and> answered (ev w) (length (wire w) + length rs) req r
    \<and> rq_method req = ''GET'' \<and> rq_url req = boot_url s ''/api/agent/configuration'' \<and> signature_valid token req
    \<and> pr_Configuration r \<noteq> [] \<and> kv w' ''portal_configuration'' = Some (pr_Configuration r)
    \<and> kv w' ''agent_uuid'' = kv w ''agent_uuid''
    \<and> (length (pr_AgentToken r) < 2 ^ 31 \<longrightarrow>
        holds_secret w' ''agent_token'' (if pr_AgentToken r = [] then token else pr_AgentToken r))"
proof -
  define v where "v = snd (run_state (GetSecret ''agent_token'') w)"
  define x where "x = snd (run_state (boot_request s ''GET'' ''/api/agent/configuration'' token None) v)"
  have secret: "fst (run_state (GetSecret ''agent_token'') w) = Inr (Some token)"
    using assms(2,4) by (simp add: run_simps)
  have v: "ev v = ev w" "config_tab v = config_tab w" "wire v = wire w" by (simp_all add: v_def)
  have x: "ev x = ev w" "config_tab x = config_tab w" by (simp_all add: x_def v)
  obtain r where r: "fst (run_state (boot_request s ''GET'' ''/api/agent/configuration'' token None) v) = Inr r"
    "pr_Configuration r \<noteq> []" "run_state (saveConfiguration r) x = (None, w')"
    using assms(6) secret by (auto simp: ReloadConfig_def v_def x_def split: sum.splits if_splits)
  obtain rs req where wire: "wire x = wire w @ rs @ [req]" "answered (ev w) (length (wire w) + length rs) req r"
    "rq_method req = ''GET''" "rq_url req = boot_url s ''/api/agent/configuration''" "signature_valid token req"
    using boot_request_spec [OF _ r(1)] assms(1,3) v unfolding x_def by auto
  have w': "w' = snd (run_state (saveConfiguration r) x)" and ok: "fst (run_state (saveConfiguration r) x) = None"
    using r(3) by simp_all
  note stored = saveConfiguration_stores [OF ok, folded w']
  have ev': "ev w' = ev w" "wire w' = wire x" unfolding w' by (simp_all add: x)
  have "holds_secret w' ''agent_token'' (if pr_AgentToken r = [] then token else pr_AgentToken r)"
    if "length (pr_AgentToken r) < 2 ^ 31"
  proof (cases "pr_AgentToken r = []")
    case True
    with stored(3) show ?thesis using holds_secret_kv [of w' w "''agent_token''" token] ev' assms(2) x by simp
  next
    case False
    with stored(2) that show ?thesis using assms(5) x by simp
  qed
  then show ?thesis
    using wire ev' r(2) stored(1) saveConfiguration_keeps_uuid [of r x] x
    by (intro exI [of _ rs] exI [of _ req] exI [of _ r]) (simp add: w')
qed

theorem reload_replaces_configuration_witness:
  "\<exists>w'. run_state (ReloadConfig service1) world_registered = (None, w') \<and> kv w' ''agent_uuid'' = Some ''u0''
    \<and> (\<exists>c. kv w' ''portal_configuration'' = Some c \<and> c \<noteq> [])"
proof -
  obtain w' where run: "run_state (ReloadConfig service1) world_registered = (None, w')"
    using world_registered_reloads by (metis surj_pair fst_conv)
  have "''tok'' \<noteq> []" by simp
  from reload_replaces_configuration [OF world_registered_ok(2,3) this world_registered_ok(1,4) run]
  show ?thesis using run world_registered_ok(5) by auto
qed

end
