(* ===== verification/WindowsService.thy ===== *)
theory WindowsService
  imports Config
begin

text \<open>
  Package \<open>internal/windowsservice\<close>, with the paths of \<open>internal/config\<close> and the logger of \<open>internal/logger\<close>: the
  handler the service control manager drives, and the commands that install and control the service.

  What the operating system and the service package of Go decide is collected in \<open>platform\<close>: the path of the
  program, the joining of paths, the variable \<open>ProgramData\<close>, whether the process runs as a service and how the
  two runners of the package end, what the logging library says of a level, and \<open>strconv.Quote\<close>. The handler is
  a function from the requests it is given to what it does, in order; it starts the agent in a
  goroutine, which is the subject of \<open>App\<close>.
\<close>

section \<open>The platform\<close>

record handler =
  h_stop :: bool
  h_start :: bool

record platform =
  pf_executable :: "string + string"
  pf_abs :: "string \<Rightarrow> string + string"
  pf_join :: "string list \<Rightarrow> string"
  pf_program_data :: string
  pf_is_service :: "string + bool"
  pf_svc_run :: "string \<Rightarrow> handler \<Rightarrow> error option"
  pf_debug_run :: "string \<Rightarrow> handler \<Rightarrow> error option"
  pf_level :: "string \<Rightarrow> string option"
  pf_quote :: "string \<Rightarrow> string"

section \<open>Paths and the logger\<close>

definition AppDirectoryName :: string where "AppDirectoryName = ''ITPortalAgent''"

definition backslash :: char where "backslash = CHR 0x5C"

definition RootDir :: "platform \<Rightarrow> string" where
  "RootDir P =
    (if pf_program_data P \<noteq> [] then pf_join P [pf_program_data P, AppDirectoryName]
     else pf_join P [''C:'' @ [backslash] @ ''ProgramData'', AppDirectoryName])"

definition Path :: "platform \<Rightarrow> string" where
  "Path P = pf_join P [RootDir P, ''config.yaml'']"

text \<open>The logger is not modelled but for the two ways in which it cannot be made.\<close>

definition logger_New :: "platform \<Rightarrow> string \<Rightarrow> error option go" where
  "logger_New P level =
    (case pf_level P level of
       Some m \<Rightarrow> State_Monad.return (Some (Wrapf (''invalid log level '' @ pf_quote P level @ '': '') (Errorf m) []))
     | None \<Rightarrow> do {
         f \<leftarrow> fs_step;
         State_Monad.return (map_option (\<lambda>m. Wrapf ''open log file: '' (Errorf m) []) f)
       })"

section \<open>The handler\<close>

definition service_Name :: string where "service_Name = ''ITPortalAgent''"

definition DisplayName :: string where "DisplayName = ''IT Portal Agent''"

definition Description :: string where "Description = ''Enterprise IT Inventory Agent''"

datatype svc_state = Stopped | StartPending | StopPending | Running | OtherState nat

datatype svc_accept = AcceptStop | AcceptShutdown | OtherAccept nat

record svc_status =
  ws_State :: svc_state
  ws_Accepts :: "svc_accept list"

datatype svc_cmd = Interrogate | StopCmd | ShutdownCmd | OtherCmd nat

record change_request =
  cr_Cmd :: svc_cmd
  cr_CurrentStatus :: svc_status

text \<open>What the handler does: report a status, start the agent, cancel its context.\<close>

datatype svc_action = Report svc_status | StartAgent | StopAgent

fun serve :: "handler \<Rightarrow> change_request list \<Rightarrow> svc_action list" where
  "serve h [] = []"
| "serve h (r # rs) =
    (case cr_Cmd r of
       Interrogate \<Rightarrow> Report (cr_CurrentStatus r) # serve h rs
     | StopCmd \<Rightarrow> Report \<lparr>ws_State = StopPending, ws_Accepts = []\<rparr> # (if h_stop h then [StopAgent] else [])
     | ShutdownCmd \<Rightarrow> Report \<lparr>ws_State = StopPending, ws_Accepts = []\<rparr> # (if h_stop h then [StopAgent] else [])
     | OtherCmd _ \<Rightarrow> serve h rs)"

definition Execute :: "handler \<Rightarrow> change_request list \<Rightarrow> svc_action list \<times> bool \<times> nat" where
  "Execute h requests =
    ([Report \<lparr>ws_State = StartPending, ws_Accepts = []\<rparr>]
     @ (if h_start h then [StartAgent] else [])
     @ [Report \<lparr>ws_State = Running, ws_Accepts = [AcceptStop, AcceptShutdown]\<rparr>]
     @ serve h requests, False, 0)"

definition service_Run :: "platform \<Rightarrow> bool \<Rightarrow> bool \<Rightarrow> error option" where
  "service_Run P stop start =
    (case pf_is_service P of
       Inl m \<Rightarrow> Some (Wrapf ''detect service context: '' (Errorf m) [])
     | Inr isService \<Rightarrow>
       (let handler = \<lparr>h_stop = stop, h_start = start\<rparr>
        in if isService then pf_svc_run P service_Name handler else pf_debug_run P service_Name handler))"

section \<open>Commands\<close>

definition runSC :: "string list \<Rightarrow> error option go" where
  "runSC arguments = do {
    r \<leftarrow> exec (''sc.exe'' # arguments);
    State_Monad.return (case fst r of
      Some m \<Rightarrow> Some (Wrapf ''service command failed: '' (Errorf m) ('': '' @ snd r))
    | None \<Rightarrow> None)
  }"

definition double_quote :: char where "double_quote = CHR 0x22"

definition Install :: "platform \<Rightarrow> error option go" where
  "Install P =
    (case pf_executable P of
       Inl m \<Rightarrow> State_Monad.return (Some (Wrapf ''resolve executable: '' (Errorf m) []))
     | Inr executable \<Rightarrow>
       (case pf_abs P executable of
          Inl m \<Rightarrow> State_Monad.return (Some (Wrapf ''resolve executable path: '' (Errorf m) []))
        | Inr path \<Rightarrow> do {
            c \<leftarrow> LoadOrCreate;
            case snd c of
              Some err \<Rightarrow> State_Monad.return (Some err)
            | None \<Rightarrow> do {
                created \<leftarrow> runSC [''create'', service_Name, ''binPath='', [double_quote] @ path @ [double_quote],
                  ''start='', ''auto'', ''DisplayName='', DisplayName];
                case created of
                  Some err \<Rightarrow> State_Monad.return (Some err)
                | None \<Rightarrow> runSC [''description'', service_Name, Description]
              }
          }))"

definition Uninstall :: "error option go" where "Uninstall = runSC [''delete'', service_Name]"

definition Start :: "error option go" where "Start = runSC [''start'', service_Name]"

definition Stop :: "error option go" where "Stop = runSC [''stop'', service_Name]"

definition Restart :: "error option go" where
  "Restart = do {
    s \<leftarrow> Stop;
    case s of Some err \<Rightarrow> State_Monad.return (Some err) | None \<Rightarrow> Start
  }"

section \<open>Frames\<close>

lemma logger_New_frame [simp]: "only_counters (snd (run_state (logger_New P level) w)) w"
  by (simp add: logger_New_def split: option.split)

lemma runSC_frame [simp]:
  "ev (snd (run_state (runSC as) w)) = ev w"
  "same_tables (snd (run_state (runSC as) w)) w"
  "wire (snd (run_state (runSC as) w)) = wire w"
  "ran (snd (run_state (runSC as) w)) = ran w @ [''sc.exe'' # as]"
  by (simp_all add: runSC_def)

section \<open>What the handler does\<close>

definition stopping :: "change_request \<Rightarrow> bool" where
  "stopping r \<longleftrightarrow> cr_Cmd r \<in> {StopCmd, ShutdownCmd}"

lemma serve_until_stop:
  "serve h rs =
    map (\<lambda>r. Report (cr_CurrentStatus r)) (filter (\<lambda>r. cr_Cmd r = Interrogate) (takeWhile (\<lambda>r. \<not> stopping r) rs))
    @ (if list_ex stopping rs
       then Report \<lparr>ws_State = StopPending, ws_Accepts = []\<rparr> # (if h_stop h then [StopAgent] else []) else [])"
  by (induction rs) (auto simp: stopping_def split: svc_cmd.split)

section \<open>Properties\<close>

text \<open>
  C36. The service is started once, and stopped exactly once by the first stop or shutdown request, after which no
  request is served: before it every interrogation is answered with the status it asked about, other controls are
  ignored, and the exit code always says success.
\<close>

theorem service_lifecycle:
  "Execute h requests =
    (Report \<lparr>ws_State = StartPending, ws_Accepts = []\<rparr> # (if h_start h then [StartAgent] else [])
      @ Report \<lparr>ws_State = Running, ws_Accepts = [AcceptStop, AcceptShutdown]\<rparr>
        # map (\<lambda>r. Report (cr_CurrentStatus r))
            (filter (\<lambda>r. cr_Cmd r = Interrogate) (takeWhile (\<lambda>r. \<not> stopping r) requests))
      @ (if list_ex stopping requests
         then Report \<lparr>ws_State = StopPending, ws_Accepts = []\<rparr> # (if h_stop h then [StopAgent] else []) else []),
     False, 0)"
  by (simp add: Execute_def serve_until_stop)

text \<open>
  A restart issues the stop command first and the start command only after it succeeded: a service that cannot
  be stopped, for one that it does not run, is not started, and the error of the stop is returned.
\<close>

theorem restart_order:
  assumes "run_state Restart w = (err, w')"
  shows "(ran w' = ran w @ [[''sc.exe'', ''stop'', service_Name]] \<and> err \<noteq> None
      \<and> fst (o_exec (ev w) (length (ran w)) [''sc.exe'', ''stop'', service_Name]) \<noteq> None)
    \<or> (ran w' = ran w @ [[''sc.exe'', ''stop'', service_Name], [''sc.exe'', ''start'', service_Name]]
      \<and> fst (o_exec (ev w) (length (ran w)) [''sc.exe'', ''stop'', service_Name]) = None
      \<and> (err = None \<longleftrightarrow> fst (o_exec (ev w) (length (ran w) + 1) [''sc.exe'', ''start'', service_Name]) = None))"
proof -
  have sc: "fst (run_state (runSC as) v) = None \<longleftrightarrow> fst (o_exec (ev v) (length (ran v)) (''sc.exe'' # as)) = None" for as v
    by (simp add: runSC_def exec_def split: option.split)
  have res: "err = fst (run_state Restart w)" "w' = snd (run_state Restart w)" using assms by simp_all
  show ?thesis
  proof (cases "fst (run_state Stop w)")
    case None
    then have "fst (o_exec (ev w) (length (ran w)) [''sc.exe'', ''stop'', service_Name]) = None"
      using sc [of "[''stop'', service_Name]" w] by (simp add: Stop_def)
    with None show ?thesis unfolding res by (simp add: Restart_def) (simp add: Stop_def Start_def sc)
  next
    case (Some x)
    then show ?thesis using sc [of "[''stop'', service_Name]" w] unfolding res
      by (simp add: Restart_def Stop_def)
  qed
qed

theorem restart_order_witness:
  "\<exists>err w'. run_state Restart world0 = (err, w') \<and> err \<noteq> None \<and> ran w' = [[''sc.exe'', ''stop'', service_Name]]"
proof -
  obtain err w' where run: "run_state Restart world0 = (err, w')" by (metis surj_pair)
  have "fst (o_exec (ev world0) n cmd) = Some ''not found''" "ran world0 = []" for n cmd by (simp_all add: world0_def env0_def)
  then show ?thesis using restart_order [OF run] run by auto
qed

end
