(* ===== verification/App.thy ===== *)
theory App
  imports Bootstrap SoftEngine InvEngine WindowsService "HOL-Library.Sublist"
begin

text \<open>
  Package \<open>internal/app\<close>: the command line, the start of the service with its bootstrap loop and its three workers,
  and the status report. The commands of the command line run with the background context. The database
  handle and the logger are passed around by the source and part of the world here; closing them
  and log messages are left out.
\<close>

section \<open>Durations in print\<close>

text \<open>\<open>Duration.Round(time.Millisecond)\<close>, and \<open>Duration.String\<close>.\<close>

definition Round_ms :: "int \<Rightarrow> int" where
  "Round_ms d =
    (let r = \<bar>d\<bar> mod Millisecond; down = 2 * r < Millisecond
     in if d < 0 then (if down then d + r else if - (2 ^ 63) \<le> d - Millisecond + r then d - Millisecond + r else - (2 ^ 63))
        else (if down then d - r else if d + Millisecond - r < 2 ^ 63 then d + Millisecond - r else 2 ^ 63 - 1))"

definition show_nat :: "nat \<Rightarrow> string" where "show_nat n = FormatInt (int n)"

text \<open>A number of units with a fraction of the given precision, without trailing zeros.\<close>

definition with_fraction :: "nat \<Rightarrow> nat \<Rightarrow> string" where
  "with_fraction prec u =
    (let f = TrimRight (pad prec (int (u mod 10 ^ prec))) (CHR ''0'')
     in show_nat (u div 10 ^ prec) @ (if u mod 10 ^ prec = 0 then [] else CHR ''.'' # f))"

definition Duration_String :: "int \<Rightarrow> string" where
  "Duration_String d =
    (let u = nat \<bar>d\<bar>; sign = (if d < 0 then ''-'' else []);
         secs = u div 10 ^ 9
     in if u = 0 then ''0s''
        else if u < 10 ^ 3 then sign @ with_fraction 0 u @ ''ns''
        else if u < 10 ^ 6 then sign @ with_fraction 3 u @ [CHR 0xC2, CHR 0xB5] @ ''s''
        else if u < 10 ^ 9 then sign @ with_fraction 6 u @ ''ms''
        else sign @ (if secs < 60 then [] else if secs < 3600 then show_nat (secs div 60) @ ''m''
            else show_nat (secs div 3600) @ ''h'' @ show_nat (secs div 60 mod 60) @ ''m'')
          @ with_fraction 9 (u mod (60 * 10 ^ 9)) @ ''s'')"

definition newline :: char where "newline = CHR 0x0A"

text \<open>A label with its value, on a line of its own.\<close>

definition line :: "string \<Rightarrow> string \<Rightarrow> string" where
  "line label v = label @ '': '' @ v @ [newline]"

definition Println :: "string \<Rightarrow> unit go" where
  "Println s = Printf (s @ [newline])"

section \<open>Start of every command\<close>

definition Version :: string where "Version = ''0.2.0''"

definition initialize :: "platform \<Rightarrow> config result go" where
  "initialize P = do {
    c \<leftarrow> LoadOrCreate;
    case snd c of
      Some err \<Rightarrow> State_Monad.return (Inl err)
    | None \<Rightarrow> do {
        l \<leftarrow> logger_New P (LogLevel (fst c));
        case l of
          Some err \<Rightarrow> State_Monad.return (Inl err)
        | None \<Rightarrow> do {
            opened \<leftarrow> Open;
            State_Monad.return (case opened of Some err \<Rightarrow> Inl err | None \<Rightarrow> Inr (fst c))
          }
      }
  }"

text \<open>A computation under the background context, which is never cancelled.\<close>

definition background :: "'a go \<Rightarrow> 'a go" where
  "background f = State (\<lambda>w.
    (let (r, w') = run_state f (w\<lparr>ev := (ev w)\<lparr>o_cancel := None\<rparr>\<rparr>) in (r, w'\<lparr>ev := ev w\<rparr>)))"

definition withBootstrap :: "platform \<Rightarrow> (service \<Rightarrow> error option go) \<Rightarrow> error option go" where
  "withBootstrap P action = do {
    r \<leftarrow> initialize P;
    case r of
      Inl err \<Rightarrow> State_Monad.return (Some err)
    | Inr cfg \<Rightarrow> do {
        E \<leftarrow> getw ev;
        background (action (New_service E cfg Version))
      }
  }"

definition transport :: "env \<Rightarrow> config \<Rightarrow> int \<Rightarrow> engine" where
  "transport E cfg timeout = New_engine E
    \<lparr>so_PortalURL = PortalURL cfg, so_Proxy = Proxy cfg, so_TLSValidate = TLSValidation cfg, so_Compression = [],
     so_Timeout = timeout, so_RetryDelay = Second\<rparr>"

section \<open>Commands\<close>

definition ignore_queued :: "error option \<Rightarrow> error option" where
  "ignore_queued err = (case err of Some x \<Rightarrow> if errors_Is x ErrQueued then None else err | None \<Rightarrow> None)"

definition register_command :: "service \<Rightarrow> error option go" where
  "register_command s = do { r \<leftarrow> EnsureRegistered s; State_Monad.return (snd r) }"

definition inventory_text :: "inv_Report \<Rightarrow> string" where
  "inventory_text rep =
    (line ''Collect Duration'' (Duration_String (Round_ms (ir_CollectDuration rep)))
     @ line ''Upload Duration'' (Duration_String (Round_ms (ir_UploadDuration rep)))
     @ line ''Payload Size'' (FormatInt (ir_PayloadSize rep) @ '' bytes'')
     @ line ''Hardware Count'' (FormatInt (ir_HardwareCount rep)) @ line ''Changed Items'' (FormatInt (ir_ChangedItems rep))
     @ line ''Skipped Items'' (FormatInt (ir_SkippedItems rep)) @ line ''Fingerprint'' (ir_Fingerprint rep))
    @ line ''Result'' (ir_Result rep)"

definition inventory_command :: "service \<Rightarrow> error option go" where
  "inventory_command s = do {
    E \<leftarrow> getw ev;
    r \<leftarrow> inv_RunOnce \<lparr>inv_Sync = transport E (sv_Config s) (30 * Second), inv_Version = Version\<rparr>;
    Printf (inventory_text (fst r));
    State_Monad.return (ignore_queued (snd r))
  }"

definition software_text :: "sw_Report \<Rightarrow> string" where
  "software_text rep =
    line ''Software Collection Duration'' (Duration_String (Round_ms (sr_CollectDuration rep)))
    @ line ''Software Count'' (FormatInt (sr_SoftwareCount rep)) @ line ''Changed Items'' (FormatInt (sr_ChangedItems rep))
    @ line ''Skipped Items'' (FormatInt (sr_SkippedItems rep))
    @ line ''Payload Size'' (FormatInt (sr_PayloadSize rep) @ '' bytes'') @ line ''Fingerprint'' (sr_Fingerprint rep)
    @ line ''Result'' (sr_Result rep)"

definition software_command :: "service \<Rightarrow> error option go" where
  "software_command s = do {
    E \<leftarrow> getw ev;
    r \<leftarrow> sw_RunOnce (transport E (sv_Config s) (60 * Second));
    Printf (software_text (fst r));
    State_Monad.return (ignore_queued (snd r))
  }"

section \<open>The status report\<close>

definition heartbeatState :: "bool \<Rightarrow> string \<Rightarrow> string go" where
  "heartbeatState registered lastHeartbeat =
    (if registered \<and> lastHeartbeat \<noteq> [] then
       (case ParseRFC3339 lastHeartbeat of
          None \<Rightarrow> State_Monad.return ''PENDING''
        | Some parsed \<Rightarrow> do {
            now \<leftarrow> Time_Now;
            d \<leftarrow> ConfiguredInterval;
            State_Monad.return (if wrap64 (2 * d) < Time_Since now parsed then ''OFFLINE'' else ''ONLINE'')
          })
     else State_Monad.return ''PENDING'')"

text \<open>The values a list of keys has, in order, the empty string for none, or the first error.\<close>

fun Get_all :: "string list \<Rightarrow> string list result go" where
  "Get_all [] = State_Monad.return (Inr [])"
| "Get_all (key # keys) = do {
    r \<leftarrow> Get key;
    case r of
      Inl err \<Rightarrow> State_Monad.return (Inl err)
    | Inr v \<Rightarrow> do {
        rest \<leftarrow> Get_all keys;
        State_Monad.return (case rest of
          Inl err \<Rightarrow> Inl err | Inr vs \<Rightarrow> Inr ((case v of Some x \<Rightarrow> x | None \<Rightarrow> []) # vs))
      }
  }"

definition status_text :: "boot_status \<Rightarrow> string \<Rightarrow> string list \<Rightarrow> int \<Rightarrow> string" where
  "status_text s state vs queueSize =
    line ''Registration Status'' (if st_Registered s then ''Registered'' else ''Not registered'')
    @ line ''Agent UUID'' (st_AgentUUID s) @ line ''Portal URL'' (st_PortalURL s) @ line ''Agent Version'' (st_AgentVersion s)
    @ line ''Configuration Version'' (st_ConfigurationVersion s) @ line ''Last Sync'' (st_LastSync s)
    @ line ''Heartbeat Status'' state @ line ''Last Heartbeat'' (vs ! 0) @ line ''Portal Latency'' (vs ! 1 @ ''ms'')
    @ line ''Health'' (vs ! 2) @ line ''Queue Size'' (FormatInt queueSize)"

definition status_keys :: "string list" where
  "status_keys = [''heartbeat_last_success'', ''heartbeat_last_latency_ms'', ''heartbeat_last_health'', ''heartbeat_last_error'']"

definition printStatus :: "service \<Rightarrow> error option go" where
  "printStatus service = do {
    status \<leftarrow> Status_of service;
    case status of
      Inl err \<Rightarrow> State_Monad.return (Some err)
    | Inr s \<Rightarrow> do {
        values \<leftarrow> Get_all status_keys;
        case values of
          Inl err \<Rightarrow> State_Monad.return (Some err)
        | Inr vs \<Rightarrow> do {
            size \<leftarrow> QueueSize;
            case size of
              Inl err \<Rightarrow> State_Monad.return (Some err)
            | Inr queueSize \<Rightarrow> do {
                state \<leftarrow> heartbeatState (st_Registered s) (vs ! 0);
                Printf (status_text s state vs queueSize);
                (if vs ! 3 \<noteq> [] then Printf (line ''Heartbeat Error'' (vs ! 3)) else State_Monad.return ());
                State_Monad.return None
              }
          }
      }
  }"

section \<open>The service\<close>

definition next_delay :: "int \<Rightarrow> int" where
  "next_delay delay =
    (if delay < 5 * Minute then (if 5 * Minute < delay * 2 then 5 * Minute else delay * 2) else delay)"

text \<open>
  The bootstrap loop. Each unit of fuel is one attempt to register with the wait after it; the result is
  \<open>None\<close> when the fuel is used up, else the service and the error \<open>bootstrapWithRetry\<close> returns.
\<close>

fun retry :: "nat \<Rightarrow> int \<Rightarrow> service \<Rightarrow> (service \<times> error option) option go" where
  "retry 0 delay s = State_Monad.return None"
| "retry (Suc fuel) delay s = do {
    r \<leftarrow> EnsureRegistered s;
    if snd r = None then State_Monad.return (Some (fst r, None))
    else do {
      done \<leftarrow> select_done delay;
      if done then do { c \<leftarrow> ctx_Err; State_Monad.return (Some (fst r, c)) }
      else retry fuel (next_delay delay) (fst r)
    }
  }"

definition bootstrapWithRetry :: "nat \<Rightarrow> service \<Rightarrow> (service \<times> error option) option go" where
  "bootstrapWithRetry fuel s = retry fuel Second s"

text \<open>The workers the service starts once it is registered, on one transport.\<close>

datatype worker = InventoryWorker inv_engine | SoftwareWorker engine | HeartbeatWorker hb_engine

definition workers :: "env \<Rightarrow> config \<Rightarrow> worker list" where
  "workers E cfg =
    (let t = transport E cfg (30 * Second)
     in [InventoryWorker \<lparr>inv_Sync = t, inv_Version = Version\<rparr>, SoftwareWorker t,
         HeartbeatWorker \<lparr>hb_Sync = t, hb_Version = Version\<rparr>])"

definition service_start :: "nat \<Rightarrow> config \<Rightarrow> worker list option go" where
  "service_start fuel cfg = do {
    E \<leftarrow> getw ev;
    r \<leftarrow> bootstrapWithRetry fuel (New_service E cfg Version);
    State_Monad.return (case r of
      None \<Rightarrow> None
    | Some (_, Some _) \<Rightarrow> Some []
    | Some (_, None) \<Rightarrow> Some (workers E cfg))
  }"

definition runService :: "platform \<Rightarrow> error option go" where
  "runService P = do {
    r \<leftarrow> initialize P;
    State_Monad.return (case r of Inl err \<Rightarrow> Some err | Inr _ \<Rightarrow> service_Run P True True)
  }"

section \<open>The command line\<close>

definition app_Run :: "platform \<Rightarrow> string list \<Rightarrow> error option go" where
  "app_Run P arguments =
    (case arguments of
       [] \<Rightarrow> runService P
     | a # _ \<Rightarrow> do {
         E \<leftarrow> getw ev;
         let command = ToLower (o_lower E) a;
         if command = ''install'' then Install P
         else if command = ''uninstall'' then Uninstall
         else if command = ''start'' then Start
         else if command = ''stop'' then Stop
         else if command = ''restart'' then Restart
         else if command = ''version'' then do { Println Version; State_Monad.return None }
         else if command = ''config'' then do { Println (Path P); State_Monad.return None }
         else if command = ''register'' then withBootstrap P register_command
         else if command = ''reload-config'' then withBootstrap P ReloadConfig
         else if command = ''status'' then withBootstrap P printStatus
         else if command = ''inventory'' then withBootstrap P inventory_command
         else if command = ''software'' then withBootstrap P software_command
         else State_Monad.return (Some (Errorf (''unknown command '' @ pf_quote P a @
           ''; valid commands: install, uninstall, start, stop, restart, register, status, inventory, software, reload-config, version, config'')))
       })"


section \<open>Frames\<close>

lemma Get_all_frame [simp]: "only_counters (snd (run_state (Get_all keys) w)) w"
  by (induction keys arbitrary: w) (simp_all split: sum.split)

lemma heartbeatState_frame [simp]: "only_counters (snd (run_state (heartbeatState reg l) w)) w"
  by (simp add: heartbeatState_def split: option.split)

lemma Status_of_frame [simp]: "only_counters (snd (run_state (Status_of s) w)) w"
  by (simp add: Status_of_def split: sum.split)

lemma printStatus_frame [simp]:
  "ev (snd (run_state (printStatus s) w)) = ev w" "same_tables (snd (run_state (printStatus s) w)) w"
  "wire (snd (run_state (printStatus s) w)) = wire w" "ran (snd (run_state (printStatus s) w)) = ran w"
  "slept (snd (run_state (printStatus s) w)) = slept w"
  by (simp_all add: printStatus_def split: sum.split)

lemma run_schema_frame [simp]: "only_counters (snd (run_state (run_schema n) w)) w"
  by (induction n arbitrary: w) (simp_all split: option.split)

lemma Open_frame [simp]: "only_counters (snd (run_state Open w)) w"
  by (simp add: Open_def split: option.split)

lemma initialize_frame [simp]: "only_file (snd (run_state (initialize P) w)) w"
  by (simp add: initialize_def split: option.split)

lemma run_background:
  "run_state (background f) w =
    (fst (run_state f (w\<lparr>ev := (ev w)\<lparr>o_cancel := None\<rparr>\<rparr>)),
     (snd (run_state f (w\<lparr>ev := (ev w)\<lparr>o_cancel := None\<rparr>\<rparr>)))\<lparr>ev := ev w\<rparr>)"
  by (simp add: background_def split: prod.split)

section \<open>The bootstrap loop\<close>

text \<open>The waits of the HTTP client come between those of the loop.\<close>

abbreviation waited :: "world \<Rightarrow> world \<Rightarrow> bool" where
  "waited w v \<equiv> prefix (slept w) (slept v)"

lemma attempts_waited: "waited w (snd (run_state (attempts c b n r l) w))"
proof (induction n arbitrary: r l w)
  case (Suc n)
  have step: "waited w (snd (run_state (attempts c b n s m) v))" if "waited w v" for s m v
    using Suc that prefix_order.trans by blast
  show ?case by (auto intro!: step split: sum.split)
qed simp

lemma Client_Do_waited: "waited w (snd (run_state (Client_Do c r) w))"
  by (simp add: Client_Do_def attempts_waited split: body.split option.split)

lemma boot_request_waited: "xs = slept v \<Longrightarrow> prefix xs (slept (snd (run_state (boot_request s m ep t p) v)))"
  by (simp add: boot_request_def Let_def Client_Do_waited split: sum.split)

lemma registrationPayload_slept [simp]: "slept (snd (run_state (registrationPayload s) v)) = slept v"
  by (simp add: registrationPayload_def machineUUID_def osVersion_def split: sum.split)

lemma Register_waited: "xs = slept v \<Longrightarrow> prefix xs (slept (snd (run_state (Register s) v)))"
  by (simp add: Register_def Let_def boot_request_waited split: sum.split option.split)

lemma EnsureRegistered_waited: "waited w (snd (run_state (EnsureRegistered s) w))"
  by (simp add: EnsureRegistered_def Register_waited split: sum.split bool.split)

lemma select_done_cancelled:
  "fst (run_state (select_done d) w) \<Longrightarrow>
    fst (run_state ctx_Err (snd (run_state (select_done d) w))) = Some CtxCanceled \<and> \<not> never_cancelled w"
  by (auto simp: select_done_def ctx_Err_def Time_Sleep_def env_background_def split: option.splits if_splits)

lemma retry_frame [simp]:
  "ev (snd (run_state (retry fuel delay s) w)) = ev w"
  "queue_tab (snd (run_state (retry fuel delay s) w)) = queue_tab w"
  "history_tab (snd (run_state (retry fuel delay s) w)) = history_tab w"
  by (induction fuel arbitrary: delay s w) simp_all

text \<open>The delay after \<open>i\<close> failures.\<close>

definition backoff :: "nat \<Rightarrow> int" where
  "backoff i = min (2 ^ i * Second) (5 * Minute)"

lemma next_delay_backoff: "next_delay (backoff i) = backoff (Suc i)"
proof -
  have "(2::int) ^ i * Second \<le> 2 ^ Suc i * Second" by simp
  then show ?thesis by (simp add: next_delay_def backoff_def min_def)
qed

lemma retry_waits:
  assumes "run_state (retry fuel (backoff i) s) w = (None, w')"
  shows "\<exists>ds. slept w' = slept w @ ds \<and> subseq (map backoff [i..<i + fuel]) ds"
  using assms
proof (induction fuel arbitrary: i s w)
  case (Suc fuel)
  define r where "r = run_state (EnsureRegistered s) w"
  define d where "d = run_state (select_done (backoff i)) (snd r)"
  have next_turn: "run_state (retry fuel (backoff (Suc i)) (fst (fst r))) (snd d) = (None, w')"
    using Suc.prems by (auto simp: r_def [symmetric] d_def [symmetric] next_delay_backoff split: if_splits)
  obtain as where as: "slept (snd r) = slept w @ as"
    using EnsureRegistered_waited [of w s] by (auto simp: r_def prefix_def)
  have "slept (snd d) = slept w @ as @ [backoff i]" using as by (simp add: d_def)
  moreover obtain ds where "slept w' = slept (snd d) @ ds" "subseq (map backoff [Suc i..<Suc i + fuel]) ds"
    using Suc.IH [OF next_turn] by blast
  moreover have "[i..<i + Suc fuel] = i # [Suc i..<Suc i + fuel]" by (simp add: upt_conv_Cons)
  ultimately show ?case
    by (intro exI [of _ "as @ [backoff i] @ ds"]) (simp add: list_emb_append2)
qed simp

lemma EnsureRegistered_uuid:
  assumes "run_state (EnsureRegistered s) w = ((s', None), w')"
  shows "kv w' ''agent_uuid'' \<noteq> None"
proof (cases "kv w ''agent_uuid''")
  case None
  obtain p r v where st: "fst (run_state (saveRegistration r) v) = None"
    "w' = snd (run_state (Save (sv_Config s')) (snd (run_state (saveRegistration r) v)))"
    using Register_stages [OF EnsureRegistered_unregistered [OF None assms]] by blast
  then show ?thesis using saveRegistration_stores(1) [OF st(1)] by simp
next
  case (Some u)
  have w': "w' = snd (run_state (EnsureRegistered s) w)" using assms by simp
  have "fst (run_state Registered w) = Inr True \<or> (\<exists>err. fst (run_state Registered w) = Inl err)"
    using Some by (auto simp: Registered_def dest: Get_result split: sum.split)
  then show ?thesis using Some assms unfolding w' by (auto simp: EnsureRegistered_def)
qed

text \<open>How the loop ends.\<close>

lemma retry_ends:
  assumes "run_state (retry fuel delay s) w = (Some (s', err), w')"
  shows "if err = None then kv w' ''agent_uuid'' \<noteq> None else err = Some CtxCanceled \<and> \<not> never_cancelled w"
  using assms
proof (induction fuel arbitrary: delay s w)
  case (Suc fuel)
  define r where "r = run_state (EnsureRegistered s) w"
  define d where "d = run_state (select_done delay) (snd r)"
  have ev: "ev (snd r) = ev w" "ev (snd d) = ev w" by (simp_all add: r_def d_def)
  consider "snd (fst r) = None" | "snd (fst r) \<noteq> None" "fst d" | "snd (fst r) \<noteq> None" "\<not> fst d" by blast
  then show ?case
  proof cases
    case 1
    then have "run_state (EnsureRegistered s) w = ((s', None), w')" "err = None"
      using Suc.prems by (auto simp: r_def [symmetric] prod_eq_iff)
    then show ?thesis using EnsureRegistered_uuid by simp
  next
    case 2
    then have "err = fst (run_state ctx_Err (snd d))"
      using Suc.prems by (auto simp: r_def [symmetric] d_def [symmetric])
    moreover have "fst (run_state ctx_Err (snd d)) = Some CtxCanceled \<and> \<not> never_cancelled w"
      using 2(2) select_done_cancelled [of delay "snd r"] by (simp add: d_def ev)
    ultimately show ?thesis by simp
  next
    case 3
    then obtain x where "snd (fst r) = Some x" by auto
    with 3(2) have "run_state (retry fuel (next_delay delay) (fst (fst r))) (snd d) = (Some (s', err), w')"
      using Suc.prems by (simp add: r_def [symmetric] d_def [symmetric])
    from Suc.IH [OF this] show ?thesis by (simp only: ev)
  qed
qed simp

section \<open>The command line\<close>

lemma ignore_queued: "ignore_queued err = None \<longleftrightarrow> err = None \<or> is_queued err"
  by (auto simp: ignore_queued_def is_queued_def split: option.split)

lemma inventory_text_result: "\<exists>text. inventory_text rep = text @ ''Result: '' @ ir_Result rep @ [newline]"
proof -
  have result: "line ''Result'' (ir_Result rep) = ''Result: '' @ ir_Result rep @ [newline]" by (simp add: line_def)
  show ?thesis unfolding inventory_text_def result by (rule exI) (rule refl)
qed

text \<open>A concrete platform, on which every path is joined by backslashes.\<close>

definition platform1 :: platform where
  "platform1 = \<lparr>pf_executable = Inr ''agent.exe'', pf_abs = (\<lambda>s. Inr s), pf_join = (\<lambda>xs. Join xs [backslash]),
    pf_program_data = [], pf_is_service = Inr True, pf_svc_run = (\<lambda>_ _. None), pf_debug_run = (\<lambda>_ _. None),
    pf_level = (\<lambda>_. None), pf_quote = (\<lambda>s. [double_quote] @ s @ [double_quote])\<rparr>"

text \<open>An agent without an enrollment key, and one that is registered.\<close>

definition unkeyed :: service where
  "unkeyed = New_service env0 Default ''0.2.0''"

lemma unkeyed_fails: "fst (run_state (bootstrapWithRetry 2 unkeyed) world0) = None"
proof -
  have fail: "fst (run_state (EnsureRegistered unkeyed) v) = (unkeyed, Some (Errorf ''enrollment_key is required for first registration''))"
    if "ev v = ev world0" "config_tab v = config_tab world0" for v
  proof -
    have "sql_ok v" "kv v ''agent_uuid'' = None" using that world0_ok(1) by (simp_all add: tab_value_def world0_def)
    then show ?thesis by (simp add: EnsureRegistered_def Registered_def run_simps Register_def unkeyed_def New_service_def Default_def)
  qed
  have tab: "config_tab (snd (run_state (EnsureRegistered unkeyed) v)) = config_tab v"
    if "ev v = ev world0" "config_tab v = config_tab world0" for v
  proof -
    have "sql_ok v" "kv v ''agent_uuid'' = None" using that world0_ok(1) by (simp_all add: tab_value_def world0_def)
    then show ?thesis by (simp add: EnsureRegistered_def Registered_def run_simps Register_def unkeyed_def New_service_def Default_def)
  qed
  have two: "(2::nat) = Suc (Suc 0)" by simp
  show ?thesis
    unfolding bootstrapWithRetry_def two using world0_ok(2) select_done_background by (simp add: fail tab)
qed

lemma registered_starts:
  "\<exists>ws. fst (run_state (service_start 1 Default) world_registered) = Some ws \<and> ws \<noteq> []"
  using world_registered_ok(1,5)
  by (simp add: service_start_def bootstrapWithRetry_def EnsureRegistered_def Registered_def run_simps workers_def Let_def)

section \<open>Properties\<close>

text \<open>
  C34. The bootstrap loop. As long as the attempts fail it does not give up: it waits one second, then twice as long each
  time, and five minutes from the tenth failure on, where the HTTP client may wait in between. It ends in one of two ways
  only, registered, with the UUID stored, or with its context cancelled, and the service starts its three workers exactly
  in the first case.
\<close>

theorem bootstrap_loop:
  assumes "run_state (service_start fuel cfg) w = (r, w')"
  shows "case r of
      None \<Rightarrow> \<exists>ds. slept w' = slept w @ ds \<and> subseq (map (\<lambda>i. min (2 ^ i * Second) (5 * Minute)) [0..<fuel]) ds
    | Some ws \<Rightarrow> (ws = workers (ev w) cfg \<and> length ws = 3 \<and> kv w' ''agent_uuid'' \<noteq> None) \<or> (ws = [] \<and> \<not> never_cancelled w)"
proof -
  obtain x where run: "run_state (retry fuel (backoff 0) (New_service (ev w) cfg Version)) w = (x, w')"
    and r: "r = (case x of None \<Rightarrow> None | Some (_, Some _) \<Rightarrow> Some [] | Some (_, None) \<Rightarrow> Some (workers (ev w) cfg))"
    using assms by (auto simp: service_start_def bootstrapWithRetry_def backoff_def prod_eq_iff cong: option.case_cong prod.case_cong)
  show ?thesis
  proof (cases x)
    case None
    then show ?thesis using retry_waits [OF run [unfolded None]] r unfolding backoff_def [abs_def] by simp
  next
    case (Some y)
    with run obtain s' err where "y = (s', err)"
      "run_state (retry fuel (backoff 0) (New_service (ev w) cfg Version)) w = (Some (s', err), w')" by (cases y) simp
    from retry_ends [OF this(2)] this(1) show ?thesis
      using r Some by (cases err) (auto simp: workers_def Let_def)
  qed
qed

theorem bootstrap_loop_witness:
  "(\<exists>w'. run_state (service_start 1 Default) world_registered = (Some (workers (ev world_registered) Default), w')
      \<and> kv w' ''agent_uuid'' \<noteq> None)
    \<and> (\<exists>w'. run_state (service_start 2 Default) world0 = (None, w') \<and> subseq [Second, 2 * Second] (slept w'))"
proof
  obtain ws w' where run: "run_state (service_start 1 Default) world_registered = (Some ws, w')" and ws: "ws \<noteq> []"
    using registered_starts by (metis prod.collapse)
  then show "\<exists>w'. run_state (service_start 1 Default) world_registered = (Some (workers (ev world_registered) Default), w')
      \<and> kv w' ''agent_uuid'' \<noteq> None"
    using bootstrap_loop [OF run] by simp
  have "New_service (ev world0) Default Version = unkeyed" by (simp add: unkeyed_def Version_def world0_def)
  then obtain v where run: "run_state (service_start 2 Default) world0 = (None, v)"
    using unkeyed_fails by (auto simp: service_start_def prod_eq_iff)
  have upt: "[0..<2] = [0, 1::nat]" by code_simp
  show "\<exists>w'. run_state (service_start 2 Default) world0 = (None, w') \<and> subseq [Second, 2 * Second] (slept w')"
    using bootstrap_loop [OF run] run by (simp add: upt min_def) (simp add: world0_def)
qed

text \<open>
  The status command only reads: whatever it finds, it sends no request, waits for nothing, runs no program and leaves
  the database alone.
\<close>

theorem status_only_reads:
  "config_tab (snd (run_state (withBootstrap P printStatus) w)) = config_tab w
    \<and> queue_tab (snd (run_state (withBootstrap P printStatus) w)) = queue_tab w
    \<and> history_tab (snd (run_state (withBootstrap P printStatus) w)) = history_tab w
    \<and> wire (snd (run_state (withBootstrap P printStatus) w)) = wire w
    \<and> slept (snd (run_state (withBootstrap P printStatus) w)) = slept w
    \<and> ran (snd (run_state (withBootstrap P printStatus) w)) = ran w"
  by (simp add: withBootstrap_def run_background split: sum.split)

text \<open>
  The exit of the inventory command tells a payload that is safe from one that is not: it reports no error exactly
  when the snapshot was sent, queued or skipped, and then its fingerprint is the remembered one.
\<close>

theorem inventory_command_exit:
  assumes "sql_ok w" and "rand_ok w"
    and "run_state (inv_RunOnce \<lparr>inv_Sync = transport (ev w) (sv_Config s) (30 * Second), inv_Version = Version\<rparr>) w = ((rep, x), v)"
    and "run_state (inventory_command s) w = (err, w')"
  shows "(err = None \<longleftrightarrow> ir_Result rep \<in> {''SENT'', ''QUEUED'', ''SKIPPED''})
    \<and> (err = None \<longrightarrow> kv w' last_fp = Some (ir_Fingerprint rep))
    \<and> (\<exists>text. stdout w' = stdout v @ [text @ ''Result: '' @ ir_Result rep @ [newline]])"
proof -
  let ?e = "\<lparr>inv_Sync = transport (ev w) (sv_Config s) (30 * Second), inv_Version = Version\<rparr>"
  have err: "err = ignore_queued x" and w': "\<exists>text. w' = v\<lparr>stdout := stdout v @ [text @ ''Result: '' @ ir_Result rep @ [newline]]\<rparr>"
    using assms(3,4) inventory_text_result [of rep] by (auto simp: inventory_command_def Printf_def)
  have "(err = None \<longleftrightarrow> ir_Result rep \<in> {''SENT'', ''QUEUED'', ''SKIPPED''}) \<and> (err = None \<longrightarrow> kv v last_fp = Some (ir_Fingerprint rep))"
    using inv_RunOnce_outcome [OF assms(1,2), of ?e] unfolding assms(3) err ignore_queued
    by (auto simp: inv_outcome_def Let_def is_queued_def last_fp_def split: if_splits)
  then show ?thesis using w' by auto
qed

theorem inventory_command_exit_witness:
  "\<exists>err w'. run_state (inventory_command unkeyed) (world_inv (\<lambda>_ _. Inl ''down'')) = (err, w')
    \<and> (err = None \<longrightarrow> kv w' last_fp \<noteq> None)"
proof -
  let ?w = "world_inv (\<lambda>_ _. Inl ''down'')"
  obtain err w' where run: "run_state (inventory_command unkeyed) ?w = (err, w')" by (metis surj_pair)
  obtain rep x v where pass: "run_state (inv_RunOnce \<lparr>inv_Sync = transport (ev ?w) (sv_Config unkeyed) (30 * Second),
      inv_Version = Version\<rparr>) ?w = ((rep, x), v)" by (metis surj_pair)
  show ?thesis using inventory_command_exit [OF world_inv_facts(2,3) pass run] run by auto
qed

end
