(* ===== verification/Agent.thy ===== *)
theory Agent
  imports App
begin

text \<open>
  The running service: the three workers \<open>App.workers\<close> starts, interleaved. They share the database and one transport,
  whose mutex makes each \<open>Flush\<close> and each \<open>SendJSON\<close> atomic; every other operation they perform on the shared
  state is one SQL statement, one reading of the environment or one wait. \<open>agent_step\<close> is the relation of these
  atomic steps, \<open>agent_path\<close> a run with its trace: any order in which the scheduler picks the steps of the workers is
  a path, as the turns of the workers are built from such steps (\<open>turn\<close>).
\<close>

section \<open>Atomic steps\<close>

datatype local_op =
    GetOp string
  | PutOp string string
  | RecordOp string string string
  | NowOp
  | CtxOp
  | WaitOp int
  | ExecOp "string list"
  | NamesOp nat
  | OpenOp nat string
  | WmiOp
  | OrderOp nat

fun run_local :: "local_op \<Rightarrow> world \<Rightarrow> world" where
  "run_local (GetOp key) w = snd (run_state (Get key) w)"
| "run_local (PutOp key v) w = snd (run_state (Put key v) w)"
| "run_local (RecordOp f p c) w = snd (run_state (RecordInventoryHistory f p c) w)"
| "run_local NowOp w = snd (run_state Time_Now w)"
| "run_local CtxOp w = snd (run_state ctx_Err w)"
| "run_local (WaitOp d) w = snd (run_state (select_done d) w)"
| "run_local (ExecOp cmd) w = snd (run_state (exec cmd) w)"
| "run_local (NamesOp i) w = snd (run_state (reg_names i) w)"
| "run_local (OpenOp i name) w = snd (run_state (reg_open i name) w)"
| "run_local WmiOp w = snd (run_state wmi_read w)"
| "run_local (OrderOp k) w = snd (run_state (map_order k) w)"

text \<open>The trace: local steps, flushes with the payloads they delivered, sends with their payload and error.\<close>

type_synonym payload = "string \<times> string"

datatype label = Local local_op | Flushed "payload list" | Sent string string "error option"

definition payloads :: "world \<Rightarrow> payload list" where
  "payloads w = map snd (queued w)"

definition payload_types :: "string set" where
  "payload_types = {HeartbeatType, InventoryType, SoftwareType}"

inductive agent_step :: "engine \<Rightarrow> world \<Rightarrow> label \<Rightarrow> world \<Rightarrow> bool" for e where
  local: "agent_step e w (Local x) (run_local x w)"
| flush: "run_state (Flush e) w = ((n, err), w') \<Longrightarrow> agent_step e w (Flushed (take (nat n) (payloads w))) w'"
| send: "t \<in> payload_types \<Longrightarrow> run_state (SendJSON e (routeForType t) t (Inr data)) w = ((res, err), w') \<Longrightarrow>
    agent_step e w (Sent t data err) w'"

inductive agent_path :: "engine \<Rightarrow> world \<Rightarrow> label list \<Rightarrow> world \<Rightarrow> bool" for e where
  here: "agent_path e w [] w"
| more: "agent_path e w ls v \<Longrightarrow> agent_step e v l x \<Longrightarrow> agent_path e w (ls @ [l]) x"

inductive_cases local_stepE: "agent_step e w (Local x) v"
inductive_cases flush_stepE: "agent_step e w (Flushed ps) v"
inductive_cases send_stepE: "agent_step e w (Sent t data err) v"

lemma path_one: "agent_step e w l v \<Longrightarrow> agent_path e w [l] v"
  using agent_path.more [OF agent_path.here] by simp

lemma path_append: "agent_path e v ms x \<Longrightarrow> agent_path e w ls v \<Longrightarrow> agent_path e w (ls @ ms) x"
proof (induction rule: agent_path.induct)
  case (more v' ms y l x)
  then show ?case using agent_path.more [of e w "ls @ ms" y l x] by simp
qed simp

section \<open>The turns of the workers are paths\<close>

text \<open>An operation is a turn for \<open>P\<close> when it is a path all of whose labels satisfy \<open>P\<close>.\<close>

definition turn :: "(label \<Rightarrow> bool) \<Rightarrow> engine \<Rightarrow> 'a go \<Rightarrow> bool" where
  "turn P e f \<longleftrightarrow> (\<forall>w. \<exists>ls. agent_path e w ls (snd (run_state f w)) \<and> list_all P ls)"

named_theorems turns \<open>operations that are paths\<close>

lemma turn_one:
  assumes "\<And>w. \<exists>l. agent_step e w l (snd (run_state f w)) \<and> P l"
  shows "turn P e f"
  unfolding turn_def
proof
  fix w
  obtain l where "agent_step e w l (snd (run_state f w))" "P l" using assms by blast
  then show "\<exists>ls. agent_path e w ls (snd (run_state f w)) \<and> list_all P ls"
    by (intro exI [of _ "[l]"]) (simp add: path_one)
qed

lemma turn_local: "P (Local x) \<Longrightarrow> (\<And>w. snd (run_state f w) = run_local x w) \<Longrightarrow> turn P e f"
  using agent_step.local by (intro turn_one) metis

lemma turn_return [turns]: "turn P e (State_Monad.return x)" and turn_getw [turns]: "turn P e (getw f)"
  unfolding turn_def by (auto intro!: exI [of _ "[]"] agent_path.here)

lemma turn_bind [turns]:
  assumes "turn P e f" and "\<And>x. turn P e (g x)"
  shows "turn P e (f \<bind> g)"
  unfolding turn_def
proof
  fix w
  obtain ls ms where "agent_path e w ls (snd (run_state f w))" "list_all P ls"
    "agent_path e (snd (run_state f w)) ms (snd (run_state (f \<bind> g) w))" "list_all P ms"
    using assms unfolding turn_def run_bind by metis
  then show "\<exists>ls. agent_path e w ls (snd (run_state (f \<bind> g) w)) \<and> list_all P ls"
    using path_append by (metis list_all_append)
qed

lemma turn_if [turns]: "(b \<Longrightarrow> turn P e f) \<Longrightarrow> (\<not> b \<Longrightarrow> turn P e g) \<Longrightarrow> turn P e (if b then f else g)"
  by simp

lemma turn_option [turns]: "(x = None \<Longrightarrow> turn P e f) \<Longrightarrow> (\<And>y. x = Some y \<Longrightarrow> turn P e (g y)) \<Longrightarrow>
    turn P e (case x of None \<Rightarrow> f | Some y \<Rightarrow> g y)"
  by (cases x) simp_all

lemma turn_sum [turns]: "(\<And>y. x = Inl y \<Longrightarrow> turn P e (f y)) \<Longrightarrow> (\<And>y. x = Inr y \<Longrightarrow> turn P e (g y)) \<Longrightarrow>
    turn P e (case x of Inl y \<Rightarrow> f y | Inr y \<Rightarrow> g y)"
  by (cases x) simp_all

lemma turn_Let [turns]: "turn P e (g x) \<Longrightarrow> turn P e (let y = x in g y)"
  by simp

lemma turn_ops [turns]:
  "P (Local (GetOp key)) \<Longrightarrow> turn P e (Get key)" "P (Local (PutOp key v)) \<Longrightarrow> turn P e (Put key v)"
  "P (Local (RecordOp f p c)) \<Longrightarrow> turn P e (RecordInventoryHistory f p c)" "P (Local NowOp) \<Longrightarrow> turn P e Time_Now"
  "P (Local CtxOp) \<Longrightarrow> turn P e ctx_Err" "P (Local (WaitOp d)) \<Longrightarrow> turn P e (select_done d)"
  "P (Local (ExecOp cmd)) \<Longrightarrow> turn P e (exec cmd)" "P (Local (NamesOp i)) \<Longrightarrow> turn P e (reg_names i)"
  "P (Local (OpenOp i name)) \<Longrightarrow> turn P e (reg_open i name)" "P (Local WmiOp) \<Longrightarrow> turn P e wmi_read"
  "P (Local (OrderOp k)) \<Longrightarrow> turn P e (map_order k)"
  by (erule turn_local; simp)+

lemma turn_Flush [turns]:
  assumes "\<And>ps. P (Flushed ps)"
  shows "turn P e (Flush e)"
  using agent_step.flush assms by (intro turn_one) (metis prod.collapse)

lemma turn_SendJSON [turns]:
  assumes "t \<in> payload_types" and "ep = routeForType t" and "\<And>data err. P (Sent t data err)"
  shows "turn P e (SendJSON e ep t m)"
proof (cases m)
  case (Inl x)
  then show ?thesis by (simp add: SendJSON_def turn_return)
next
  case (Inr data)
  show ?thesis unfolding Inr assms(2)
    using agent_step.send [OF assms(1)] assms(3) by (intro turn_one) (metis prod.collapse)
qed

lemma payload_routes:
  "HeartbeatType \<in> payload_types" "InventoryType \<in> payload_types" "SoftwareType \<in> payload_types"
  "''/api/agent/heartbeat'' = routeForType HeartbeatType" "InventoryEndpoint = routeForType InventoryType"
  "Endpoint = routeForType SoftwareType" "t \<in> payload_types \<Longrightarrow> routeForType t \<noteq> []"
  by (auto simp: payload_types_def routeForType_def HeartbeatType_def InventoryType_def SoftwareType_def InventoryEndpoint_def
      Endpoint_def)

text \<open>The steps of the other two workers leave the keys and the history of the hardware inventory alone.\<close>

fun foreign :: "label \<Rightarrow> bool" where
  "foreign (Local (PutOp key v)) \<longleftrightarrow> key \<notin> set inv_keys"
| "foreign (Local (RecordOp f p c)) \<longleftrightarrow> False"
| "foreign _ \<longleftrightarrow> True"

lemma turn_hb_send: "turn foreign (hb_Sync h) (hb_send h)"
  unfolding hb_send_def hb_collect_def readMetrics_def hb_persistFailure_def hb_persistSuccess_def
  by (intro turns payload_routes; simp add: inv_keys_def)

lemma turn_read_items [turns]: "turn foreign e (read_items ns source)"
  by (induction ns) (auto intro!: turns simp: readRegistryItem_def)

lemma turn_collect_sources [turns]: "turn foreign e (collect_sources ss items)"
  by (induction ss arbitrary: items) (auto intro!: turns simp: readRegistrySource_def)

lemma turn_sw_RunOnce: "turn foreign e (sw_RunOnce e)"
  unfolding sw_RunOnce_def sw_upload_def sw_Collect_def collectWindows_def deduplicate_def
  by (intro turns payload_routes; simp add: inv_keys_def)

abbreviation any_label :: "label \<Rightarrow> bool" where
  "any_label \<equiv> \<lambda>l. True"

lemma turn_storedFloat [turns]: "turn any_label e (storedFloat key)"
  unfolding storedFloat_def by (intro turns TrueI)

lemma turn_inv_persist [turns]:
  "turn any_label e (inv_persistFailure err rep)" "turn any_label e (inv_failure st err)"
  "turn any_label e (inv_persistSuccess rep)" "turn any_label e (persistSnapshot hw fp)"
  "turn any_label e (persistHistory hw fp cs)" "turn any_label e (persistTimeline cs fp)"
  unfolding inv_failure_def inv_persistFailure_def inv_persistSuccess_def persistSnapshot_def persistHistory_def persistTimeline_def
  by (intro turns TrueI)+

lemma turn_inv_RunOnce: "turn any_label (inv_Sync i) (inv_RunOnce i)"
  unfolding inv_RunOnce_def inv_collect_def inv_Collect_def inv_compare_def inv_upload_def inv_payload_def inv_send_def
    inv_health_def inv_delivered_def inv_undelivered_def storedHeartbeatStatus_def ConfiguredInterval_def
  by (intro turns payload_routes TrueI)

section \<open>What a step does to the queue\<close>

lemma local_frame [simp]:
  "ev (run_local x w) = ev w" "queue_tab (run_local x w) = queue_tab w" "wire (run_local x w) = wire w"
  by (cases x; simp)+

lemma step_ev: "agent_step e w l v \<Longrightarrow> ev v = ev w"
proof (induction rule: agent_step.induct)
  case (flush w n err w')
  then show ?case using Flush_frame(1) [of e w] by simp
next
  case (send t data w res err w')
  then show ?case using SendJSON_frame(1) [of e "routeForType t" t "Inr data" w] by simp
qed simp

lemma path_ev: "agent_path e w ls v \<Longrightarrow> ev v = ev w"
  by (induction rule: agent_path.induct) (auto dest: step_ev)

text \<open>What a trace says was queued and delivered, in order.\<close>

fun label_queued :: "label \<Rightarrow> payload list" where
  "label_queued (Sent t data err) = (if is_queued err then [(t, data)] else [])"
| "label_queued _ = []"

fun label_delivered :: "label \<Rightarrow> payload list" where
  "label_delivered (Flushed ps) = ps"
| "label_delivered _ = []"

definition accepted :: "label list \<Rightarrow> payload list" where
  "accepted ls = concat (map label_queued ls)"

definition delivered :: "label list \<Rightarrow> payload list" where
  "delivered ls = concat (map label_delivered ls)"

text \<open>A payload is acknowledged when a request that carries it, sent since position \<open>k\<close>, was answered with success.\<close>

definition acked :: "env \<Rightarrow> engine \<Rightarrow> nat \<Rightarrow> request list \<Rightarrow> payload \<Rightarrow> bool" where
  "acked E e k ws p \<longleftrightarrow>
    (\<exists>i token. k \<le> i \<and> i < length ws \<and> carries E e token (routeForType (fst p)) (snd p) (ws ! i) \<and> portal_ok (o_net E i (ws ! i)))"

lemma acked_more: "acked E e k ws p \<Longrightarrow> acked E e k (ws @ rs) p"
  unfolding acked_def by (metis nth_append length_append trans_less_add1)

lemma acked_earlier: "acked E e k ws p \<Longrightarrow> j \<le> k \<Longrightarrow> acked E e j ws p"
  unfolding acked_def by (meson order_trans)

lemma acked_last:
  "carries E e token (routeForType t) data r \<Longrightarrow> portal_ok (o_net E (length ws) r) \<Longrightarrow> k \<le> length ws \<Longrightarrow>
    acked E e k (ws @ [r]) (t, data)"
  unfolding acked_def by (intro exI [of _ "length ws"] exI [of _ token]) simp

lemma delivery_log_acked:
  "delivery_log E e (length ws) rows segs \<Longrightarrow> k \<le> length ws \<Longrightarrow> row \<in> set rows \<Longrightarrow>
    acked E e k (ws @ concat segs) (snd row)"
proof (induction segs arbitrary: rows ws)
  case (Cons seg segs)
  then obtain r rs where rows: "rows = r # rs" by (cases rows) auto
  have seg: "seg \<noteq> []" "portal_ok (o_net E (length ws + (length seg - 1)) (List.last seg))"
    "carries_row E e r (List.last seg)" and rest: "delivery_log E e (length (ws @ seg)) rs segs"
    using Cons.prems(1) by (simp_all add: rows)
  show ?case
  proof (cases "row = r")
    case True
    obtain token where "carries E e token (routeForType (fst (snd r))) (snd (snd r)) (List.last seg)"
      using seg(3) by (auto simp: carries_row_def)
    then have "acked E e k ((ws @ butlast seg) @ [List.last seg]) (snd r)"
      using acked_last [where E = E and e = e and token = token and t = "fst (snd r)" and data = "snd (snd r)"
          and r = "List.last seg" and ws = "ws @ butlast seg" and k = k] seg(1,2) Cons.prems(2) by simp
    then have "acked E e k (ws @ seg) (snd r)" using seg(1) by simp
    then show ?thesis using acked_more True by fastforce
  next
    case False
    then show ?thesis using Cons.IH [OF rest] Cons.prems(2,3) rows by simp
  qed
next
  case Nil
  then show ?case by (cases rows) auto
qed

lemma flush_delivers:
  assumes "rand_ok w" and "queue_wf w" and "routable (queued w)" and "run_state (Flush e) w = ((n, err), w')"
  shows "payloads w' = drop (nat n) (payloads w) \<and> nat n \<le> length (payloads w) \<and> (\<exists>rs. wire w' = wire w @ rs)
    \<and> (\<forall>p\<in>set (take (nat n) (payloads w)). acked (ev w) e (length (wire w)) (wire w') p)"
proof -
  obtain rows k segs extra m where o: "flush_outcome e rows 0 w ((n, err), w') k segs extra" and m: "rows = take m (queued w)"
    using Flush_spec [OF assms(1-3), of e] assms(4) by metis
  have k: "nat n = k" "k \<le> length (queued w)" "take k rows = take k (queued w)" "queued w' = drop k (queued w)"
    "wire w' = wire w @ concat segs @ extra" "delivery_log (ev w) e (length (wire w)) (take k (queued w)) segs"
    using o m by (auto simp: flush_outcome_def min.absorb1)
  have "acked (ev w) e (length (wire w)) (wire w') (snd row)" if "row \<in> set (take k (queued w))" for row
    using acked_more [OF delivery_log_acked [OF k(6) order_refl that], of extra] k(5) by simp
  then show ?thesis using k by (auto simp: payloads_def drop_map take_map)
qed

lemma send_accounts:
  assumes "rand_ok w" and "run_state (SendJSON e (routeForType t) t (Inr data)) w = ((res, err), w')"
  shows "payloads w' = payloads w @ label_queued (Sent t data err) \<and> (\<exists>rs. wire w' = wire w @ rs)
    \<and> (err = None \<longrightarrow> acked (ev w) e (length (wire w)) (wire w') (t, data))"
proof -
  have r: "queued w' = queued w @ (if is_queued err then [(next_rowid (map q_id (queue_tab w)), t, data)] else [])"
    "err = None \<longleftrightarrow> (\<exists>rs r token. wire w' = wire w @ rs @ [r] \<and> carries (ev w) e token (routeForType t) data r
      \<and> portal_ok (o_net (ev w) (length (wire w) + length rs) r))"
    using send_report [OF assms(1), of e "routeForType t" t data True] assms(2) by (simp_all add: SendJSON_def)
  have "acked (ev w) e (length (wire w)) (wire w') (t, data)" if none: "err = None"
  proof -
    obtain rs r token where "wire w' = (wire w @ rs) @ [r]" "carries (ev w) e token (routeForType t) data r"
      "portal_ok (o_net (ev w) (length (wire w @ rs)) r)"
      using r(2) none by auto
    then show ?thesis using acked_last [where ws = "wire w @ rs"] by simp
  qed
  moreover obtain rs where "wire w' = wire w @ rs"
    using send_wire [OF assms(1), of e "routeForType t" t data True] assms(2) by (auto simp: SendJSON_def)
  ultimately show ?thesis using r(1) by (simp add: payloads_def)
qed

text \<open>The invariant of the queue.\<close>

definition queue_inv :: "world \<Rightarrow> bool" where
  "queue_inv w \<longleftrightarrow> rand_ok w \<and> queue_wf w \<and> (\<forall>p\<in>set (payloads w). fst p \<in> payload_types)"

lemma queue_inv_routable: "queue_inv w \<Longrightarrow> routable (queued w)"
  using payload_routes(7) by (auto simp: queue_inv_def routable_def payloads_def)

lemma step_accounts:
  assumes "agent_step e w l v" and "queue_inv w"
  shows "queue_inv v \<and> payloads w @ label_queued l = label_delivered l @ payloads v \<and> (\<exists>rs. wire v = wire w @ rs)
    \<and> (\<forall>p\<in>set (label_delivered l). acked (ev w) e (length (wire w)) (wire v) p)
    \<and> (\<forall>t data. l = Sent t data None \<longrightarrow> acked (ev w) e (length (wire w)) (wire v) (t, data))"
  using assms
proof (induction rule: agent_step.induct)
  case (local w x)
  then show ?case by (simp add: queue_inv_def payloads_def)
next
  case (flush w n err w')
  have w: "rand_ok w" "queue_wf w" "routable (queued w)" using flush.prems queue_inv_routable by (auto simp: queue_inv_def)
  note f = flush_delivers [OF w flush.hyps]
  have "queue_wf w'" "ev w' = ev w" using Flush_wf [OF w(2), of e] Flush_frame(1) [of e w] flush.hyps by simp_all
  moreover have "set (payloads w') \<subseteq> set (payloads w)" using f set_drop_subset [of "nat n" "payloads w"] by simp
  ultimately show ?case using f flush.prems by (auto simp: queue_inv_def)
next
  case (send t data w res err w')
  have w: "rand_ok w" "queue_wf w" using send.prems by (simp_all add: queue_inv_def)
  note s = send_accounts [OF w(1) send.hyps(2)]
  have "queue_wf w'" "ev w' = ev w"
    using SendJSON_wf [OF w(2), of e "routeForType t" t "Inr data"] SendJSON_frame(1) [of e "routeForType t" t "Inr data" w] send.hyps(2)
    by simp_all
  moreover have "fst p \<in> payload_types" if "p \<in> set (payloads w')" for p
    using that s send.prems send.hyps(1) by (auto simp: queue_inv_def split: if_splits)
  ultimately show ?case using s send.prems by (auto simp: queue_inv_def)
qed

text \<open>The same for a run.\<close>

lemma path_accounts:
  assumes "agent_path e w ls v" and "queue_inv w"
  shows "queue_inv v \<and> payloads w @ accepted ls = delivered ls @ payloads v \<and> (\<exists>rs. wire v = wire w @ rs)
    \<and> (\<forall>p\<in>set (delivered ls). acked (ev w) e (length (wire w)) (wire v) p)
    \<and> (\<forall>t data. Sent t data None \<in> set ls \<longrightarrow> acked (ev w) e (length (wire w)) (wire v) (t, data))"
  using assms
proof (induction rule: agent_path.induct)
  case (here w)
  then show ?case by (simp add: accepted_def delivered_def)
next
  case (more w ls v l x)
  note IH = more.IH [OF more.prems]
  note st = step_accounts [OF more.hyps(2) IH [THEN conjunct1]]
  obtain rs ss where wires: "wire v = wire w @ rs" "wire x = wire v @ ss" using IH st by blast
  have ev: "ev v = ev w" using path_ev [OF more.hyps(1)] .
  have old: "acked (ev w) e (length (wire w)) (wire v) p \<Longrightarrow> acked (ev w) e (length (wire w)) (wire x) p" for p
    using acked_more wires(2) by metis
  have new: "acked (ev v) e (length (wire v)) (wire x) p \<Longrightarrow> acked (ev w) e (length (wire w)) (wire x) p" for p
    using acked_earlier [of "ev v" e "length (wire v)" "wire x" p "length (wire w)"] wires(1) ev by simp
  have "payloads w @ accepted (ls @ [l]) = delivered (ls @ [l]) @ payloads x"
    using IH st by (simp add: accepted_def delivered_def) (metis append.assoc)
  then show ?case using IH st wires old new by (auto simp: delivered_def)
qed


section \<open>The workers go on\<close>

lemma inv_Run_background: "never_cancelled w \<Longrightarrow> \<not> fst (run_state (inv_Run fuel i) w)"
  by (induction fuel arbitrary: w) (simp_all add: select_done_background run_simps)

lemma sw_Run_background: "never_cancelled w \<Longrightarrow> \<not> fst (run_state (sw_Run fuel e) w)"
  by (induction fuel arbitrary: w) (simp_all add: select_done_background sw_interval_def)

text \<open>Flushes one after the other.\<close>

fun flush_rounds :: "nat \<Rightarrow> engine \<Rightarrow> world \<Rightarrow> world" where
  "flush_rounds 0 e w = w"
| "flush_rounds (Suc n) e w = flush_rounds n e (snd (run_state (Flush e) w))"

lemma flush_rounds_drain:
  assumes "ready e token w" and "\<forall>n r. portal_ok (o_net (ev w) n r)" and "queue_inv w"
  shows "payloads (flush_rounds k e w) = drop (100 * k) (payloads w)"
  using assms
proof (induction k arbitrary: w)
  case (Suc k)
  define v where "v = snd (run_state (Flush e) w)"
  have "queue_wf w" "routable (queued w)" using Suc.prems(3) queue_inv_routable by (auto simp: queue_inv_def)
  then have q: "payloads v = drop 100 (payloads w)"
    using flush_when_ready [OF Suc.prems(1,2)] by (simp add: v_def payloads_def drop_map)
  obtain n err where "run_state (Flush e) w = ((n, err), v)" by (metis v_def surj_pair snd_conv)
  from step_accounts [OF agent_step.flush [OF this] Suc.prems(3)] have "queue_inv v" by simp
  moreover have "ready e token v" using Suc.prems(1) ready_cong [of v w e token] by (simp add: v_def)
  ultimately show ?case using Suc.IH [of v] Suc.prems(2) q by (simp add: v_def add.commute)
qed simp

section \<open>A concrete run\<close>

text \<open>The agent with two queued payloads flushes, and then sends a beat.\<close>

definition world_run :: world where
  "world_run = snd (run_state (SendJSON engine1 (routeForType HeartbeatType) HeartbeatType (Inr ''[2]''))
    (snd (run_state (Flush engine1) world1)))"

lemma world1_inv: "queue_inv world1"
  using world1_facts by (simp add: queue_inv_def payloads_def payload_types_def HeartbeatType_def InventoryType_def)

lemma world_run_path:
  "\<exists>n err. agent_path engine1 world1 [Flushed (take n (payloads world1)), Sent HeartbeatType ''[2]'' err] world_run"
proof -
  let ?f = "run_state (Flush engine1) world1"
  let ?s = "run_state (SendJSON engine1 (routeForType HeartbeatType) HeartbeatType (Inr ''[2]'')) (snd ?f)"
  have "agent_step engine1 world1 (Flushed (take (nat (fst (fst ?f))) (payloads world1))) (snd ?f)"
    by (rule agent_step.flush [where err = "snd (fst ?f)"]) simp
  moreover have "agent_step engine1 (snd ?f) (Sent HeartbeatType ''[2]'' (snd (fst ?s))) world_run"
    by (rule agent_step.send [where res = "fst (fst ?s)"]) (simp_all add: payload_routes(1) world_run_def)
  ultimately show ?thesis using agent_path.more [OF agent_path.more [OF agent_path.here]] by fastforce
qed

section \<open>Properties\<close>

text \<open>
  C2. No payload is lost, duplicated or reordered in the queue, however the steps of the workers interleave: what
  was queued at the beginning followed by what was queued since equals, in order, what flushes delivered
  followed by what is queued now, and the queue stays well formed with payloads the engine can route.
\<close>

theorem queue_conserved:
  assumes "agent_path e w ls v" and "queue_inv w"
  shows "queue_inv v \<and> payloads w @ accepted ls = delivered ls @ payloads v"
  using path_accounts [OF assms] by simp

theorem queue_conserved_witness:
  "\<exists>ls. payloads world1 @ accepted ls = delivered ls @ payloads world_run"
  using world_run_path queue_conserved [OF _ world1_inv] by blast

text \<open>
  C1. What a worker hands over is safe. In every run, a payload that was in the queue at the beginning, or that
  \<open>SendJSON\<close> took without an error or with the error that says queued, is still in the queue or was carried by a
  signed request that the Portal acknowledged during the run.
\<close>

theorem handed_over_is_safe:
  assumes "agent_path e w ls v" and "queue_inv w"
    and "(t, data) \<in> set (payloads w) \<or> (\<exists>err. Sent t data err \<in> set ls \<and> (err = None \<or> is_queued err))"
  shows "(t, data) \<in> set (payloads v) \<or> acked (ev w) e (length (wire w)) (wire v) (t, data)"
proof -
  note run = path_accounts [OF assms(1,2)]
  have "(t, data) \<in> set (accepted ls)" if "Sent t data err \<in> set ls" "is_queued err" for err
    using that unfolding accepted_def by force
  then have "(t, data) \<in> set (payloads w @ accepted ls) \<or> Sent t data None \<in> set ls" using assms(3) by auto
  moreover have "set (payloads w @ accepted ls) = set (delivered ls) \<union> set (payloads v)" using run by (metis set_append)
  ultimately show ?thesis using run by blast
qed

theorem handed_over_is_safe_witness:
  "(''inventory'', ''{}'') \<in> set (payloads world_run)
    \<or> acked (ev world1) engine1 (length (wire world1)) (wire world_run) (''inventory'', ''{}'')"
proof -
  have "(''inventory'', ''{}'') \<in> set (payloads world1)" by (simp add: payloads_def world1_facts(5))
  then show ?thesis using world_run_path handed_over_is_safe [OF _ world1_inv] by blast
qed

text \<open>
  C23. An agent that can reach a Portal that acknowledges every request works off any backlog: \<open>k\<close> flushes deliver the
  first \<open>100 * k\<close> payloads, so that a queue of any length is empty after finitely many.
\<close>

theorem backlog_drains:
  assumes "ready e token w" and "\<forall>n r. portal_ok (o_net (ev w) n r)" and "queue_inv w"
  shows "payloads (flush_rounds k e w) = drop (100 * k) (payloads w)
    \<and> payloads (flush_rounds (length (payloads w)) e w) = []"
  using flush_rounds_drain [OF assms] by simp

theorem backlog_drains_witness: "payloads (flush_rounds 1 engine1 world1) = []"
  using backlog_drains [OF world1_ready world1_facts(6) world1_inv, of 1] by (simp add: payloads_def world1_facts(5))

text \<open>
  The three loops run until their context is cancelled, and for nothing else: with a context that never is, no
  error of a turn and no reading ends one, however many turns are taken.
\<close>

theorem workers_never_stop:
  assumes "never_cancelled w"
  shows "\<not> fst (run_state (hb_Run fuel started h) w) \<and> \<not> fst (run_state (sw_Run fuel e) w)
    \<and> \<not> fst (run_state (inv_Run fuel i) w)"
  using hb_Run_background [OF assms] sw_Run_background [OF assms] inv_Run_background [OF assms] by blast

theorem workers_never_stop_witness: "\<not> fst (run_state (hb_Run 3 False hb_engine1) world_beat)"
  using workers_never_stop [OF world_beat_ready(4)] by blast

end
