(* ===== verification/Conformance.thy ===== *)
theory Conformance
  imports Unchanged Agent
begin

text \<open>
  The unit tests of the repository, run on the model: each lemma is named after a test function and states what the test asserts
  of the values it makes. Where a test compares two SHA-256 sums the lemma says that they differ or that the two texts
  are a collision.
\<close>

section \<open>\<open>heartbeat/heartbeat_test.go\<close>\<close>

lemma f_round_numeral [simp]:
  assumes "(numeral k :: int) \<le> 2 ^ 53"
  shows "f_round s (numeral k) = Fin False (numeral k)"
  using f_of_int_small [of "numeral k"] assms by (simp add: f_of_int_def f_round_def)

lemma f_round_one [simp]: "f_round s 1 = Fin False 1"
  using f_of_int_small [of 1] by (simp add: f_of_int_def f_round_def)

lemma TestCalculateHealth:
  "he_Status (CalculateHealth (Fin False 20) (Fin False 30) (Fin False 40)) = ''Healthy''"
  "he_Status (CalculateHealth (Fin False 80) (Fin False 40) (Fin False 30)) = ''Warning''"
  "he_Status (CalculateHealth (Fin False 95) (Fin False 40) (Fin False 30)) = ''Critical''"
  by (simp_all add: CalculateHealth_def health_step_def health_status_def f_of_int_def Let_def)

section \<open>\<open>inventory/inventory_test.go\<close>\<close>

lemma TestNormalizeStorageType:
  "normalizeStorageType (\<lambda>r. r) [] ''Samsung NVMe SSD'' = ''NVMe''"
  "normalizeStorageType (\<lambda>r. r) [] ''Solid State Drive'' = ''SSD''"
  "normalizeStorageType (\<lambda>r. r) [] ''Hard Disk Drive'' = ''HDD''"
  "normalizeStorageType (\<lambda>r. r) [] ''unknown'' = ''unknown''"
  by code_simp+

lemma TestBytesToGB: "bytesToGB (1024 * 1024 * 1024) = Fin False 1"
  by (simp add: bytesToGB_def f_of_int_def)

definition test_hardware :: "u64 \<Rightarrow> u64 \<Rightarrow> u64 \<Rightarrow> string \<Rightarrow> string \<Rightarrow> Hardware" where
  "test_hardware used available free address model = zero_Hardware\<lparr>
     hw_General := zero_General\<lparr>gn_MachineUUID := ''machine-1'', gn_SerialNumber := ''serial-1''\<rparr>,
     hw_RAM := zero_Memory\<lparr>rm_TotalBytes := 16 * 1024 * 1024 * 1024, rm_UsedBytes := used, rm_AvailableBytes := available\<rparr>,
     hw_Disk := zero_DiskInventory\<lparr>di_TotalBytes := 100, di_FreeBytes := free, di_Devices := [zero_StorageDevice\<lparr>
       sd_DeviceID := ''C:'', sd_Model := model, sd_TotalBytes := 100, sd_FreeBytes := free\<rparr>]\<rparr>,
     hw_NIC := [zero_NetworkAdapter\<lparr>na_MACAddress := ''00:11:22:33:44:55'', na_IPAddress := Some [address]\<rparr>]\<rparr>"

lemma sort_by_one [simp]: "sort_by key [] = []" "sort_by key [x] = [x]"
  by (simp_all add: sort_by_def sort_Slice_def)

lemma test_hardware_normal:
  "normalizedHardware u (test_hardware used available free address model) = test_hardware 0 0 0 [] model
    \<lparr>hw_NIC := [zero_NetworkAdapter\<lparr>na_MACAddress := ''00:11:22:33:44:55''\<rparr>],
     hw_Network := [zero_NetworkAdapter\<lparr>na_MACAddress := ''00:11:22:33:44:55''\<rparr>]\<rparr>"
  by (simp add: normalizedHardware_def test_hardware_def Let_def zero_Hardware_def zero_OperatingSystem_def zero_Users_def
      zero_Memory_def zero_DiskInventory_def zero_StorageDevice_def zero_NetworkAdapter_def quiet_ram_def quiet_disk_def
      quiet_device_def quiet_nic_def)

lemma test_hardware_ok:
  assumes "utf8_clean address = address" and "utf8_clean model = model"
  shows "text_ok (Hardware_json (test_hardware used available free address model))"
    and "list_all f64_ok (hardware_floats (test_hardware used available free address model))"
proof -
  let ?h = "test_hardware used available free address model"
  note ascii = utf8_clean_ascii is_ascii_def byte_val_def
  have "text_ok (General_json (hw_General ?h))" "text_ok (OperatingSystem_json (hw_OperatingSystem ?h))"
    "text_ok (CPU_json (hw_CPU ?h))" "text_ok (Memory_json (hw_RAM ?h))"
    "text_ok (Motherboard_json (hw_Motherboard ?h))" "text_ok (BIOS_json (hw_BIOS ?h))" "text_ok (Users_json (hw_Users ?h))"
    by (simp_all add: test_hardware_def zero_Hardware_def General_json_def OperatingSystem_json_def CPU_json_def Memory_json_def
        Motherboard_json_def BIOS_json_def Users_json_def tree_defs ascii jList_def
        zero_General_def zero_OperatingSystem_def zero_CPU_def zero_Motherboard_def zero_BIOS_def zero_Users_def zero_Memory_def)
  moreover have "text_ok (DiskInventory_json (hw_Disk ?h))"
    using assms(2) by (simp add: test_hardware_def DiskInventory_json_def StorageDevice_json_def tree_defs jList_def ascii
        zero_DiskInventory_def zero_StorageDevice_def)
  moreover have "text_ok (jList NetworkAdapter_json (hw_NIC ?h))"
    using assms(1) by (simp add: test_hardware_def NetworkAdapter_json_def tree_defs jList_def jSlice_def ascii
        zero_NetworkAdapter_def)
  moreover have "text_ok (Security_json (hw_Security ?h))"
    by (simp add: test_hardware_def zero_Hardware_def Security_json_def SecurityState_json_def tree_defs ascii zero_Security_def
        zero_SecurityState_def)
  moreover have "hw_Storage ?h = []" "hw_Network ?h = []" "hw_Monitor ?h = []" "hw_GPU ?h = []" "hw_SerialNumber ?h = []"
    by (simp_all add: test_hardware_def zero_Hardware_def)
  ultimately show "text_ok (Hardware_json ?h)" by (simp add: Hardware_json_def tree_defs jList_def ascii)
  show "list_all f64_ok (hardware_floats ?h)"
    by (simp add: hardware_floats_def test_hardware_def zero_Hardware_def zero_Memory_def zero_DiskInventory_def
        zero_StorageDevice_def device_floats_def)
qed

lemma TestFingerprintIgnoresVolatileValues:
  "\<exists>first third. inv_Fingerprint u (test_hardware 8 7 50 ''10.0.0.2'' ''NVMe'') = Inr first
    \<and> inv_Fingerprint u (test_hardware 15 1 10 ''10.0.0.3'' ''NVMe'') = Inr first
    \<and> inv_Fingerprint u (test_hardware 15 1 10 ''10.0.0.3'' ''Different SSD'') = Inr third
    \<and> (first \<noteq> third \<or> collision (normal_text u (test_hardware 8 7 50 ''10.0.0.2'' ''NVMe''))
        (normal_text u (test_hardware 15 1 10 ''10.0.0.3'' ''Different SSD'')))"
proof -
  let ?a = "test_hardware 8 7 50 ''10.0.0.2'' ''NVMe''" and ?b = "test_hardware 15 1 10 ''10.0.0.3'' ''NVMe''"
    and ?c = "test_hardware 15 1 10 ''10.0.0.3'' ''Different SSD''"
  have "list_all (\<lambda>s. utf8_clean s = s) [''10.0.0.2'', ''10.0.0.3'', ''NVMe'', ''Different SSD'']"
    by (simp add: utf8_clean_ascii is_ascii_def byte_val_def)
  then have ok: "text_ok (Hardware_json ?a)" "list_all f64_ok (hardware_floats ?a)" "text_ok (Hardware_json ?c)"
    "list_all f64_ok (hardware_floats ?c)" "list_all f64_ok (hardware_floats ?b)"
    using test_hardware_ok by simp_all
  have same: "inv_Fingerprint u ?b = inv_Fingerprint u ?a"
    unfolding inv_Fingerprint_def test_hardware_normal ..
  have "map sd_Model (di_Devices (hw_Disk (normalizedHardware u ?a))) \<noteq> map sd_Model (di_Devices (hw_Disk (normalizedHardware u ?c)))"
    unfolding test_hardware_normal by (simp add: test_hardware_def)
  then have "normalizedHardware u ?a \<noteq> normalizedHardware u ?c" by metis
  with same_fingerprint [OF ok(2,1,4,3), of u _ u] same show ?thesis
    using fingerprint_of_text [OF ok(2), of u] fingerprint_of_text [OF ok(4), of u] by auto
qed

lemma TestDiff:
  "length (DiffHardware u
    (Some (zero_Hardware\<lparr>hw_RAM := zero_Memory\<lparr>rm_Modules := [zero_MemoryModule\<lparr>mm_PartNumber := ''old''\<rparr>]\<rparr>,
       hw_BIOS := zero_BIOS\<lparr>bi_Version := ''1''\<rparr>\<rparr>))
    (zero_Hardware\<lparr>hw_RAM := zero_Memory\<lparr>rm_Modules := [zero_MemoryModule\<lparr>mm_PartNumber := ''new''\<rparr>]\<rparr>,
       hw_BIOS := zero_BIOS\<lparr>bi_Version := ''2''\<rparr>\<rparr>)) = 2"
  by (simp add: DiffHardware_def normalizedHardware_def sections_def zero_Hardware_def Let_def zero_Memory_def quiet_ram_def
     ram_equal_def zero_MemoryModule_def zero_BIOS_def zero_f_def)

section \<open>\<open>software/software_test.go\<close>\<close>

definition test_item :: "string \<Rightarrow> string \<Rightarrow> string \<Rightarrow> string \<Rightarrow> string \<Rightarrow> Installation" where
  "test_item name display publisher version source = \<lparr>in_Name = name, in_DisplayName = display, in_Version = version,
    in_Publisher = publisher, in_Architecture = ''x64'', in_InstallDate = None, in_InstallLocation = [], in_UninstallString = [],
    in_QuietUninstallString = [], in_RegistryKey = [], in_Source = source, in_Scope = [], in_Evidence = [],
    in_FirstSeen = zero_time, in_LastSeen = zero_time\<rparr>"

lemma TestFingerprintDeterministic:
  "sw_Fingerprint (\<lambda>r. r) (test_item ''App'' [] ''Vendor'' ''1'' []) = sw_Fingerprint (\<lambda>r. r) (test_item '' app '' [] '' vendor '' ''1'' [])"
  "length (sw_Fingerprint u (test_item ''App'' [] ''Vendor'' ''1'' [])) = 64"
proof -
  have "map (\<lambda>f. Normalize (\<lambda>r. r) (f (NormalizeInstallation (test_item ''App'' [] ''Vendor'' ''1'' []))))
      [in_Name, in_Publisher, in_Version, in_Architecture] =
    map (\<lambda>f. Normalize (\<lambda>r. r) (f (NormalizeInstallation (test_item '' app '' [] '' vendor '' ''1'' []))))
      [in_Name, in_Publisher, in_Version, in_Architecture]"
    by code_simp
  then show "sw_Fingerprint (\<lambda>r. r) (test_item ''App'' [] ''Vendor'' ''1'' []) = sw_Fingerprint (\<lambda>r. r) (test_item '' app '' [] '' vendor '' ''1'' [])"
    unfolding sw_Fingerprint_def Let_def list.map by (simp only: list.inject)
  show "length (sw_Fingerprint u (test_item ''App'' [] ''Vendor'' ''1'' [])) = 64"
    by (simp add: sw_Fingerprint_def Let_def)
qed

text \<open>Two records of one application become one, the machine-wide one, and the order is that of the names.\<close>

lemma clean_words: "\<forall>t\<in>set ts. t \<noteq> [] \<and> plain_word t \<Longrightarrow> clean (Join ts '' '') = Join ts '' ''"
  by (simp add: clean_def TrimSpace_Join Fields_Join plain_word_space_free)

lemma clean_word: "plain_word t \<Longrightarrow> clean t = t"
  using clean_words [of "if t = [] then [] else [t]"] by (cases "t = []") simp_all

lemma TestNormalizeAndDeduplicate:
  "\<exists>a b. NormalizeAndDeduplicate (\<lambda>r. r) (\<lambda>xs. xs)
      [test_item ''  Contoso App '' ''Contoso App'' ''Contoso'' ''1.0'' ''user'',
       test_item ''Contoso App'' ''Contoso App'' ''Contoso'' ''1.0'' ''REGISTRY_MACHINE_64'',
       test_item ''Zeta'' ''Zeta'' ''Zeta'' ''2.0'' ''REGISTRY_MACHINE_64''] = [a, b]
    \<and> in_Name a = ''Contoso App'' \<and> in_Source a = ''REGISTRY_MACHINE_64'' \<and> in_Name b = ''Zeta''
  \<or> collision ''contoso app|contoso|1.0|x64'' ''zeta|zeta|2.0|x64''"
proof -
  define x y z where items: "x = test_item ''  Contoso App '' ''Contoso App'' ''Contoso'' ''1.0'' ''user''"
    "y = test_item ''Contoso App'' ''Contoso App'' ''Contoso'' ''1.0'' ''REGISTRY_MACHINE_64''"
    "z = test_item ''Zeta'' ''Zeta'' ''Zeta'' ''2.0'' ''REGISTRY_MACHINE_64''"
  define x' where x': "x' = test_item ''Contoso App'' ''Contoso App'' ''Contoso'' ''1.0'' ''user''"
  define p q where hashes: "p = hex_EncodeToString (sha256_Sum256 ''contoso app|contoso|1.0|x64'')"
    "q = hex_EncodeToString (sha256_Sum256 ''zeta|zeta|2.0|x64'')"
  have trimmed: "TrimSpace ''  Contoso App '' = TrimSpace ''Contoso App''" by code_simp
  have "clean ''  Contoso App '' = ''Contoso App''" "clean ''Contoso App'' = ''Contoso App''" "clean ''Contoso'' = ''Contoso''"
    "clean ''1.0'' = ''1.0''" "clean ''user'' = ''user''" "clean ''REGISTRY_MACHINE_64'' = ''REGISTRY_MACHINE_64''"
    "clean ''Zeta'' = ''Zeta''" "clean ''2.0'' = ''2.0''" "clean ''x64'' = ''x64''" "clean [] = []"
    using clean_words [of "[''Contoso'', ''App'']"] by (simp_all add: clean_word plain_word_def clean_def [of "''  Contoso App ''"] trimmed) (simp_all add: clean_def)
  note clean = this
  have norm: "NormalizeInstallation x = x'" "NormalizeInstallation x' = x'" "NormalizeInstallation y = y"
    "NormalizeInstallation z = z"
    unfolding items x' by (rule Installation.equality; simp add: test_item_def clean)+
  have lower: "Normalize (\<lambda>r. r) ''Contoso App'' = ''contoso app''" "Normalize (\<lambda>r. r) ''Zeta'' = ''zeta''"
    "Normalize (\<lambda>r. r) ''Contoso'' = ''contoso''" "Normalize (\<lambda>r. r) ''1.0'' = ''1.0''"
    "Normalize (\<lambda>r. r) ''2.0'' = ''2.0''" "Normalize (\<lambda>r. r) ''x64'' = ''x64''"
    by code_simp+
  have fp: "sw_Fingerprint (\<lambda>r. r) x' = p" "sw_Fingerprint (\<lambda>r. r) y = p" "sw_Fingerprint (\<lambda>r. r) z = q"
    unfolding sw_Fingerprint_def norm Let_def hashes by (simp_all add: items x' test_item_def lower)
  have fields: "in_Name x' = ''Contoso App''" "in_Name y = ''Contoso App''" "in_Name z = ''Zeta''" "in_Source x' = ''user''"
    "in_Source y = ''REGISTRY_MACHINE_64''" "in_Source z = ''REGISTRY_MACHINE_64''"
    by (simp_all add: items x' test_item_def)
  show ?thesis
  proof (cases "p = q")
    case True
    then show ?thesis using same_hash unfolding hashes by blast
  next
    case False
    have "''contoso app'' < ''zeta''" by simp
    then have "NormalizeAndDeduplicate (\<lambda>r. r) (\<lambda>xs. xs) [x, y, z] = [y, z]"
      using False
      by (simp add: NormalizeAndDeduplicate_def dedup_step_def Let_def norm fp fields sourceRank_def sort_Slice_def sw_less_def lower
          del: NormalizeInstallation_fields)
    then show ?thesis using fields unfolding items by simp
  qed
qed

lemma TestNormalizeDropsEmptyNames:
  "in_Name (NormalizeInstallation (test_item [] [] ''Vendor'' [] [])) = []"
  by code_simp

section \<open>\<open>security/signing_test.go\<close>\<close>

text \<open>The test signs with the operating system's random source, which works.\<close>

lemma TestSignRequest:
  assumes "rand_ok w" and "rq_body r = Body ''payload'' None None"
  shows "\<exists>s. fst (run_state (SignRequest r ''secret'' (1700000000 * Second)) w) = Inr s
    \<and> Header_Get s ''X-ITPortal-Timestamp'' = ''1700000000''
    \<and> Header_Get s ''X-ITPortal-Nonce'' \<noteq> [] \<and> Header_Get s ''X-ITPortal-Signature'' \<noteq> []"
proof -
  obtain s where s: "fst (run_state (SignRequest r ''secret'' (1700000000 * Second)) w) = Inr s"
    using SignRequest_ok [OF _ assms(1), of r] assms(2) by (auto simp: readable_def)
  note result = SignRequest_result [OF s]
  obtain b where b: "fst (run_state rand_Read w) = Inr b" "Header_Get s ''X-ITPortal-Nonce'' = hex_EncodeToString b"
    using result(8) by blast
  then have "length b = 16" using assms(1) by (auto simp: env_rand_ok_def rand_Read_def dest: spec [of _ "n_rand w"])
  then have "length (Header_Get s ''X-ITPortal-Nonce'') = 32" using b by simp
  moreover have "length (Header_Get s ''X-ITPortal-Signature'') = 64" using result(1) by (simp add: signature_valid_def)
  moreover have "FormatInt 1700000000 = ''1700000000''" by (simp add: FormatInt_def nat_digits.simps digit_char_def)
  ultimately show ?thesis using s result(7) by fastforce
qed

section \<open>\<open>sync/engine_test.go\<close>\<close>

lemma TestEncodePayload:
  "encodePayload E d [] = (d, [])" "encodePayload E d ''gzip'' = (o_gzip E d, ''gzip'')"
  by (simp_all add: encodePayload_def)

lemma TestRouteForType:
  "routeForType HeartbeatType = ''/api/agent/heartbeat''" "routeForType InventoryType = ''/api/agent/inventory''"
  "routeForType ''future'' = []"
  by code_simp+

section \<open>\<open>bootstrap/bootstrap_test.go\<close>\<close>

definition test_response :: string where
  "test_response = ''{'' @ quoted ''configuration'' @ '':{'' @ quoted ''heartbeat_interval'' @ '':'' @ quoted ''5m'' @ ''},''
     @ quoted ''configuration_version'' @ '':'' @ quoted ''7'' @ ''}''"

lemma TestConfigurationResponse:
  "\<exists>r. decode_response test_response = Some r
    \<and> pr_Configuration r = ''{'' @ quoted ''heartbeat_interval'' @ '':'' @ quoted ''5m'' @ ''}'' \<and> pr_ConfigurationVersion r = ''7''"
proof -
  have "json_parse test_response = Some (JObj [(''configuration'', JObj [(''heartbeat_interval'', JStr ''5m'')]), (''configuration_version'', JStr ''7'')])"
    unfolding test_response_def json_parse_def by (simp add: json_eval)
  moreover have "raw_object test_response = [(''configuration'', ''{'' @ quoted ''heartbeat_interval'' @ '':'' @ quoted ''5m'' @ ''}''), (''configuration_version'', quoted ''7'')]"
    unfolding test_response_def raw_object_def by (simp add: json_eval raw_numeral)
  ultimately show ?thesis
  by (simp add: decode_response_def Unmarshal_object_def field_eval)
qed

end
