(* ===== verification/EntryPoint.thy ===== *)
theory EntryPoint
  imports App
begin

text \<open>
  The entry point \<open>cmd/itportal-agent/main.go\<close>: the arguments go to \<open>app.Run\<close>, and its error to the standard
  error stream and into the exit status. What the process prints and how it exits are the result of \<open>main\<close> here.
\<close>

section \<open>The process\<close>

text \<open>
  The text on the standard error stream and the exit status. The slice \<open>os.Args[1:]\<close> panics if there is not even a
  program name; then there is no result.
\<close>

definition main :: "platform \<Rightarrow> string list \<Rightarrow> (string \<times> int) option go" where
  "main P argv =
    (case argv of
       [] \<Rightarrow> State_Monad.return None
     | _ # arguments \<Rightarrow> do {
         err \<leftarrow> app_Run P arguments;
         State_Monad.return (Some (case err of
             Some e \<Rightarrow> (''error: '' @ error_msg e @ [newline], 1)
           | None \<Rightarrow> ([], 0)))
       })"

section \<open>Passes print nothing\<close>

lemma attempts_stdout [simp]: "stdout (snd (run_state (attempts c b n r l) w)) = stdout w"
  by (induction n arbitrary: r l w) (simp_all split: sum.split)

lemma Client_Do_stdout [simp]: "stdout (snd (run_state (Client_Do c r) w)) = stdout w"
  by (simp add: Client_Do_def split: body.split option.split)

lemma send_stdout [simp]: "stdout (snd (run_state (send e ep t p q) w)) = stdout w"
  by (simp add: send_def split: option.split sum.split)

lemma SendJSON_stdout [simp]: "stdout (snd (run_state (SendJSON e ep t m) w)) = stdout w"
  by (simp add: SendJSON_def split: sum.split)

lemma flush_items_stdout [simp]: "stdout (snd (run_state (flush_items e its n) w)) = stdout w"
  by (induction its arbitrary: n w) (simp_all split: option.split)

lemma Flush_stdout [simp]: "stdout (snd (run_state (Flush e) w)) = stdout w"
  by (simp add: Flush_def split: sum.split)

lemma inv_delivered_stdout [simp]: "stdout (snd (run_state (inv_delivered st rep h cs) w)) = stdout w"
  by (simp add: inv_delivered_def Let_def)

lemma inv_RunOnce_stdout [simp]: "stdout (snd (run_state (inv_RunOnce e) w)) = stdout w"
  by (simp add: inv_RunOnce_def inv_collect_def inv_compare_def inv_upload_def inv_send_def Let_def split: option.split sum.split)

text \<open>A flush only takes from the queue.\<close>

lemma flush_items_takes: "set (queue_tab (snd (run_state (flush_items e its n) w))) \<subseteq> set (queue_tab w)"
proof (induction its arbitrary: n w)
  case (Cons it its)
  have del: "set (queue_tab (snd (run_state (DeleteQueueItem i) v))) \<subseteq> set (queue_tab v)" for i v
    by (auto simp: DeleteQueueItem_def split: option.split)
  let ?s = "run_state (send e (routeForType (Type it)) (Type it) (Payload it) False) w"
  show ?case
    using Cons.IH del [of "ID it" "snd ?s"] by (auto split: option.split)
qed simp

lemma Flush_takes: "set (queued (snd (run_state (Flush e) w))) \<subseteq> set (queued w)"
proof -
  have "set (queue_tab (snd (run_state (Flush e) w))) \<subseteq> set (queue_tab w)"
    using flush_items_takes [of e _ 0 "snd (run_state (Pending 100) w)"] by (simp add: Flush_def split: sum.split)
  then show ?thesis by (auto simp: pending_rows_def)
qed

section \<open>The inventory command as a process\<close>

text \<open>The command line picks the command whatever the case of its name and whatever follows it.\<close>

lemma run_inventory:
  assumes "ToLower (o_lower (ev w)) cmd = ''inventory''"
  shows "run_state (app_Run P (cmd # rest)) w = run_state (withBootstrap P inventory_command) w"
  using assms by (simp add: app_Run_def Let_def)

text \<open>What the command leaves behind, seen from the world it starts in.\<close>

definition safe_exit :: "world \<Rightarrow> world \<Rightarrow> bool" where
  "safe_exit w w' \<longleftrightarrow>
    (\<exists>text result fp. stdout w' = stdout w @ [text @ ''Result: '' @ result @ [newline]]
      \<and> result \<in> {''SENT'', ''QUEUED'', ''SKIPPED''} \<and> kv w' last_fp = Some fp)"

definition unsafe_exit :: "world \<Rightarrow> world \<Rightarrow> bool" where
  "unsafe_exit w w' \<longleftrightarrow> kv w' last_fp = kv w last_fp \<and> history_tab w' = history_tab w \<and> set (queued w') \<subseteq> set (queued w)"

lemma inventory_command_effect:
  assumes "sql_ok w" and "rand_ok w" and "run_state (inventory_command s) w = (err, w')"
  shows "if err = None then safe_exit w w' else unsafe_exit w w'"
proof -
  define e where "e = \<lparr>inv_Sync = transport (ev w) (sv_Config s) (30 * Second), inv_Version = Version\<rparr>"
  obtain rep x v where pass: "run_state (inv_RunOnce e) w = ((rep, x), v)" by (metis surj_pair)
  note exit = inventory_command_exit [OF assms(1,2) pass [unfolded e_def] assms(3)]
  have v: "stdout v = stdout w" using inv_RunOnce_stdout [of e w] pass by simp
  have w': "config_tab w' = config_tab v" "queue_tab w' = queue_tab v" "history_tab w' = history_tab v"
    using assms(3) pass by (auto simp: inventory_command_def e_def Printf_def)
  show ?thesis
  proof (cases err)
    case None
    then show ?thesis using exit v unfolding safe_exit_def by (simp only: if_P) metis
  next
    case (Some er)
    have fl: "set (queued (inv_flushed e w)) \<subseteq> set (queued w)"
      using Flush_takes [of "inv_Sync e" "snd (run_state ctx_Err (snd (run_state Time_Now w)))"]
      by (simp add: inv_flushed_def)
    have "ir_Result rep \<notin> {''SENT'', ''QUEUED'', ''SKIPPED''}" using exit Some by simp
    then have "kv v last_fp = kv w last_fp \<and> history_tab v = history_tab w \<and> set (queued v) \<subseteq> set (queued w)"
      using inv_RunOnce_outcome [OF assms(1,2), of e] fl unfolding pass
      by (auto simp: inv_outcome_def Let_def last_fp_def split: if_splits)
    then show ?thesis using Some w' by (simp add: unsafe_exit_def)
  qed
qed

lemma withBootstrap_inventory:
  assumes "sql_ok w" and "rand_ok w" and "run_state (withBootstrap P inventory_command) w = (err, w')"
  shows "if err = None then safe_exit w w' else unsafe_exit w w'"
proof (cases "fst (run_state (initialize P) w)")
  case (Inl er)
  then show ?thesis using assms(3) by (auto simp: withBootstrap_def unsafe_exit_def)
next
  case (Inr cfg)
  define x where "x = snd (run_state (initialize P) w)"
  define v where "v = x\<lparr>ev := (ev x)\<lparr>o_cancel := None\<rparr>\<rparr>"
  let ?s = "New_service (ev w) cfg Version"
  have x: "ev x = ev w" "config_tab x = config_tab w" "queue_tab x = queue_tab w" "history_tab x = history_tab w"
    "stdout x = stdout w"
    by (simp_all add: x_def)
  have v: "sql_ok v" "rand_ok v" "config_tab v = config_tab w" "queue_tab v = queue_tab w" "history_tab v = history_tab w"
    "stdout v = stdout w"
    using assms(1,2) by (simp_all add: v_def x env_sql_ok_def env_rand_ok_def)
  obtain v' where run: "run_state (inventory_command ?s) v = (err, v')" and w': "w' = v'\<lparr>ev := ev x\<rparr>"
    using assms(3) Inr by (simp add: withBootstrap_def run_background x_def [symmetric] x v_def prod_eq_iff)
  show ?thesis
    using inventory_command_effect [OF v(1,2) run] v
    by (cases err) (simp_all add: w' safe_exit_def unsafe_exit_def)
qed

text \<open>An agent that was never registered.\<close>

lemma unregistered_RunOnce:
  assumes "sql_ok w" and "never_cancelled w" and "kv w ''agent_uuid'' = None"
  shows "snd (fst (run_state (inv_RunOnce e) w)) = Some ErrNotRegistered"
  using assms by (simp add: inv_RunOnce_def run_simps inv_failure_def Let_def)

lemma unregistered_inventory:
  "fst (run_state (withBootstrap platform1 inventory_command) world0) = Some ErrNotRegistered"
proof -
  have fs: "fs_ok world0" "config_file world0 = None" by (simp_all add: world0_def env0_def env_fs_ok_def)
  have yaml: "o_yaml_marshal (ev world0) Default = Inr ''yaml''" by (simp add: world0_def env0_def)
  have "fst (run_state LoadOrCreate world0) = (Default, None)"
    using fs Save_ok(1) [of _ Default "''yaml''"] yaml by (simp add: LoadOrCreate_def ReadFile_def run_simps)
  moreover have "fst (run_state (logger_New platform1 l) v) = None" if "fs_ok v" for l v
    using that by (simp add: logger_New_def platform1_def run_simps)
  moreover have "fst (run_state (run_schema n) v) = None" if "sql_ok v" for n v
    using that by (induction n arbitrary: v) (simp_all add: run_simps)
  ultimately have "fst (run_state (initialize platform1) world0) = Inr Default"
    using fs(1) by (simp add: initialize_def Open_def run_simps)
  moreover define v where "v = snd (run_state (initialize platform1) world0)\<lparr>ev := ev world0\<lparr>o_cancel := None\<rparr>\<rparr>"
  moreover have "sql_ok v" "never_cancelled v" "kv v ''agent_uuid'' = None"
    using world0_ok(1) by (simp_all add: v_def env_sql_ok_def env_background_def) (simp add: world0_def tab_value_def)
  ultimately show ?thesis
    using unregistered_RunOnce [of v]
    by (simp add: withBootstrap_def run_background inventory_command_def ignore_queued_def Printf_def)
qed

section \<open>Properties\<close>

text \<open>
  C13. The exit status of the inventory command can be relied on. Whatever the spelling of its name and whatever
  arguments follow, the process that exits with 0 wrote nothing on the standard error stream, its one line of output ends
  with a result of SENT, QUEUED or SKIPPED, and the fingerprint is remembered; the process that exits with 1 wrote one
  error line, and the remembered fingerprint and the history are as they were, nothing was put in the queue, so that the next
  run tries again.
\<close>

theorem inventory_exit:
  assumes "sql_ok w" and "rand_ok w" and "ToLower (o_lower (ev w)) cmd = ''inventory''"
    and "run_state (main P (prog # cmd # rest)) w = (Some (out, status), w')"
  shows "status = 0 \<and> out = [] \<and> safe_exit w w'
    \<or> status = 1 \<and> (\<exists>msg. out = ''error: '' @ msg @ [newline]) \<and> unsafe_exit w w'"
proof -
  obtain err where run: "run_state (withBootstrap P inventory_command) w = (err, w')"
    and out: "(out, status) = (case err of Some e \<Rightarrow> (''error: '' @ error_msg e @ [newline], 1) | None \<Rightarrow> ([], 0))"
    using assms(4) run_inventory [OF assms(3), of P rest] by (auto simp: main_def prod_eq_iff)
  show ?thesis
    using withBootstrap_inventory [OF assms(1,2) run] out by (cases err) auto
qed

theorem inventory_exit_witness:
  "\<exists>out w'. run_state (main platform1 [''agent'', ''Inventory'']) world0 = (Some (out, 1), w') \<and> unsafe_exit world0 w'"
proof -
  obtain out status w' where run: "run_state (main platform1 [''agent'', ''Inventory'']) world0 = (Some (out, status), w')"
    by (auto simp: main_def prod_eq_iff)
  have "ToLower (\<lambda>r. r) ''Inventory'' = ''inventory''" by code_simp
  then have lower: "ToLower (o_lower (ev world0)) ''Inventory'' = ''inventory''" by (simp add: world0_def env0_def)
  then have "status = 1"
    using run unregistered_inventory run_inventory [OF lower, of platform1 "[]"] by (auto simp: main_def)
  then show ?thesis using inventory_exit [OF world0_ok(1) _ lower run] run world0_ok by auto
qed

end
