(* ===== verification/FirstStart.thy ===== *)
theory FirstStart
  imports App
begin

text \<open>
  The first start of the service from end to end: the bootstrap loop of \<open>app.go\<close> registers the agent
  (\<open>bootstrap.go\<close>), the transport of the workers is built from the same configuration (\<open>sync/engine.go\<close>), and the
  heartbeat worker (\<open>heartbeat.go\<close>) sends its first beat with the token of the registration.
\<close>

section \<open>The registration behind a registered agent\<close>

text \<open>
  The request at some position of the wire is the one the Portal answered with the identity and the token that the tables
  hold.
\<close>

definition registered_by :: "service \<Rightarrow> world \<Rightarrow> portalResponse \<Rightarrow> bool" where
  "registered_by s w r \<longleftrightarrow>
    (\<exists>k<length (wire w). answered (ev w) k (wire w ! k) r \<and> rq_method (wire w ! k) = ''POST''
      \<and> rq_url (wire w ! k) = boot_url s ''/api/agent/register'')
    \<and> pr_AgentUUID r \<noteq> [] \<and> kv w ''agent_uuid'' = Some (pr_AgentUUID r)
    \<and> pr_AgentToken r \<noteq> [] \<and> holds_secret w ''agent_token'' (pr_AgentToken r)"

text \<open>A Portal whose tokens fit the data protection interface.\<close>

definition short_tokens :: "env \<Rightarrow> bool" where
  "short_tokens E \<longleftrightarrow> (\<forall>k q r. answered E k q r \<longrightarrow> length (pr_AgentToken r) < 2 ^ 31)"

lemma EnsureRegistered_registers:
  assumes "rand_ok w" and "dpapi_ok w" and "short_tokens (ev w)" and "kv w ''agent_uuid'' = None"
    and "run_state (EnsureRegistered s) w = ((s', None), w')"
  shows "\<exists>r. registered_by s w' r"
proof -
  obtain p r v where st: "v = snd (run_state (registrationPayload s) (snd (run_state Registered w)))"
    "fst (run_state (boot_request s ''POST'' ''/api/agent/register'' [] (Some p)) v) = Inr r"
    "pr_AgentUUID r \<noteq> []" "pr_AgentToken r \<noteq> []"
    "fst (run_state (saveRegistration r) (snd (run_state (boot_request s ''POST'' ''/api/agent/register'' [] (Some p)) v))) = None"
    "w' = snd (run_state (Save (sv_Config s')) (snd (run_state (saveRegistration r)
        (snd (run_state (boot_request s ''POST'' ''/api/agent/register'' [] (Some p)) v)))))"
    using Register_stages [OF EnsureRegistered_unregistered [OF assms(4,5)]] by blast
  define x where "x = snd (run_state (boot_request s ''POST'' ''/api/agent/register'' [] (Some p)) v)"
  have v: "ev v = ev w" "wire v = wire w" by (simp_all add: st(1))
  obtain rs req where wire: "wire x = wire w @ rs @ [req]" "answered (ev w) (length (wire w @ rs)) req r"
    "rq_method req = ''POST''" "rq_url req = boot_url s ''/api/agent/register''"
    using boot_request_spec [OF _ st(2)] assms(1) v unfolding x_def by auto
  note stored = saveRegistration_stores [OF st(5), folded x_def]
  have x: "ev x = ev w" by (simp add: x_def v)
  have w': "ev w' = ev w" "config_tab w' = config_tab (snd (run_state (saveRegistration r) x))" "wire w' = wire x"
    unfolding st(6) x_def by (simp_all add: v)
  have "length (pr_AgentToken r) < 2 ^ 31" using assms(3) wire(2) unfolding short_tokens_def by blast
  then have "kv w' ''agent_uuid'' = Some (pr_AgentUUID r)" "holds_secret w' ''agent_token'' (pr_AgentToken r)"
    using stored(1,3) assms(2) x w' st(4) by simp_all
  moreover have "length (wire w @ rs) < length (wire w')" "wire w' ! length (wire w @ rs) = req"
    by (simp_all add: w'(3) wire(1) nth_append)
  ultimately have "registered_by s w' r"
    unfolding registered_by_def w'(1) using wire(2-4) st(3,4)
    by (intro conjI exI [of _ "length (wire w @ rs)"]) simp_all
  then show ?thesis by blast
qed

text \<open>An attempt that fails leaves the agent unregistered, so the next one starts over.\<close>

lemma EnsureRegistered_fails:
  assumes "sql_ok w" and "rand_ok w" and "dpapi_ok w" and "short_tokens (ev w)" and "kv w ''agent_uuid'' = None"
    and "run_state (EnsureRegistered s) w = ((s', Some err), w')"
  shows "s' = s" and "kv w' ''agent_uuid'' = None"
proof -
  have saved: "fst (run_state (saveRegistration r) (snd (run_state (boot_request s m ep t p) x))) = None"
    if "ev x = ev w" "fst (run_state (boot_request s m ep t p) x) = Inr r" "pr_AgentToken r \<noteq> []" for m ep t p x r
  proof -
    have "length (pr_AgentToken r) < 2 ^ 31"
      using boot_request_spec [OF _ that(2)] assms(2,4) that(1) unfolding short_tokens_def by auto
    then show ?thesis using saveRegistration_ok assms(1,3) that(1,3) by simp
  qed
  have R: "run_state (EnsureRegistered s) w = run_state (Register s) (snd (run_state Registered w))"
    using assms(1,5) by (simp add: EnsureRegistered_def Registered_def run_simps)
  show "s' = s" and "kv w' ''agent_uuid'' = None"
    using assms(5,6) saved unfolding R
    by (auto simp: Register_def Let_def split: if_splits sum.splits option.splits)
qed

lemma retry_registers:
  assumes "run_state (retry fuel delay s) w = (Some (s', None), w')"
    and "sql_ok w" and "rand_ok w" and "dpapi_ok w" and "short_tokens (ev w)" and "kv w ''agent_uuid'' = None"
  shows "\<exists>r. registered_by s w' r"
  using assms
proof (induction fuel arbitrary: delay w)
  case (Suc fuel)
  define r where "r = run_state (EnsureRegistered s) w"
  define d where "d = run_state (select_done delay) (snd r)"
  have ev: "ev (snd d) = ev w" by (simp add: d_def r_def)
  show ?case
  proof (cases "snd (fst r)")
    case None
    then have "run_state (EnsureRegistered s) w = ((s', None), w')"
      using Suc.prems(1) by (auto simp: r_def [symmetric] prod_eq_iff)
    then show ?thesis using EnsureRegistered_registers Suc.prems(3-6) by blast
  next
    case (Some x)
    then have "fst (fst r) = s" "kv (snd r) ''agent_uuid'' = None"
      using EnsureRegistered_fails [OF Suc.prems(2-6), of s "fst (fst r)" x "snd r"] unfolding r_def
      by (simp_all add: prod_eq_iff)
    moreover from this(2) have "kv (snd d) ''agent_uuid'' = None" by (simp add: d_def)
    moreover have "\<not> fst d"
    proof
      assume "fst d"
      then have "fst (run_state ctx_Err (snd d)) = Some CtxCanceled"
        using select_done_cancelled [of delay "snd r"] by (simp add: d_def)
      then show False using Suc.prems(1) Some \<open>fst d\<close> by (simp add: r_def [symmetric] d_def [symmetric] prod_eq_iff)
    qed
    ultimately show ?thesis
      using Suc.IH [of "next_delay delay" "snd d"] Suc.prems Some by (simp add: r_def [symmetric] d_def [symmetric] ev)
  qed
qed simp

section \<open>The first beat\<close>

text \<open>With the token in the tables and a Portal that acknowledges, the last request of a beat carries that token.\<close>

lemma hb_send_carries:
  assumes "ready (hb_Sync e) token w" and "\<forall>n r. portal_ok (o_net (ev w) n r)"
    and "kv w ''agent_uuid'' = Some u" and "u \<noteq> []" and "o_hostname (ev w) = Inr host"
  shows "\<exists>res w' p data. run_state (hb_send e) w = ((res, None), w') \<and> hb_marshal p = Inr data \<and> hp_AgentUUID p = u
    \<and> wire w' \<noteq> [] \<and> carries (ev w) (hb_Sync e) token ''/api/agent/heartbeat'' data (List.last (wire w'))"
proof -
  define v where "v = snd (run_state (Flush (hb_Sync e)) (snd (run_state (Get ''heartbeat_last_error'') w)))"
  have v: "ev v = ev w" "config_tab v = config_tab w" by (simp_all add: v_def)
  have sq: "sql_ok v" using assms(1) v by (simp add: ready_def)
  obtain p where p: "fst (run_state (hb_collect e) v) = Inr p" "hp_AgentUUID p = u"
    using assms(3-5) v sq by (simp add: hb_collect_def run_simps)
  define c where "c = snd (run_state (hb_collect e) v)"
  obtain data where data: "hb_marshal p = Inr data" using hb_marshal_finite hb_collect_finite [OF p(1)] by blast
  define s where "s = run_state (send (hb_Sync e) ''/api/agent/heartbeat'' HeartbeatType data True) c"
  have "ready (hb_Sync e) token c" using assms(1) ready_cong [of c w] v by (simp add: c_def)
  then obtain rs where rs: "wire (snd s) = wire c @ rs" "rs \<noteq> []"
    "\<forall>r\<in>set rs. carries (ev c) (hb_Sync e) token ''/api/agent/heartbeat'' data r"
    "snd (fst s) = None \<longleftrightarrow> portal_ok (o_net (ev c) (length (wire c) + (length rs - 1)) (List.last rs))"
    unfolding s_def by (rule send_ready)
  have c: "ev c = ev w" by (simp add: c_def v)
  have run: "run_state (hb_send e) w = (fst s, snd (run_state (hb_persistSuccess (fst (fst s)) (hp_Health p)) (snd s)))"
    using p(1) rs(4) assms(2)
    by (simp add: hb_send_def v_def [symmetric] c_def [symmetric] SendJSON_def data s_def [symmetric] c)
  moreover have "fst s = (fst (fst s), None)" using rs(4) assms(2) c by (simp add: prod_eq_iff)
  moreover have "List.last (wire c @ rs) \<in> set rs" using rs(2) by simp
  ultimately show ?thesis
    using rs(1-3) data p(2) c
    by (intro exI [of _ "fst (fst s)"] exI [of _ "snd (run_state (hb_persistSuccess (fst (fst s)) (hp_Health p)) (snd s))"]
        exI [of _ p] exI [of _ data]) simp
qed

section \<open>Properties\<close>

text \<open>
  C3. From the first start to the first beat. When the service of an agent that was never registered starts its workers, the Portal has
  answered a registration request on the wire with an identity and a token, and the first beat of the heartbeat worker is
  delivered: its last request goes to the same Portal, carries a payload under that identity, and is signed with and bears
  that token.
\<close>

theorem first_start_delivers:
  assumes "sql_ok w" and "rand_ok w" and "dpapi_ok w" and "short_tokens (ev w)" and "kv w ''agent_uuid'' = None"
    and "o_hostname (ev w) = Inr host" and "\<forall>n q. portal_ok (o_net (ev w) n q)"
    and "\<forall>ep. \<exists>path. o_url (ev w) (TrimRight (PortalURL cfg) (CHR ''/'') @ ep) = Inr path"
    and "run_state (service_start fuel cfg) w = (Some ws, w')" and "HeartbeatWorker e \<in> set ws"
  shows "\<exists>k r res w'' p data. k < length (wire w') \<and> answered (ev w) k (wire w' ! k) r
    \<and> rq_method (wire w' ! k) = ''POST''
    \<and> rq_url (wire w' ! k) = TrimRight (PortalURL cfg) (CHR ''/'') @ ''/api/agent/register''
    \<and> run_state (hb_send e) w' = ((res, None), w'') \<and> hb_marshal p = Inr data \<and> hp_AgentUUID p = pr_AgentUUID r
    \<and> carries (ev w) (hb_Sync e) (pr_AgentToken r) ''/api/agent/heartbeat'' data (List.last (wire w''))
    \<and> e_PortalURL (hb_Sync e) = TrimRight (PortalURL cfg) (CHR ''/'')"
proof -
  let ?s = "New_service (ev w) cfg Version"
  obtain s' err where run: "run_state (retry fuel Second ?s) w = (Some (s', err), w')"
    and ws: "ws = (case err of None \<Rightarrow> workers (ev w) cfg | Some _ \<Rightarrow> [])"
    using assms(9) by (auto simp: service_start_def bootstrapWithRetry_def prod_eq_iff split: option.splits)
  then have err: "err = None" using assms(10) by (cases err) simp_all
  then have e: "hb_Sync e = transport (ev w) cfg (30 * Second)" using assms(10) ws by (auto simp: workers_def Let_def)
  obtain r where reg: "registered_by ?s w' r" using retry_registers run assms(1-5) unfolding err by blast
  have ev: "ev w' = ev w" using retry_frame(1) [of fuel Second ?s w] run by simp
  have portal: "e_PortalURL (hb_Sync e) = TrimRight (PortalURL cfg) (CHR ''/'')" "0 \<le> cl_Retries (e_Client (hb_Sync e))"
    by (simp_all add: e transport_def New_engine_def NewWithOptions_def Let_def)
  have "ready (hb_Sync e) (pr_AgentToken r) w'"
    using assms(1,2,8) reg portal by (simp add: ready_def ev registered_by_def)
  then obtain res w'' p data where "run_state (hb_send e) w' = ((res, None), w'')" "hb_marshal p = Inr data"
    "hp_AgentUUID p = pr_AgentUUID r"
    "carries (ev w) (hb_Sync e) (pr_AgentToken r) ''/api/agent/heartbeat'' data (List.last (wire w''))"
    using hb_send_carries [of e _ w'] assms(6,7) reg unfolding registered_by_def ev by metis
  then show ?thesis using reg portal(1) unfolding registered_by_def ev by (auto simp: boot_url_def New_service_def)
qed

theorem first_start_delivers_witness:
  "\<exists>e w' res w''. run_state (service_start 1 (Default\<lparr>EnrollmentKey := ''key''\<rparr>)) world_new =
      (Some (workers env_portal (Default\<lparr>EnrollmentKey := ''key''\<rparr>)), w')
    \<and> HeartbeatWorker e \<in> set (workers env_portal (Default\<lparr>EnrollmentKey := ''key''\<rparr>))
    \<and> run_state (hb_send e) w' = ((res, None), w'')"
proof -
  let ?cfg = "Default\<lparr>EnrollmentKey := ''key''\<rparr>"
  have ev: "ev world_new = env_portal" by (simp add: world_new_def)
  have s: "New_service (ev world_new) ?cfg Version = service1"
    by (simp add: ev service1_def Version_def env_portal_def New_service_def NewWithOptions_def)
  obtain s' w' where "run_state (EnsureRegistered service1) world_new = ((s', None), w')"
    using world_new_registers by (metis surj_pair fst_conv)
  then have run: "run_state (service_start 1 ?cfg) world_new = (Some (workers env_portal ?cfg), w')"
    by (simp add: service_start_def bootstrapWithRetry_def s [unfolded ev] ev)
  define e where "e = \<lparr>hb_Sync = transport env_portal ?cfg (30 * Second), hb_Version = Version\<rparr>"
  have e: "HeartbeatWorker e \<in> set (workers env_portal ?cfg)" by (simp add: e_def workers_def Let_def)
  have "short_tokens env_portal"
    by (auto simp: short_tokens_def answered_def env_portal_def portal_json_decoded response1_def)
  moreover have "\<forall>n q. portal_ok (o_net env_portal n q)"
    by (simp add: env_portal_def portal_ok_def portal_json_tree json_Valid_def)
  moreover have "o_hostname env_portal = Inr ''host''" "\<forall>u. \<exists>path. o_url env_portal u = Inr path"
    by (simp_all add: env_portal_def env0_def)
  ultimately show ?thesis
    using first_start_delivers [OF world_new_ok(1-3) _ world_new_ok(4) _ _ _ run e] e run unfolding ev by blast
qed

end
