(* ===== verification/Freshness.thy ===== *)
theory Freshness
  imports App InvHistory
begin

text \<open>
  The state of the heartbeat, which two components work out on their own from what the heartbeat engine stored: the status
  command of \<open>app.go\<close> and the assessment of \<open>inventory/engine.go\<close>. Both read back the time of the last delivered
  beat and compare its age with two intervals.
\<close>

section \<open>Reading the time of the last beat\<close>

lemma clock_year:
  assumes "time_text (t, 0) \<noteq> None"
  shows "0 \<le> year_of (t div Second)" and "year_of (t div Second) \<le> 9999"
  using assms by (auto simp: time_text_def year_of_def split: prod.splits if_splits)

lemma last_beat_reads: "time_text (t, 0) \<noteq> None \<Longrightarrow> ParseRFC3339 (FormatRFC3339 t) = Some (t div Second * Second)"
  using ParseRFC3339_seconds [of t] clock_year [of t] by simp

lemma FormatRFC3339_nonempty: "FormatRFC3339 t \<noteq> []"
  by (simp add: FormatRFC3339_def)

text \<open>The state of a beat at \<open>t\<close>, seen at \<open>now\<close> with the interval \<open>d\<close>.\<close>

definition beat_state :: "int \<Rightarrow> int \<Rightarrow> int \<Rightarrow> string" where
  "beat_state now d t = (if wrap64 (2 * d) < Time_Since now t then ''OFFLINE'' else ''ONLINE'')"

lemma ConfiguredInterval_kv:
  "sql_ok w \<Longrightarrow> sql_ok v \<Longrightarrow> kv w ''portal_configuration'' = kv v ''portal_configuration'' \<Longrightarrow>
    fst (run_state ConfiguredInterval w) = fst (run_state ConfiguredInterval v)"
  by (simp add: ConfiguredInterval_def run_simps)

lemma key_time [simp]:
  "n_time (snd (run_state (Get key) w)) = n_time w" "n_time (snd (run_state (Put key v) w)) = n_time w"
  by (simp_all add: Get_def Put_def sql_step_def split: option.split)

lemma states_of_beat:
  assumes "sql_ok v" and "kv v ''heartbeat_last_success'' = Some (FormatRFC3339 t)" and "time_text (t, 0) \<noteq> None"
  shows "fst (run_state storedHeartbeatStatus v) =
      beat_state (o_time (ev v) (n_time v)) (fst (run_state ConfiguredInterval v)) (t div Second * Second)"
    and "fst (run_state (heartbeatState True (FormatRFC3339 t)) v) =
      beat_state (o_time (ev v) (n_time v)) (fst (run_state ConfiguredInterval v)) (t div Second * Second)"
proof -
  have now: "fst (run_state Time_Now x) = o_time (ev x) (n_time x)" for x by (simp add: Time_Now_def)
  let ?x = "snd (run_state Time_Now (snd (run_state (Get ''heartbeat_last_success'') v)))"
  have "fst (run_state ConfiguredInterval ?x) = fst (run_state ConfiguredInterval v)"
    using assms(1) by (intro ConfiguredInterval_kv) simp_all
  then show "fst (run_state storedHeartbeatStatus v) =
      beat_state (o_time (ev v) (n_time v)) (fst (run_state ConfiguredInterval v)) (t div Second * Second)"
    using assms by (simp add: storedHeartbeatStatus_def run_simps FormatRFC3339_nonempty last_beat_reads now beat_state_def)
  let ?y = "snd (run_state Time_Now v)"
  have "fst (run_state ConfiguredInterval ?y) = fst (run_state ConfiguredInterval v)"
    using assms(1) by (intro ConfiguredInterval_kv) simp_all
  then show "fst (run_state (heartbeatState True (FormatRFC3339 t)) v) =
      beat_state (o_time (ev v) (n_time v)) (fst (run_state ConfiguredInterval v)) (t div Second * Second)"
    using assms by (simp add: heartbeatState_def FormatRFC3339_nonempty last_beat_reads now beat_state_def)
qed

section \<open>Reading the numbers of the last beat\<close>

text \<open>Scanning a decimal that has no exponent takes all of it.\<close>

lemma whole_digits:
  "list_all is_digit a \<Longrightarrow> takeWhile digit_or_us a = a"
  "list_all is_digit a \<Longrightarrow> takeWhile digit_or_us (a @ CHR ''.'' # r) = a"
  by (induction a) (auto simp: digit_or_us_def is_digit_def)

lemma Sscanf_digits:
  assumes "list_all is_digit a" and "a \<noteq> []"
  shows "Sscanf_f ((if s then ''-'' else []) @ a) = ParseFloat ((if s then ''-'' else []) @ a @ ''.'')"
proof -
  obtain c u where a: "a = c # u" "is_digit c" using assms by (cases a) auto
  show ?thesis
    using assms digit_not_sign [OF a(2)] whole_digits(1) [OF assms(1)]
    by (auto simp: Sscanf_f_def scan_float_token_def split_sign_def float_of_token_def Let_def a)
qed

lemma Sscanf_decimal:
  assumes "list_all is_digit a" and "a \<noteq> []" and "list_all is_digit b"
  shows "Sscanf_f ((if s then ''-'' else []) @ a @ CHR ''.'' # b) = ParseFloat ((if s then ''-'' else []) @ a @ CHR ''.'' # b)"
proof -
  obtain c u where a: "a = c # u" "is_digit c" using assms by (cases a) auto
  show ?thesis
    using assms digit_not_sign [OF a(2)] whole_digits(2) [OF assms(1), of b]
    by (cases s) (simp_all add: Sscanf_f_def scan_float_token_def split_sign_def float_of_token_def Let_def a whole_digits(1))
qed

lemma ParseFloat_decimal:
  assumes "list_all is_digit a" and "a \<noteq> []" and "list_all is_digit b"
  shows "ParseFloat ((if s then ''-'' else []) @ a @ CHR ''.'' # b) =
    (let x = of_nat (digits_val (a @ b)) / 10 ^ length b; v = f_round s (if s then - x else x)
     in case v of Inf _ \<Rightarrow> None | _ \<Rightarrow> Some v)"
proof -
  obtain c u where a: "a = c # u" "is_digit c" using assms by (cases a) auto
  then have "split_sign ((if s then ''-'' else []) @ a @ CHR ''.'' # b) = (s, a @ CHR ''.'' # b)"
    using digit_not_sign [OF a(2)] by (simp add: split_sign_def)
  moreover have "of_nat n * pow10 (- int (length b)) = (of_nat n / 10 ^ length b :: rat)" for n
    by (cases b) (simp_all add: pow10_def nat_add_distrib)
  ultimately show ?thesis
    using lit_mag_fraction [OF assms(1,3)] by (cases s) (simp_all add: ParseFloat_def Let_def split: f64.split)
qed

text \<open>A float to two decimals, as the heartbeat stores it.\<close>

definition two_decimals :: "f64 \<Rightarrow> f64" where
  "two_decimals v =
    (case v of Fin s m \<Rightarrow> (let x = of_int (round_even (m * 100)) / 100 in f_round s (if s then - x else x)) | _ \<Rightarrow> v)"

lemma f_round_small:
  assumes "\<bar>x\<bar> \<le> 2 ^ 64"
  shows "\<exists>t m. f_round s x = Fin t m"
proof -
  have "round_mag \<bar>x\<bar> \<le> 2 ^ 64" using round_mag_mono [OF assms] round_2_64 by simp
  then have "round_mag \<bar>x\<bar> < 2 ^ 1024" by (rule order_le_less_trans) simp
  then show ?thesis by (auto simp: f_round_def Let_def not_le)
qed

lemma Sscanf_FormatFloat2:
  assumes "f_between (-1) 100 v" and "v = Fin s m" and "0 \<le> m"
  shows "Sscanf_f (FormatFloat2 v) = Some (two_decimals v)"
proof -
  define n where "n = round_even (m * 100)"
  have m: "m \<le> 100" using assms by (auto split: if_splits)
  then have "m * 100 \<le> of_int 10000" by simp
  from round_even_mono [OF this] have n_le: "n \<le> 10000" unfolding n_def round_even_of_int .
  have "of_int 0 \<le> m * 100" using assms(3) by simp
  from round_even_mono [OF this] have n: "0 \<le> n" unfolding n_def round_even_of_int .
  define a b where "a = FormatInt (n div 100)" and "b = pad 2 (n mod 100)"
  have a: "list_all is_digit a" "a \<noteq> []" "digits_val a = nat (n div 100)"
    using n nat_digits_inverse [of "nat (n div 100)"] by (simp_all add: a_def FormatInt_digits)
  have b: "list_all is_digit b" "length b = 2" "digits_val b = nat (n mod 100)"
    using pad_digits [of "n mod 100" 2] by (simp_all add: b_def)
  have form: "FormatFloat2 v = (if s then ''-'' else []) @ a @ CHR ''.'' # b"
    by (simp add: FormatFloat2_def assms(2) Let_def n_def [symmetric] a_def b_def)
  have "int (digits_val (a @ b)) = n"
    using n by (simp add: digits_val_append a b pos_imp_zdiv_nonneg_iff)
  then have val: "(of_nat (digits_val (a @ b)) :: rat) = of_int n" by (metis of_int_of_nat_eq)
  let ?x = "of_int n / (100 :: rat)"
  have "(of_int n :: rat) \<le> of_int 10000" using n_le unfolding of_int_le_iff .
  then have "\<bar>if s then - ?x else ?x\<bar> \<le> 2 ^ 64" using n by (simp add: abs_if)
  then obtain t k where "f_round s (if s then - ?x else ?x) = Fin t k" using f_round_small by blast
  then show ?thesis
    unfolding form Sscanf_decimal [OF a(1,2) b(1)] ParseFloat_decimal [OF a(1,2) b(1)] val b(2)
    by (cases s) (simp_all add: two_decimals_def assms(2) n_def [symmetric] Let_def)
qed

lemma Sscanf_FormatInt:
  assumes "- (2 ^ 63) \<le> n" and "n < 2 ^ 63"
  shows "Sscanf_f (FormatInt n) = Some (f_of_int n)"
proof -
  define a where "a = FormatInt \<bar>n\<bar>"
  have a: "list_all is_digit a" "a \<noteq> []" "digits_val a = nat \<bar>n\<bar>"
    using nat_digits_inverse [of "nat \<bar>n\<bar>"] by (simp_all add: a_def FormatInt_digits)
  have form: "FormatInt n = (if n < 0 then ''-'' else []) @ a" by (simp add: a_def FormatInt_def)
  have val: "(of_nat (digits_val a) :: rat) = \<bar>of_int n\<bar>" by (simp add: a(3) of_nat_nat)
  have "\<bar>of_int n\<bar> \<le> (of_int (2 ^ 64) :: rat)" unfolding of_int_abs [symmetric] of_int_le_iff using assms by simp
  then have small: "\<bar>of_int n\<bar> \<le> (2 ^ 64 :: rat)" by simp
  have rounded: "f_round (n < 0) (of_int n) = f_of_int n" by (cases "n = 0") (simp_all add: f_of_int_def f_round_def)
  moreover obtain t k where "f_round (n < 0) (of_int n) = Fin t k" using f_round_small [OF small] by blast
  ultimately have fin: "f_of_int n = Fin t k" by simp
  have x: "(if n < 0 then - \<bar>of_int n\<bar> else \<bar>of_int n\<bar>) = (of_int n :: rat)" by simp
  have "ParseFloat ((if n < 0 then ''-'' else []) @ a @ ''.'') = Some (f_of_int n)"
    using ParseFloat_decimal [OF a(1,2), of "[]" "n < 0"] rounded
    unfolding append_Nil2 val Let_def list.size power_0 div_by_1 x by (simp add: fin)
  then show ?thesis unfolding form Sscanf_digits [OF a(1,2)] .
qed

section \<open>What a delivered beat leaves for them\<close>

text \<open>A delivered beat stores the last reading of the clock that it made.\<close>

lemma hb_persistSuccess_time:
  assumes "sql_ok w" and "w' = snd (run_state (hb_persistSuccess res h) w)"
  shows "kv w' ''heartbeat_last_success'' = Some (FormatRFC3339 (o_time (ev w) (n_time w' - 1)))"
proof -
  have "fst (run_state Time_Now w) = o_time (ev w) (n_time w)" "n_time (snd (run_state Time_Now w)) = Suc (n_time w)"
    by (simp_all add: Time_Now_def)
  then show ?thesis using assms(1) unfolding assms(2) by (simp add: hb_persistSuccess_def kv_Put run_simps)
qed

lemma hb_send_time:
  assumes "sql_ok w" and "run_state (hb_send e) w = ((res, None), w')"
  shows "kv w' ''heartbeat_last_success'' = Some (FormatRFC3339 (o_time (ev w) (n_time w' - 1)))"
proof -
  define v where "v = snd (run_state (Flush (hb_Sync e)) (snd (run_state (Get ''heartbeat_last_error'') w)))"
  define c where "c = snd (run_state (hb_collect e) v)"
  obtain p where p: "fst (run_state (hb_collect e) v) = Inr p"
    using assms(2) by (cases "fst (run_state (hb_collect e) v)") (auto simp: hb_send_def v_def [symmetric])
  define s where "s = run_state (SendJSON (hb_Sync e) ''/api/agent/heartbeat'' HeartbeatType (hb_marshal p)) c"
  have "run_state (hb_send e) w = (case snd (fst s) of
      Some err \<Rightarrow> (fst s, snd (run_state (hb_persistFailure err) (snd s)))
    | None \<Rightarrow> (fst s, snd (run_state (hb_persistSuccess (fst (fst s)) (hp_Health p)) (snd s))))"
    using p by (simp add: hb_send_def v_def [symmetric] c_def [symmetric] s_def split: option.split)
  then have "w' = snd (run_state (hb_persistSuccess res (hp_Health p)) (snd s))"
    using assms(2) by (cases "fst s"; cases "snd (fst s)") simp_all
  moreover have "ev (snd s) = ev w" by (simp add: s_def c_def v_def)
  ultimately show ?thesis using hb_persistSuccess_time [of "snd s" w'] assms(1) by simp
qed

text \<open>The readings of a beat are numbers of the format.\<close>

lemma regular_zero [simp]: "regular (Fin s 0)"
  by (simp add: regular_def f64_ok_def round_mag_0)

lemma regular_ParseFloat: "ParseFloat t = Some v \<Longrightarrow> regular v"
proof -
  assume some: "ParseFloat t = Some v"
  obtain s u where "split_sign t = (s, u)" by fastforce
  then have "ParseFloat t =
      (let x = f_round s (if s then - lit_mag u else lit_mag u) in case x of Inf _ \<Rightarrow> None | _ \<Rightarrow> Some x)"
    by (simp add: ParseFloat_def)
  then have "v = f_round s (if s then - lit_mag u else lit_mag u)"
    using some by (cases "f_round s (if s then - lit_mag u else lit_mag u)") (simp_all add: Let_def)
  then show "regular v" by simp
qed

lemma regular_float_field: "regular (float_field key ms)"
proof -
  have "regular (foldl (\<lambda>old m. if names_field key (fst m)
      then (case snd m of JNum t \<Rightarrow> (case ParseFloat t of Some v \<Rightarrow> v | None \<Rightarrow> old) | _ \<Rightarrow> old) else old) v ms)"
    if "regular v" for v
    using that by (induction ms arbitrary: v) (auto split: json.split option.split dest: regular_ParseFloat)
  then show ?thesis by (simp add: float_field_def)
qed

lemma regular_readMetrics: "regular (me_CPU (fst (run_state readMetrics w)))"
  by (auto simp: readMetrics_def decode_metrics_def no_metrics_def regular_float_field split: option.split)

lemma regular_collected: "fst (run_state (hb_collect e) w) = Inr p \<Longrightarrow> regular (hp_CPUUsage p)"
  by (auto simp: hb_collect_def regular_readMetrics split: sum.splits if_splits)

lemma hb_send_records:
  assumes "sql_ok w" and "v = snd (run_state (Flush (hb_Sync e)) (snd (run_state (Get ''heartbeat_last_error'') w)))"
    and "fst (run_state (hb_collect e) v) = Inr p" and "run_state (hb_send e) w = ((res, None), w')"
  shows "beat_recorded w' res (hp_Health p)" and "ev w' = ev w"
proof -
  define c where "c = snd (run_state (hb_collect e) v)"
  define s where "s = run_state (SendJSON (hb_Sync e) ''/api/agent/heartbeat'' HeartbeatType (hb_marshal p)) c"
  have s: "ev (snd s) = ev w" by (simp add: s_def c_def assms(2))
  have run: "run_state (hb_send e) w = (case snd (fst s) of
      Some err \<Rightarrow> (fst s, snd (run_state (hb_persistFailure err) (snd s)))
    | None \<Rightarrow> (fst s, snd (run_state (hb_persistSuccess (fst (fst s)) (hp_Health p)) (snd s))))"
    using assms(3) by (simp add: hb_send_def assms(2) [symmetric] c_def [symmetric] s_def split: option.split)
  then have "snd (fst s) = None \<and> res = fst (fst s) \<and> w' = snd (run_state (hb_persistSuccess res (hp_Health p)) (snd s))"
    using assms(4) by (cases "fst s"; cases "snd (fst s)") simp_all
  then show "beat_recorded w' res (hp_Health p)" and "ev w' = ev w"
    using hb_persistSuccess_kv(1) [of "snd s"] assms(1) s by simp_all
qed

lemma hb_send_keeps:
  assumes "sql_ok w" and "rand_ok w" and "run_state (hb_send e) w = ((res, None), w')" and "key \<notin> set hb_keys"
  shows "kv w' key = kv w key"
  using hb_send_outcome [OF assms(1,2), of e] assms(4) unfolding beat_outcome_def Let_def assms(3) by auto

text \<open>The latency of an answer is the difference of two readings of the clock.\<close>

lemma send_latency:
  "\<exists>a b. res_Latency (fst (fst (run_state (send e ep t p q) w))) = o_time (ev w) a - o_time (ev w) b"
proof -
  have now: "fst (run_state Time_Now x) = o_time (ev x) (n_time x)" for x by (simp add: Time_Now_def)
  have "\<exists>a b. 0 = o_time (ev w) a - o_time (ev w) b" by (intro exI [of _ 0]) simp
  then show ?thesis
    by (auto simp: send_def queueOnFailure_def judge_def no_result_def now Let_def split: sum.splits option.splits if_splits)
qed

lemma hb_send_latency:
  assumes "v = snd (run_state (Flush (hb_Sync e)) (snd (run_state (Get ''heartbeat_last_error'') w)))"
    and "fst (run_state (hb_collect e) v) = Inr p" and "run_state (hb_send e) w = ((res, None), w')"
  shows "\<exists>a b. res_Latency res = o_time (ev w) a - o_time (ev w) b"
proof -
  define c where "c = snd (run_state (hb_collect e) v)"
  define s where "s = run_state (SendJSON (hb_Sync e) ''/api/agent/heartbeat'' HeartbeatType (hb_marshal p)) c"
  have "ev c = ev w" by (simp add: c_def assms(1))
  have "fst (run_state (hb_send e) w) = fst s"
    using assms(2) by (simp add: hb_send_def assms(1) [symmetric] c_def [symmetric] s_def split: option.split)
  then have s: "fst s = (res, None)" using assms(3) by simp
  then obtain data where "hb_marshal p = Inr data" by (cases "hb_marshal p") (simp_all add: s_def SendJSON_def)
  then show ?thesis
    using send_latency [of "hb_Sync e" "''/api/agent/heartbeat''" HeartbeatType data True c] s \<open>ev c = ev w\<close>
    by (simp add: s_def SendJSON_def)
qed

text \<open>A registered agent whose clock stands still.\<close>

definition world_still :: world where
  "world_still = world_inv (o_net (ev world_beat))"

lemma world_still_facts:
  "sql_ok world_still" "rand_ok world_still" "time_text (o_time (ev world_still) n, 0) \<noteq> None" "o_time (ev world_still) n = 0"
  "kv world_still ''portal_configuration'' = None" "inv_ready inv_engine1 ''tok'' world_still"
  "portal_ok (o_net (ev world_still) k r)"
proof -
  show "sql_ok world_still" "rand_ok world_still" "inv_ready inv_engine1 ''tok'' world_still"
    by (simp_all add: world_still_def world_inv_facts)
  then show "time_text (o_time (ev world_still) n, 0) \<noteq> None" by (simp add: inv_ready_def)
  show "o_time (ev world_still) n = 0" by (simp add: world_still_def world_inv_def)
  show "kv world_still ''portal_configuration'' = None"
    by (simp add: world_still_def world_inv_def world_beat_def tab_value_def)
  show "portal_ok (o_net (ev world_still) k r)"
    using world_beat_ready(6) by (simp add: world_still_def world_inv_facts)
qed

lemma world_still_beats: "snd (fst (run_state (hb_send hb_engine1) world_still)) = None"
proof -
  obtain u host where "kv world_still ''agent_uuid'' = Some u" "u \<noteq> []" "o_hostname (ev world_still) = Inr host"
    "ready (hb_Sync hb_engine1) ''tok'' world_still"
    using world_still_facts(6) by (auto simp: inv_ready_def inv_engine1_def hb_engine1_def)
  then show ?thesis using hb_send_delivers world_still_facts(7) by metis
qed

lemma world_still_interval:
  assumes "run_state (hb_send hb_engine1) world_still = ((res, None), w')"
  shows "fst (run_state ConfiguredInterval w') = hb_DefaultInterval"
proof -
  have "kv w' ''portal_configuration'' = None"
    using hb_send_keeps [OF world_still_facts(1,2) assms, of "''portal_configuration''"] world_still_facts(5)
    by (simp add: hb_keys_def)
  moreover have "sql_ok w'" using hb_send_frame(1) [of hb_engine1 world_still] world_still_facts(1) assms by simp
  ultimately show ?thesis by (simp add: ConfiguredInterval_def run_simps)
qed

lemma world_still_blind:
  assumes "ev v = ev world_still" and "config_tab v = config_tab world_still"
  obtains p where "fst (run_state (hb_collect hb_engine1) v) = Inr p" "hp_CPUUsage p = Fin False 0"
proof -
  obtain u host where u: "kv v ''agent_uuid'' = Some u" "u \<noteq> []" "o_hostname (ev v) = Inr host" "sql_ok v"
    using world_still_facts(1,6) assms by (auto simp: inv_ready_def)
  have "fst (o_exec (ev v) n cmd) \<noteq> None" for n cmd
    unfolding assms(1) world_still_def world_inv_def by (simp add: world_beat_def world1_def) (simp add: world0_def env0_def)
  then have "fst (run_state readMetrics x) = no_metrics" if "ev x = ev v" for x
    using that by (auto simp: readMetrics_def exec_def split: option.split) (metis option.distinct(1))
  then show ?thesis using u that by (simp add: hb_collect_def run_simps no_metrics_def)
qed

text \<open>
  C15. After a delivered beat the status command and the assessment of the inventory see the same state of the heartbeat,
  whichever of them asks and whenever: the beat counts as recent until more than twice the configured interval has passed
  since it, to the second. The time of the beat is the last reading of the clock that it made.
\<close>

theorem heartbeat_state_agrees:
  assumes "sql_ok w" and "rand_ok w" and "run_state (hb_send e) w = ((res, None), w')"
    and "\<forall>n. time_text (o_time (ev w) n, 0) \<noteq> None"
    and "sql_ok v" and "kv v ''heartbeat_last_success'' = kv w' ''heartbeat_last_success''"
  shows "\<exists>l. kv v ''heartbeat_last_success'' = Some l
    \<and> fst (run_state (heartbeatState True l) v) = fst (run_state storedHeartbeatStatus v)
    \<and> fst (run_state storedHeartbeatStatus v) =
        (if wrap64 (2 * fst (run_state ConfiguredInterval v))
            < Time_Since (o_time (ev v) (n_time v)) (o_time (ev w) (n_time w' - 1) div Second * Second)
         then ''OFFLINE'' else ''ONLINE'')"
  using hb_send_time [OF assms(1,3)] states_of_beat [OF assms(5), of "o_time (ev w) (n_time w' - 1)"] assms(4,6)
  by (simp add: beat_state_def)

theorem heartbeat_state_agrees_witness:
  "\<exists>w'. kv w' ''heartbeat_last_success'' \<noteq> None \<and> fst (run_state storedHeartbeatStatus w') = ''ONLINE''"
proof -
  obtain res w' where run: "run_state (hb_send hb_engine1) world_still = ((res, None), w')"
    using world_still_beats by (metis prod.collapse)
  then have w': "ev w' = ev world_still" "sql_ok w'"
    using hb_send_frame(1) [of hb_engine1 world_still] world_still_facts(1) by simp_all
  have "\<not> wrap64 (2 * hb_DefaultInterval) < Time_Since 0 0" by code_simp
  then show ?thesis
    using heartbeat_state_agrees [OF world_still_facts(1,2) run _ w'(2) refl] world_still_facts(3,4) world_still_interval [OF run]
    by (auto simp: w'(1) intro!: exI [of _ w'])
qed

text \<open>
  C29. What the assessment of a later inventory pass is made of, once a beat was delivered: the processor reading of the beat
  rounded to two decimals, its latency in milliseconds, and the state of the heartbeat: online until more than twice the
  configured interval lies between the last reading of the clock that the beat made, to the second, and the reading that
  the assessment makes, offline from then on.
\<close>

theorem last_beat_is_assessed:
  assumes "sql_ok w" and "v = snd (run_state (Flush (hb_Sync e)) (snd (run_state (Get ''heartbeat_last_error'') w)))"
    and "fst (run_state (hb_collect e) v) = Inr p" and "run_state (hb_send e) w = ((res, None), w')"
    and "f_between (-1) 100 (hp_CPUUsage p)" and "\<bar>Milliseconds (res_Latency res)\<bar> < 2 ^ 63"
    and "\<forall>n. time_text (o_time (ev w) n, 0) \<noteq> None"
    and "sql_ok u" and "\<forall>key\<in>set hb_keys. kv u key = kv w' key"
    and "beat = o_time (ev w) (n_time w' - 1) div Second * Second" and "now = o_time (ev u) (n_time u)"
  shows "fst (run_state (inv_health h) u) =
    CalculateHealthV2 (o_upper (ev u)) (two_decimals (hp_CPUUsage p)) (memory_percent (hw_RAM h)) (disk_percent (hw_Disk h))
      (if wrap64 (2 * fst (run_state ConfiguredInterval u)) < Time_Since now beat then ''OFFLINE'' else ''ONLINE'')
      (f_of_int (Milliseconds (res_Latency res))) (hw_Security h)"
proof -
  note rec = hb_send_records [OF assms(1-4)]
  have cpu: "he_CPU (hp_Health p) = hp_CPUUsage p" using hb_collect_health [OF assms(3)] by (simp add: CalculateHealth_readings)
  obtain s m where m: "hp_CPUUsage p = Fin s m" "0 \<le> m"
    using assms(5) regular_collected [OF assms(3)] by (auto simp: f_between_def regular_def f64_ok_def)
  have n: "kv u ''heartbeat_last_success'' = Some (FormatRFC3339 (o_time (ev w) (n_time w' - 1)))"
    using hb_send_time [OF assms(1,4)] assms(9) by (simp add: hb_keys_def)
  have latency: "kv u ''heartbeat_last_latency_ms'' = Some (FormatInt (Milliseconds (res_Latency res)))"
    and last_cpu: "kv u ''heartbeat_last_cpu'' = Some (FormatFloat2 (hp_CPUUsage p))"
    using rec assms(9) by (auto simp: beat_recorded_def hb_keys_def cpu)
  have float: "fst (run_state (storedFloat key) x) = f"
    if "sql_ok x" "kv x key = Some t" "Sscanf_f t = Some f" for x key t f
    using that by (simp add: storedFloat_def run_simps)
  note scan = Sscanf_FormatFloat2 [OF assms(5) m] Sscanf_FormatInt [of "Milliseconds (res_Latency res)"]
  define a where "a = snd (run_state (storedFloat ''heartbeat_last_cpu'') u)"
  define b where "b = snd (run_state storedHeartbeatStatus a)"
  have a: "sql_ok a" "kv a = kv u" "ev a = ev u" "n_time a = n_time u" using assms(8) by (simp_all add: a_def storedFloat_def)
  have b: "sql_ok b" "kv b = kv u" "ev b = ev u" using a by (simp_all add: b_def)
  have "fst (run_state ConfiguredInterval a) = fst (run_state ConfiguredInterval u)"
    using ConfiguredInterval_kv [OF a(1) assms(8)] a(2) by simp
  then have "fst (run_state storedHeartbeatStatus a) = beat_state now (fst (run_state ConfiguredInterval u)) beat"
    using states_of_beat(1) [OF a(1), of "o_time (ev w) (n_time w' - 1)"] assms(7,10,11) a n by simp
  moreover have "fst (run_state (storedFloat ''heartbeat_last_cpu'') u) = two_decimals (hp_CPUUsage p)"
    using float [OF assms(8) last_cpu scan(1)] .
  moreover have "fst (run_state (storedFloat ''heartbeat_last_latency_ms'') b) = f_of_int (Milliseconds (res_Latency res))"
    using float [OF b(1) _ scan(2)] latency b(2) assms(6) by (simp add: abs_less_iff)
  ultimately show ?thesis
    by (simp add: inv_health_def a_def [symmetric] b_def [symmetric] b(3) beat_state_def)
qed

theorem last_beat_is_assessed_witness:
  "\<exists>w'. fst (run_state (inv_health (hardware_of (\<lambda>r. r) wmi_none)) w') =
    CalculateHealthV2 (o_upper (ev world_still)) (Fin False 0) (memory_percent (hw_RAM (hardware_of (\<lambda>r. r) wmi_none)))
      (disk_percent (hw_Disk (hardware_of (\<lambda>r. r) wmi_none))) ''ONLINE'' (f_of_int 0)
      (hw_Security (hardware_of (\<lambda>r. r) wmi_none))"
proof -
  let ?h = "hardware_of (\<lambda>r. r) wmi_none"
  obtain res w' where run: "run_state (hb_send hb_engine1) world_still = ((res, None), w')"
    using world_still_beats by (metis prod.collapse)
  define v where "v = snd (run_state (Flush (hb_Sync hb_engine1)) (snd (run_state (Get ''heartbeat_last_error'') world_still)))"
  have v: "ev v = ev world_still" "config_tab v = config_tab world_still" by (simp_all add: v_def)
  obtain p where p: "fst (run_state (hb_collect hb_engine1) v) = Inr p" "hp_CPUUsage p = Fin False 0"
    by (rule world_still_blind [OF v])
  have ev: "ev w' = ev world_still"
    using run hb_send_frame(1) [of hb_engine1 world_still] by simp
  have two_decimals_0: "two_decimals (Fin False 0) = Fin False 0" by code_simp
  have "res_Latency res = 0"
    using hb_send_latency [OF v_def p(1) run] world_still_facts(4) by auto
  moreover have "\<not> wrap64 (2 * hb_DefaultInterval) < Time_Since 0 0" by code_simp
  ultimately show ?thesis
    using last_beat_is_assessed [OF world_still_facts(1) v_def p(1) run _ _ _ _ _ refl refl, of w' ?h] world_still_facts(1,3,4) ev
      two_decimals_0 world_still_interval [OF run]
    by (intro exI [of _ w']) (simp add: p(2) Milliseconds_def)
qed

end
