(* ===== verification/InvDelivery.thy ===== *)
theory InvDelivery
  imports InvHistory
begin

text \<open>
  The payload of a hardware pass on its way: what the Portal acknowledged, or the queue holds for it, is a JSON document
  from which the snapshot that was read from the machine can be decoded.
\<close>

section \<open>Reading a payload\<close>

lemma health_wf [simp]:
  assumes "list_all f64_ok (health_floats a)" and "d < 9990"
  shows "json_wf d (HealthAssessment_json a)" "json_wf d (AssetLinkHints_json l)"
  using assms by (simp_all add: HealthAssessment_json_def health_floats_def AssetLinkHints_json_def jOmit_def wf_eval maxNestingDepth_def list_all_iff)

text \<open>The members of a payload, as a reader of the JSON finds them.\<close>

lemma payload_reads:
  assumes "inv_marshal p = Inr data" and "list_all regular (health_floats (ip_Health p))"
    and "list_all regular (hardware_floats (ip_Hardware p))" and "text_ok (Hardware_json (ip_Hardware p))" and "is_ascii (ip_Fingerprint p)"
  shows "\<exists>ms. json_parse data = Some (JObj ms) \<and> map_of ms ''fingerprint'' = Some (JStr (ip_Fingerprint p))
    \<and> map_of ms ''hardware'' = Some (Hardware_json (ip_Hardware p))
    \<and> Hardware_dec (Hardware_json (ip_Hardware p)) zero_Hardware = (ip_Hardware p, DOk)"
proof -
  obtain t where fin: "list_all finite_float (health_floats (ip_Health p) @ hardware_floats (ip_Hardware p))"
    and data: "data = json_print (JObj
         ([jS ''timestamp'' t, jS ''agentUuid'' (ip_AgentUUID p), jS ''agentVersion'' (ip_AgentVersion p),
           jS ''hostname'' (ip_Hostname p), jS ''fingerprint'' (ip_Fingerprint p),
           (''changedItems'', JNum (FormatInt (ip_ChangedItems p)))]
          @ (if ip_Changes p = [] then [] else [(''changes'', JArr (map HardwareChange_json (ip_Changes p)))])
          @ [(''assetLink'', AssetLinkHints_json (ip_AssetLink p)), (''health'', HealthAssessment_json (ip_Health p)),
             (''hardware'', Hardware_json (ip_Hardware p))]))" (is "data = json_print (JObj ?ms)")
    using assms(1) by (auto simp: inv_marshal_def Marshal_def split: option.splits if_splits)
  have ok: "list_all f64_ok (health_floats (ip_Health p))" "list_all f64_ok (hardware_floats (ip_Hardware p))"
    using assms(2,3) fin regular_finite by (auto simp: list_all_iff)
  have wf: "json_wf 0 (JObj ?ms)"
    using Hardware_wf_at [OF ok(2)] ok(1) by (simp add: wf_eval maxNestingDepth_def list_all_iff)
  have names: "list_all (\<lambda>n. utf8_clean n = n) [''timestamp'', ''agentUuid'', ''agentVersion'', ''hostname'', ''fingerprint'',
      ''changedItems'', ''changes'', ''assetLink'', ''health'', ''hardware'']"
    by (simp add: utf8_clean_ascii is_ascii_def byte_val_def)
  show ?thesis
    using json_parse_print [OF wf] names assms(4) utf8_clean_ascii [OF assms(5)] Hardware_reads [OF ok(2)]
    unfolding data by (simp add: jS_def text_ok_def)
qed

section \<open>Properties\<close>

text \<open>
  C6. What the Portal gets is what was read. The document a pass sent, in the last request it made, which is signed and
  was acknowledged, or the one it left at the end of the queue, parses as JSON; its hardware member decodes to
  the snapshot that was read from the machine, every number and every string included, and its fingerprint member is the
  fingerprint of that snapshot, the one the pass reports.
\<close>

theorem delivered_snapshot_reads:
  assumes "sql_ok w" and "rand_ok w" and "run_state (inv_RunOnce e) w = ((rep, err), w')"
    and "ir_Result rep \<in> {''SENT'', ''QUEUED''}" and "\<And>k. text_ok (Hardware_json (reading w k))"
    and "e_Compression (inv_Sync e) \<noteq> ''gzip''"
  shows "\<exists>k data ms j. json_parse data = Some (JObj ms) \<and> map_of ms ''fingerprint'' = Some (JStr (ir_Fingerprint rep))
    \<and> map_of ms ''hardware'' = Some j \<and> Hardware_dec j zero_Hardware = (reading w k, DOk)
    \<and> inv_Fingerprint (o_lower (ev w)) (reading w k) = Inr (ir_Fingerprint rep)
    \<and> (if ir_Result rep = ''QUEUED'' then \<exists>i. queued w' = queued (inv_flushed e w) @ [(i, InventoryType, data)]
       else \<exists>rs r token. wire w' = wire (inv_flushed e w) @ rs @ [r] \<and> rq_body r = Body data None None
         \<and> signature_valid token r \<and> portal_ok (o_net (ev w) (length (wire (inv_flushed e w)) + length rs) r))"
proof -
  obtain p k where p: "ip_Hardware p = reading w k" "uploaded e (inv_flushed e w) p rep w'"
    using inv_RunOnce_reading [OF assms(1-4)] by blast
  then obtain data where u: "ip_Fingerprint p = ir_Fingerprint rep" "list_all regular (health_floats (ip_Health p))"
    "inv_Fingerprint (o_lower (ev w)) (reading w k) = Inr (ir_Fingerprint rep)" "inv_marshal p = Inr data"
    "handed_over e data (inv_flushed e w) rep w'"
    unfolding uploaded_def by auto
  have "list_all f64_ok (hardware_floats (reading w k))" unfolding reading_def by (rule hardware_floats_ok)
  then have "list_all regular (hardware_floats (reading w k))"
    by (auto simp: list_all_iff regular_def split: f64.splits)
  then obtain ms where "json_parse data = Some (JObj ms)" "map_of ms ''fingerprint'' = Some (JStr (ir_Fingerprint rep))"
    "map_of ms ''hardware'' = Some (Hardware_json (reading w k))"
    "Hardware_dec (Hardware_json (reading w k)) zero_Hardware = (reading w k, DOk)"
    using payload_reads [OF u(4,2)] p(1) u(1) assms(5) fingerprint_ascii [OF u(3)] by auto
  moreover have "if ir_Result rep = ''QUEUED'' then \<exists>i. queued w' = queued (inv_flushed e w) @ [(i, InventoryType, data)]
       else \<exists>rs r token. wire w' = wire (inv_flushed e w) @ rs @ [r] \<and> rq_body r = Body data None None
         \<and> signature_valid token r \<and> portal_ok (o_net (ev w) (length (wire (inv_flushed e w)) + length rs) r)"
    using u(5) assms(6) unfolding handed_over_def carries_def encodePayload_def by (simp split: if_splits) blast
  ultimately show ?thesis using u(3) by blast
qed

theorem delivered_snapshot_reads_witness:
  "\<exists>w' i data ms j. w' = snd (run_state (inv_RunOnce inv_engine1) (world_inv (\<lambda>_ _. Inl ''down'')))
    \<and> (i, InventoryType, data) \<in> set (queued w') \<and> json_parse data = Some (JObj ms) \<and> map_of ms ''hardware'' = Some j
    \<and> Hardware_dec j zero_Hardware = (named ''host'' (hardware_of (\<lambda>r. r) wmi_none), DOk)"
proof -
  let ?w = "world_inv (\<lambda>_ _. Inl ''down'')"
  note facts = world_inv_facts [of "\<lambda>_ _. Inl ''down''"]
  obtain rep err w' where run: "run_state (inv_RunOnce inv_engine1) ?w = ((rep, err), w')" by (metis surj_pair)
  have E: "o_lower (ev ?w) = (\<lambda>r. r)" "o_hostname (ev ?w) = Inr ''host''" "o_wmi (ev ?w) k = wmi_none" for k
    by (simp_all add: world_inv_def world_beat_def world1_def world0_def env0_def)
  then have r: "reading ?w k = named ''host'' (hardware_of (\<lambda>r. r) wmi_none)" for k by (simp add: reading_def)
  have "text_ok (Hardware_json (reading ?w k))" for k unfolding r by (rule empty_machine_text)
  moreover have "e_Compression (inv_Sync inv_engine1) \<noteq> ''gzip''"
    by (simp add: inv_engine1_def engine1_def New_engine_def NewWithOptions_def Let_def ToLower_def is_ascii_def)
  ultimately show ?thesis
    using delivered_snapshot_reads [OF facts(2,3) run] queued_pass(1) [OF run] run r by fastforce
qed

end
