(* ===== verification/InvRuns.thy ===== *)
theory InvRuns
  imports Agent InvHistory
begin

text \<open>
  Runs of the service as the hardware inventory sees them: its own passes, with the steps of the other workers in between.
  What the agent remembers, and skips by, is tied to what became of the snapshot; and what a queued snapshot leaves out of
  the history is followed through the passes after it.
\<close>

section \<open>Runs of the service\<close>

text \<open>
  A run is any sequence of passes of the hardware inventory and of steps of the other workers (\<open>foreign\<close>): flushes, sends,
  readings of the environment, and writes to keys other than the inventory's. A pass is taken as a whole; its reports are
  listed in order.
\<close>

inductive service_run :: "inv_engine \<Rightarrow> world \<Rightarrow> inv_Report list \<Rightarrow> world \<Rightarrow> bool" for i w where
  start: "service_run i w [] w"
| pass: "service_run i w reps v \<Longrightarrow> run_state (inv_RunOnce i) v = ((rep, err), x) \<Longrightarrow> service_run i w (reps @ [rep]) x"
| other: "service_run i w reps v \<Longrightarrow> agent_step (inv_Sync i) v l x \<Longrightarrow> foreign l \<Longrightarrow> service_run i w reps x"

lemma foreign_path_run:
  assumes "agent_path (inv_Sync i) v ls x" and "list_all foreign ls" and "service_run i w reps v"
  shows "service_run i w reps x"
  using assms by (induction rule: agent_path.induct) (auto intro: service_run.other)

lemma foreign_turn_run:
  "turn foreign (inv_Sync i) f \<Longrightarrow> service_run i w reps v \<Longrightarrow> service_run i w reps (snd (run_state f v))"
  unfolding turn_def using foreign_path_run by metis

text \<open>In particular a beat and a pass of the software inventory may come in between, on the same sync engine.\<close>

lemma beat_run:
  "hb_Sync h = inv_Sync i \<Longrightarrow> service_run i w reps v \<Longrightarrow> service_run i w reps (snd (run_state (hb_send h) v))"
  using foreign_turn_run [of i "hb_send h"] turn_hb_send [of h] by simp

lemma software_run: "service_run i w reps v \<Longrightarrow> service_run i w reps (snd (run_state (sw_RunOnce (inv_Sync i)) v))"
  using foreign_turn_run turn_sw_RunOnce by blast

lemma foreign_keeps:
  assumes "agent_step e w l v" and "foreign l"
  shows "ev v = ev w \<and> history_tab v = history_tab w \<and> (\<forall>k\<in>set inv_keys. config_tab v k = config_tab w k)"
  using assms
proof (induction rule: agent_step.induct)
  case (local w x)
  then have "config_tab (run_local x w) k = config_tab w k" if "k \<in> set inv_keys" for k
    using that Put_other by (cases x; simp) metis
  moreover have "history_tab (run_local x w) = history_tab w" using local.prems by (cases x) simp_all
  ultimately show ?case by simp
next
  case (flush w n err w')
  then show ?case using Flush_frame [of e w] by simp
next
  case (send t data w res err w')
  then show ?case using SendJSON_frame [of e "routeForType t" t "Inr data" w] by simp
qed

lemma run_ev: "service_run i w reps v \<Longrightarrow> ev v = ev w"
proof (induction rule: service_run.induct)
  case (pass reps v rep err x)
  then show ?case using inv_RunOnce_frame(1) [of i v] by simp
next
  case (other reps v l x)
  then show ?case using foreign_keeps by metis
qed simp

section \<open>What is remembered is safe\<close>

text \<open>A payload is safe when it is queued, or was carried by a request that the Portal acknowledged since position \<open>k\<close>.\<close>

definition safe :: "engine \<Rightarrow> nat \<Rightarrow> world \<Rightarrow> payload \<Rightarrow> bool" where
  "safe e k w p \<longleftrightarrow> p \<in> set (payloads w) \<or> acked (ev w) e k (wire w) p"

lemma path_keeps_safe:
  assumes "agent_path e w ls v" and "queue_inv w" and "safe e k w p" and "k \<le> length (wire w)"
  shows "safe e k v p"
proof -
  note run = path_accounts [OF assms(1,2)]
  note ev = path_ev [OF assms(1)]
  obtain rs where wire: "wire v = wire w @ rs" using run by blast
  have "acked (ev w) e k (wire v) p" if "p \<in> set (delivered ls)"
    using that run acked_earlier [of "ev w" e "length (wire w)" "wire v" p k] assms(4) by blast
  moreover have "acked (ev w) e k (wire v) p" if "acked (ev w) e k (wire w) p" using that acked_more wire by metis
  moreover have "set (payloads w) \<subseteq> set (delivered ls) \<union> set (payloads v)" using run by (metis Un_upper1 set_append)
  ultimately show ?thesis using assms(3) ev by (auto simp: safe_def)
qed

lemma inv_flushed_path: "\<exists>ls. agent_path (inv_Sync i) w ls (inv_flushed i w)"
proof -
  have "turn any_label (inv_Sync i) (do { Time_Now; ctx_Err; Flush (inv_Sync i) })" by (intro turns TrueI)
  then show ?thesis unfolding turn_def inv_flushed_def run_bind by blast
qed

lemma handed_over_safe:
  assumes "queue_inv w" and "handed_over i data (inv_flushed i w) rep x" and "ev x = ev w" and "k \<le> length (wire w)"
  shows "safe (inv_Sync i) k x (InventoryType, data)"
proof (cases "ir_Result rep = ''QUEUED''")
  case True
  then show ?thesis using assms(2) by (auto simp: handed_over_def safe_def payloads_def)
next
  case False
  let ?f = "inv_flushed i w"
  obtain rs r token where r: "wire x = (wire ?f @ rs) @ [r]" "carries (ev w) (inv_Sync i) token (routeForType InventoryType) data r"
    "portal_ok (o_net (ev w) (length (wire ?f @ rs)) r)"
    using assms(2) False payload_routes(5) by (auto simp: handed_over_def)
  obtain ls where "agent_path (inv_Sync i) w ls ?f" using inv_flushed_path by blast
  then have "length (wire w) \<le> length (wire ?f)" using path_accounts [OF _ assms(1)] by fastforce
  then show ?thesis
    using acked_last [OF r(2,3), of k] assms(3,4) r(1) by (simp add: safe_def)
qed

text \<open>The snapshot a fingerprint stands for: read from the machine, and its payload safe.\<close>

definition remembered :: "inv_engine \<Rightarrow> nat \<Rightarrow> world \<Rightarrow> string \<Rightarrow> bool" where
  "remembered i k w fp \<longleftrightarrow>
    (\<exists>p n data. ip_Hardware p = reading w n \<and> ip_Fingerprint p = fp
      \<and> inv_Fingerprint (o_lower (ev w)) (reading w n) = Inr fp
      \<and> inv_marshal p = Inr data \<and> safe (inv_Sync i) k w (InventoryType, data))"

lemma remembered_path:
  assumes "agent_path (inv_Sync i) w ls v" and "queue_inv w" and "k \<le> length (wire w)" and "remembered i k w fp"
  shows "remembered i k v fp"
proof -
  have "reading v n = reading w n" "ev v = ev w" for n using path_ev [OF assms(1)] by (simp_all add: reading_def)
  then show ?thesis
    using assms(4) path_keeps_safe [OF assms(1,2) _ assms(3)] unfolding remembered_def by metis
qed

lemma pass_remembers:
  assumes "sql_ok w" and "queue_inv w" and "run_state (inv_RunOnce i) w = ((rep, err), x)" and "k \<le> length (wire w)"
    and "\<And>fp. kv w last_fp = Some fp \<Longrightarrow> remembered i k w fp" and "kv x last_fp = Some fp"
  shows "remembered i k x fp"
proof (cases "ir_Result rep \<in> {''SENT'', ''QUEUED''}")
  case True
  have rand: "rand_ok w" using assms(2) by (simp add: queue_inv_def)
  obtain p n where p: "ip_Hardware p = reading w n" "uploaded i (inv_flushed i w) p rep x"
    using inv_RunOnce_reading [OF assms(1) rand assms(3) True] by blast
  have ev: "ev x = ev w" using inv_RunOnce_frame(1) [of i w] assms(3) by simp
  have "ir_Fingerprint rep = fp"
    using inv_RunOnce_outcome [OF assms(1) rand, of i] True assms(6) unfolding assms(3)
    by (auto simp: inv_outcome_def Let_def)
  then obtain data where "ip_Fingerprint p = fp" "inv_Fingerprint (o_lower (ev w)) (reading w n) = Inr fp"
    "inv_marshal p = Inr data" "handed_over i data (inv_flushed i w) rep x"
    using p by (auto simp: uploaded_def)
  moreover have "reading x n = reading w n" using ev by (simp add: reading_def)
  ultimately show ?thesis
    using p(1) ev handed_over_safe [OF assms(2) _ ev assms(4)] unfolding remembered_def by metis
next
  case False
  have "rand_ok w" using assms(2) by (simp add: queue_inv_def)
  then have "kv x last_fp = kv w last_fp"
    using inv_RunOnce_outcome [OF assms(1), of i] False unfolding assms(3)
    by (auto simp: inv_outcome_def Let_def last_fp_def split: if_splits)
  then have "remembered i k w fp" using assms(5,6) by simp
  moreover obtain ls where "agent_path (inv_Sync i) w ls x"
    using turn_inv_RunOnce [of i] assms(3) unfolding turn_def by (metis snd_conv)
  ultimately show ?thesis using remembered_path assms(2,4) by blast
qed

lemma run_remembers:
  assumes "service_run i w reps v" and "sql_ok w" and "queue_inv w"
    and "\<And>fp. kv w last_fp = Some fp \<Longrightarrow> remembered i (length (wire w)) w fp"
  shows "queue_inv v \<and> length (wire w) \<le> length (wire v) \<and> (\<forall>fp. kv v last_fp = Some fp \<longrightarrow> remembered i (length (wire w)) v fp)"
  using assms(1)
proof (induction rule: service_run.induct)
  case (pass reps v rep err x)
  have "sql_ok v" using run_ev [OF pass.hyps(1)] assms(2) by simp
  moreover obtain ls where "agent_path (inv_Sync i) v ls x"
    using turn_inv_RunOnce [of i] pass.hyps(2) unfolding turn_def by (metis snd_conv)
  ultimately show ?case
    using pass.IH path_accounts [of "inv_Sync i" v ls x] pass_remembers [OF _ _ pass.hyps(2)] by fastforce
next
  case (other reps v l x)
  have "last_fp \<in> set inv_keys" by (simp add: last_fp_def inv_keys_def)
  then have "kv x last_fp = kv v last_fp" using foreign_keeps [OF other.hyps(2,3)] by (simp add: tab_value_def)
  then show ?case
    using other.IH path_accounts [OF path_one [OF other.hyps(2)]] remembered_path [OF path_one [OF other.hyps(2)]] by fastforce
qed (use assms(3,4) in simp)

section \<open>What a queued snapshot leaves out\<close>

text \<open>The keys only a pass whose snapshot was sent writes.\<close>

definition sent_keys :: "string list" where
  "sent_keys = [''inventory_last_success'', ''inventory_change_timeline'', ''inventory_last_changes'']"

lemma unsent_persists:
  assumes "k \<in> set sent_keys"
  shows "config_tab (snd (run_state (inv_persistFailure err rep) w)) k = config_tab w k"
    and "config_tab (snd (run_state (inv_failure st err) w)) k = config_tab w k"
    and "config_tab (snd (run_state (persistSnapshot h fp) w)) k = config_tab w k"
    and "config_tab (snd (run_state (inv_undelivered rep h err) w)) k = config_tab w k"
  using assms
  by (auto simp: sent_keys_def inv_persistFailure_def inv_failure_def inv_undelivered_def persistSnapshot_def Put_other Let_def
      split: sum.split)

lemma inv_send_unsent:
  assumes "k \<in> set sent_keys" and "ir_Result (fst (fst (run_state (inv_send e st cd p data) w))) \<noteq> ''SENT''"
  shows "config_tab (snd (run_state (inv_send e st cd p data) w)) k = config_tab w k"
  using assms unsent_persists(4) [OF assms(1)]
  by (auto simp: inv_send_def inv_delivered_def Let_def split: option.splits)

lemma inv_compare_unsent:
  assumes "k \<in> set sent_keys" and "ir_Result (fst (fst (run_state (inv_compare e st cd u hn h fp) w))) \<noteq> ''SENT''"
  shows "config_tab (snd (run_state (inv_compare e st cd u hn h fp) w)) k = config_tab w k"
  using assms inv_send_unsent [OF assms(1)] unsent_persists(2) [OF assms(1)]
  by (auto simp: inv_compare_def inv_upload_def Put_other sent_keys_def Let_def split: sum.splits)

lemma inv_RunOnce_unsent:
  assumes "k \<in> set sent_keys" and "ir_Result (fst (fst (run_state (inv_RunOnce e) w))) \<noteq> ''SENT''"
  shows "config_tab (snd (run_state (inv_RunOnce e) w)) k = config_tab w k"
  using assms inv_compare_unsent [OF assms(1)] unsent_persists(2) [OF assms(1)]
  by (auto simp: inv_RunOnce_def inv_collect_def Let_def split: option.splits sum.splits)

text \<open>The state a queued snapshot leaves, as long as no other one is read.\<close>

definition unrecorded :: "world \<Rightarrow> string \<Rightarrow> world \<Rightarrow> bool" where
  "unrecorded w fp v \<longleftrightarrow> history_tab v = history_tab w \<and> (\<forall>k\<in>set sent_keys. kv v k = kv w k) \<and> kv v last_fp = Some fp"

lemma unrecorded_pass:
  assumes "sql_ok v" and "rand_ok v" and "run_state (inv_RunOnce i) v = ((rep, err), x)" and "unrecorded w fp v"
    and "ir_Result rep \<in> {''SENT'', ''QUEUED'', ''SKIPPED''} \<longrightarrow> ir_Fingerprint rep = fp"
  shows "unrecorded w fp x \<and> ir_Result rep \<notin> {''SENT'', ''QUEUED''}
    \<and> (ir_Result rep \<noteq> ''FAILED'' \<longrightarrow> kv x ''inventory_last_error'' = kv v ''inventory_last_error'')"
proof -
  note o = inv_RunOnce_outcome [OF assms(1,2), of i, unfolded assms(3)]
  have fp: "kv v last_fp = Some fp" using assms(4) by (simp add: unrecorded_def)
  have res: "ir_Result rep \<notin> {''SENT'', ''QUEUED''}"
    using o fp assms(5) by (auto simp: inv_outcome_def Let_def)
  then have "kv x last_fp = kv v last_fp \<and> history_tab x = history_tab v
      \<and> (ir_Result rep \<noteq> ''FAILED'' \<longrightarrow> kv x ''inventory_last_error'' = kv v ''inventory_last_error'')"
    using o by (auto simp: inv_outcome_def Let_def last_fp_def split: if_splits)
  moreover have "kv x k = kv v k" if "k \<in> set sent_keys" for k
    using inv_RunOnce_unsent [OF that, of i v] res assms(3) by (simp add: tab_value_def)
  ultimately show ?thesis using res assms(4) by (auto simp: unrecorded_def)
qed

lemma unrecorded_run:
  assumes "service_run i w' reps v" and "sql_ok w'" and "rand_ok w'" and "unrecorded w fp w'"
    and "\<forall>r\<in>set reps. ir_Result r \<in> {''SENT'', ''QUEUED'', ''SKIPPED''} \<longrightarrow> ir_Fingerprint r = fp"
  shows "unrecorded w fp v \<and> (\<forall>r\<in>set reps. ir_Result r \<notin> {''SENT'', ''QUEUED''})
    \<and> (''FAILED'' \<notin> ir_Result ` set reps \<longrightarrow> kv v ''inventory_last_error'' = kv w' ''inventory_last_error'')"
  using assms(1,5)
proof (induction rule: service_run.induct)
  case (pass reps v rep err x)
  have "sql_ok v" "rand_ok v" using run_ev [OF pass.hyps(1)] assms(2,3) by simp_all
  moreover have IH: "unrecorded w fp v" "\<forall>r\<in>set reps. ir_Result r \<notin> {''SENT'', ''QUEUED''}"
    "''FAILED'' \<notin> ir_Result ` set reps \<longrightarrow> kv v ''inventory_last_error'' = kv w' ''inventory_last_error''"
    using pass.IH pass.prems by simp_all
  moreover have "ir_Result rep \<in> {''SENT'', ''QUEUED'', ''SKIPPED''} \<longrightarrow> ir_Fingerprint rep = fp" using pass.prems by simp
  ultimately have "unrecorded w fp x" "ir_Result rep \<notin> {''SENT'', ''QUEUED''}"
    "ir_Result rep \<noteq> ''FAILED'' \<longrightarrow> kv x ''inventory_last_error'' = kv v ''inventory_last_error''"
    using unrecorded_pass [OF _ _ pass.hyps(2)] by blast+
  then show ?case using IH(2,3) by auto
next
  case (other reps v l x)
  have "kv x k = kv v k" if "k \<in> set inv_keys" for k
    using foreign_keeps [OF other.hyps(2,3)] that by (simp add: tab_value_def)
  moreover have "set sent_keys \<subseteq> set inv_keys" "last_fp \<in> set inv_keys" "''inventory_last_error'' \<in> set inv_keys"
    by (simp_all add: sent_keys_def inv_keys_def last_fp_def)
  ultimately have "\<forall>k\<in>set sent_keys. kv x k = kv v k" "kv x last_fp = kv v last_fp"
    "kv x ''inventory_last_error'' = kv v ''inventory_last_error''" by blast+
  then show ?case
    using other.IH other.prems foreign_keeps [OF other.hyps(2,3)] unfolding unrecorded_def by (metis (no_types, lifting))
qed (use assms(4) in simp)

text \<open>The pass that queues a snapshot.\<close>

lemma queued_unrecorded:
  assumes "sql_ok w" and "rand_ok w" and "run_state (inv_RunOnce i) w = ((rep, err), w')" and "ir_Result rep = ''QUEUED''"
  shows "unrecorded w (ir_Fingerprint rep) w'" and "kv w' ''inventory_last_error'' = Some (error_msg (the err))"
proof -
  have o: "kv w' last_fp = Some (ir_Fingerprint rep)" "history_tab w' = history_tab w"
    "kv w' ''inventory_last_error'' = Some (error_msg (the err))"
    using inv_RunOnce_outcome [OF assms(1,2), of i] assms(4) unfolding assms(3) by (simp_all add: inv_outcome_def Let_def)
  moreover have "kv w' k = kv w k" if "k \<in> set sent_keys" for k
    using inv_RunOnce_unsent [OF that, of i w] assms(3,4) by (simp add: tab_value_def)
  ultimately show "unrecorded w (ir_Fingerprint rep) w'" "kv w' ''inventory_last_error'' = Some (error_msg (the err))"
    by (simp_all add: unrecorded_def)
qed

section \<open>A concrete run\<close>

text \<open>A beat's error is stored after the pass that queued, and the inventory runs again.\<close>

definition with_note :: "world \<Rightarrow> world" where
  "with_note w = run_local (PutOp ''heartbeat_last_error'' ''down'') w"

lemma with_note_facts:
  assumes "ev w = ev (world_inv net)" and "inv_ready inv_engine1 ''tok'' w"
  shows "ev (with_note w) = ev (world_inv net)" and "inv_ready inv_engine1 ''tok'' (with_note w)"
    and "kv (with_note w) ''heartbeat_last_error'' = Some ''down''"
    and "agent_step (inv_Sync inv_engine1) w (Local (PutOp ''heartbeat_last_error'' ''down'')) (with_note w)"
proof -
  show ev: "ev (with_note w) = ev (world_inv net)" using assms(1) by (simp add: with_note_def)
  have "config_tab (with_note w) k = config_tab w k" if "k \<in> {''agent_uuid'', ''agent_token''}" for k
    using that by (auto simp: with_note_def Put_other)
  then show "inv_ready inv_engine1 ''tok'' (with_note w)"
    using assms ev by (simp add: inv_ready_def ready_def env_holds_secret_def tab_value_def)
  have "sql_ok w" using assms(2) by (simp add: inv_ready_def ready_def)
  then show "kv (with_note w) ''heartbeat_last_error'' = Some ''down''" by (simp add: with_note_def kv_Put run_simps)
  show "agent_step (inv_Sync inv_engine1) w (Local (PutOp ''heartbeat_last_error'' ''down'')) (with_note w)"
    unfolding with_note_def by (rule agent_step.local)
qed

lemma world_inv_queue: "queue_inv (world_inv net)"
  using world_inv_facts(3) [of net] world_beat_ready(5)
  by (simp add: queue_inv_def payloads_def) (simp add: world_inv_def world_beat_def rows_wf_def pending_rows_def)

section \<open>Properties\<close>

text \<open>
  C20. Skipping never loses a snapshot. In every run of the service from a database without a remembered fingerprint, passes of
  the hardware inventory with beats, software passes and any other steps of the workers between them, whatever fingerprint
  the agent remembers, and so skips its uploads by, is the fingerprint of a snapshot that was read from the machine,
  and the payload with it is in the queue or was carried by a request of the run that the Portal acknowledged.
\<close>

theorem remembered_is_safe:
  assumes "service_run i w reps v" and "sql_ok w" and "queue_inv w" and "kv w last_fp = None" and "kv v last_fp = Some fp"
  shows "\<exists>p n data. ip_Hardware p = reading w n \<and> ip_Fingerprint p = fp
    \<and> inv_Fingerprint (o_lower (ev w)) (reading w n) = Inr fp \<and> inv_marshal p = Inr data
    \<and> ((InventoryType, data) \<in> set (payloads v)
       \<or> acked (ev w) (inv_Sync i) (length (wire w)) (wire v) (InventoryType, data))"
proof -
  have "remembered i (length (wire w)) v fp" using run_remembers [OF assms(1-3)] assms(4,5) by simp
  moreover have "ev v = ev w" "reading v n = reading w n" for n using run_ev [OF assms(1)] by (simp_all add: reading_def)
  ultimately show ?thesis by (simp add: remembered_def safe_def)
qed

theorem remembered_is_safe_witness:
  "\<exists>w' p data. w' = snd (run_state (inv_RunOnce inv_engine1) (world_inv (\<lambda>_ _. Inl ''down'')))
    \<and> kv w' last_fp = Some fp_inv \<and> ip_Fingerprint p = fp_inv \<and> inv_marshal p = Inr data
    \<and> ((InventoryType, data) \<in> set (payloads w')
       \<or> acked (ev w') engine1 (length (wire (world_inv (\<lambda>_ _. Inl ''down'')))) (wire w') (InventoryType, data))"
proof -
  let ?w = "world_inv (\<lambda>_ _. Inl ''down'')"
  note facts = world_inv_facts [of "\<lambda>_ _. Inl ''down''"]
  obtain rep err w' where run: "run_state (inv_RunOnce inv_engine1) ?w = ((rep, err), w')" by (metis surj_pair)
  note q = queued_pass [OF run]
  have "service_run inv_engine1 ?w ([] @ [rep]) w'" by (rule service_run.pass [OF service_run.start run])
  moreover have fp: "kv w' last_fp = Some fp_inv"
    using queued_unrecorded(1) [OF facts(2,3) run q(1)] q(2) by (simp add: unrecorded_def)
  ultimately obtain p data where "ip_Fingerprint p = fp_inv" "inv_marshal p = Inr data"
    "(InventoryType, data) \<in> set (payloads w') \<or> acked (ev ?w) (inv_Sync inv_engine1) (length (wire ?w)) (wire w') (InventoryType, data)"
    using remembered_is_safe [OF _ facts(2) world_inv_queue facts(6)] by metis
  then show ?thesis
    using fp run q(3) by (intro exI [of _ w'] exI [of _ p] exI [of _ data]) (simp add: inv_engine1_def)
qed

text \<open>
  C21. A change that is delivered through the offline queue is never recorded. The pass that queues it remembers its fingerprint
  but adds nothing to the history, the timeline, the last changes and the time of the last success; and in every run of the
  service after it, with any number of passes and any steps of the other workers, as long as the passes read the same
  hardware, none of them sends or queues, these records stay as they were before the change, although a flush may have
  delivered the snapshot, and the status keeps the error that says queued until a pass fails for another reason.
\<close>

theorem queued_change_unrecorded:
  assumes "sql_ok w" and "rand_ok w" and "run_state (inv_RunOnce i) w = ((rep, err), w')" and "ir_Result rep = ''QUEUED''"
    and "service_run i w' reps v"
    and "\<forall>r\<in>set reps. ir_Result r \<in> {''SENT'', ''QUEUED'', ''SKIPPED''} \<longrightarrow> ir_Fingerprint r = ir_Fingerprint rep"
  shows "history_tab v = history_tab w
    \<and> kv v ''inventory_change_timeline'' = kv w ''inventory_change_timeline''
    \<and> kv v ''inventory_last_changes'' = kv w ''inventory_last_changes''
    \<and> kv v ''inventory_last_success'' = kv w ''inventory_last_success''
    \<and> kv v last_fp = Some (ir_Fingerprint rep)
    \<and> (\<forall>r\<in>set reps. ir_Result r \<notin> {''SENT'', ''QUEUED''})
    \<and> (''FAILED'' \<notin> ir_Result ` set reps \<longrightarrow> kv v ''inventory_last_error'' = Some (error_msg (the err)))"
proof -
  note q = queued_unrecorded [OF assms(1-4)]
  have "sql_ok w'" "rand_ok w'" using inv_RunOnce_frame(1) [of i w] assms(1-3) by simp_all
  note run = unrecorded_run [OF assms(5) this q(1) assms(6)]
  then show ?thesis using q(2) by (simp add: unrecorded_def sent_keys_def)
qed

theorem queued_change_unrecorded_witness:
  "\<exists>w' rep2 err2 v. w' = snd (run_state (inv_RunOnce inv_engine1) (world_inv (\<lambda>_ _. Inl ''down'')))
    \<and> run_state (inv_RunOnce inv_engine1) (with_note w') = ((rep2, err2), v)
    \<and> ir_Result rep2 = ''SKIPPED'' \<and> history_tab v = [] \<and> kv v ''inventory_last_success'' = None"
proof -
  let ?w = "world_inv (\<lambda>_ _. Inl ''down'')"
  note facts = world_inv_facts [of "\<lambda>_ _. Inl ''down''"]
  obtain rep err w' where run: "run_state (inv_RunOnce inv_engine1) ?w = ((rep, err), w')" by (metis surj_pair)
  note q = queued_pass [OF run]
  note n = with_note_facts [OF q(3,4)]
  obtain rep2 err2 v where run2: "run_state (inv_RunOnce inv_engine1) (with_note w') = ((rep2, err2), v)" by (metis surj_pair)
  have "service_run inv_engine1 w' [] (with_note w')"
    by (rule service_run.other [OF service_run.start n(4)]) (simp add: inv_keys_def)
  from service_run.pass [OF this run2] have "service_run inv_engine1 w' [rep2] v" by simp
  moreover have rep2: "ir_Fingerprint rep2 = fp_inv" "ir_Result rep2 \<in> {''SENT'', ''QUEUED'', ''SKIPPED''}"
    using world_inv_settled [OF n(1,2)] run2 by (auto simp: settled_def)
  ultimately have "history_tab v = history_tab ?w" "kv v ''inventory_last_success'' = kv ?w ''inventory_last_success''"
    "ir_Result rep2 \<notin> {''SENT'', ''QUEUED''}"
    using queued_change_unrecorded [OF facts(2,3) run q(1)] q(2) by simp_all
  moreover have "history_tab ?w = []" "kv ?w ''inventory_last_success'' = None"
    by (simp_all add: world_inv_def world_beat_def world1_def world0_def tab_value_def)
  ultimately show ?thesis
    using run run2 rep2(2) by (intro exI [of _ w'] exI [of _ rep2] exI [of _ err2] exI [of _ v]) auto
qed

end
