(* ===== verification/Processes.thy ===== *)
theory Processes
  imports Agent
begin

text \<open>
  Several processes of the agent on one database: the service, and commands of the command line (\<open>inventory\<close>,
  \<open>software\<close>), which flush the queue like the workers do. The mutex of the transport (\<open>sync/engine.go\<close>) makes \<open>Flush\<close> and
  \<open>SendJSON\<close> atomic within one process only; between processes only the statements of SQL are. Here \<open>Flush\<close> is cut at its
  statements: reading the page, sending a payload (which leaves the queue alone) and deleting its row are turns
  of their own.
\<close>

section \<open>A flush, turn by turn\<close>

text \<open>Where a process stands in \<open>Flush\<close>: before, with the rest of the page, between an acknowledged send and its delete, after.\<close>

datatype flush_state =
    Idle
  | Page "QueueItem list" int
  | Unremoved QueueItem "QueueItem list" int
  | Returned int "error option"

fun flush_turn :: "engine \<Rightarrow> flush_state \<Rightarrow> flush_state go" where
  "flush_turn e Idle = do {
    p \<leftarrow> Pending 100;
    State_Monad.return (case p of Inl err \<Rightarrow> Returned 0 (Some err) | Inr its \<Rightarrow> Page its 0)
  }"
| "flush_turn e (Page [] sent) = State_Monad.return (Returned sent None)"
| "flush_turn e (Page (it # its) sent) =
    (if routeForType (Type it) = [] then State_Monad.return (Page its sent)
     else do {
       r \<leftarrow> send e (routeForType (Type it)) (Type it) (Payload it) False;
       State_Monad.return (case snd r of Some err \<Rightarrow> Returned sent (Some err) | None \<Rightarrow> Unremoved it its sent)
     })"
| "flush_turn e (Unremoved it its sent) = do {
    d \<leftarrow> DeleteQueueItem (ID it);
    State_Monad.return (case d of Some err \<Rightarrow> Returned sent (Some err) | None \<Rightarrow> Page its (sent + 1))
  }"
| "flush_turn e (Returned sent err) = State_Monad.return Idle"

fun flush_turns :: "nat \<Rightarrow> engine \<Rightarrow> flush_state \<Rightarrow> flush_state go" where
  "flush_turns 0 e f = State_Monad.return f"
| "flush_turns (Suc n) e f =
    (case f of Returned sent err \<Rightarrow> State_Monad.return f | _ \<Rightarrow> do { g \<leftarrow> flush_turn e f; flush_turns n e g })"

text \<open>Without another process in between, the turns are \<open>Flush\<close>.\<close>

lemma flush_turns_returned [simp]: "flush_turns n e (Returned sent err) = State_Monad.return (Returned sent err)"
  by (cases n) simp_all

lemma flush_turns_items:
  "run_state (flush_turns (2 * length its + 1 + n) e (Page its sent)) w =
    (case run_state (flush_items e its sent) w of ((k, err), v) \<Rightarrow> (Returned k err, v))"
proof (induction its arbitrary: n sent w)
  case Nil
  then show ?case by simp
next
  case (Cons it its)
  have n: "2 * length (it # its) + 1 + n = Suc (Suc (2 * length its + 1 + n))" by simp
  have skip: "2 * length its + 1 + Suc n = Suc (2 * length its + 1 + n)" by simp
  show ?case
    unfolding n using Cons.IH [of n] Cons.IH [of "Suc n", unfolded skip]
    by (auto split: option.split prod.split)
qed

lemma Pending_page: "fst (run_state (Pending 100) w) = Inr its \<Longrightarrow> length its \<le> 100"
  by (auto simp: Pending_def select_pending_def split: option.splits dest!: scan_rows_result)

text \<open>A page has at most 100 payloads of two turns each; one more turn reads it and one sees its end.\<close>

lemma flush_turns_Flush:
  assumes "202 \<le> n"
  shows "run_state (flush_turns n e Idle) w = (case run_state (Flush e) w of ((k, err), v) \<Rightarrow> (Returned k err, v))"
proof (cases "fst (run_state (Pending 100) w)")
  case (Inl err)
  moreover obtain m where "n = Suc m" using assms by (cases n) simp_all
  ultimately show ?thesis by (simp add: Flush_def)
next
  case (Inr its)
  then obtain m where "n = Suc (2 * length its + 1 + m)"
    using assms Pending_page [OF Inr] le_Suc_ex [of "Suc (2 * length its + 1)" n] by auto
  then show ?thesis using Inr flush_turns_items [of its m e 0] by (simp add: Flush_def)
qed

section \<open>Processes on one database\<close>

text \<open>
  A process is known by a number, and has a transport of its own. An event of a run is an operation of some process that leaves
  the queue alone, a payload handed over by one (not while its transport is locked by a flush of its own), or a turn of a flush.
\<close>

datatype event = Elsewhere local_op | Handed nat string string "error option" | FlushTurn nat

type_synonym system = "(nat \<Rightarrow> flush_state) \<times> world"

inductive sys_step :: "(nat \<Rightarrow> engine) \<Rightarrow> system \<Rightarrow> event \<Rightarrow> system \<Rightarrow> bool" for es where
  elsewhere: "sys_step es (fs, w) (Elsewhere x) (fs, run_local x w)"
| handed: "fs i = Idle \<Longrightarrow> t \<in> payload_types \<Longrightarrow>
    run_state (SendJSON (es i) (routeForType t) t (Inr data)) w = ((res, err), w') \<Longrightarrow>
    sys_step es (fs, w) (Handed i t data err) (fs, w')"
| flush: "run_state (flush_turn (es i) (fs i)) w = (f, w') \<Longrightarrow> sys_step es (fs, w) (FlushTurn i) (fs(i := f), w')"

inductive sys_path :: "(nat \<Rightarrow> engine) \<Rightarrow> system \<Rightarrow> event list \<Rightarrow> system \<Rightarrow> bool" for es where
  here: "sys_path es s [] s"
| more: "sys_path es s ls u \<Longrightarrow> sys_step es u l v \<Longrightarrow> sys_path es s (ls @ [l]) v"

inductive_cases elsewhereE: "sys_step es s (Elsewhere x) u"
inductive_cases handedE: "sys_step es s (Handed i t data err) u"
inductive_cases flushE: "sys_step es s (FlushTurn i) u"

section \<open>One process that flushes\<close>

text \<open>What a process knows of the queue in the middle of a flush, as long as no other process removes payloads.\<close>

definition holds_page :: "flush_state \<Rightarrow> world \<Rightarrow> bool" where
  "holds_page f w \<longleftrightarrow>
    (case f of Page its _ \<Rightarrow> \<exists>rest. queued w = map item_row its @ rest
     | Unremoved it its _ \<Rightarrow> \<exists>rest. queued w = map item_row (it # its) @ rest
     | _ \<Rightarrow> True)"

definition unremoved_acked :: "env \<Rightarrow> engine \<Rightarrow> nat \<Rightarrow> flush_state \<Rightarrow> world \<Rightarrow> bool" where
  "unremoved_acked E e k f w \<longleftrightarrow>
    (case f of Unremoved it _ _ \<Rightarrow> acked E e k (wire w) (Type it, Payload it) | _ \<Rightarrow> True)"

definition grows :: "world \<Rightarrow> world \<Rightarrow> bool" where
  "grows w v \<longleftrightarrow> ev v = ev w \<and> (\<exists>rs. wire v = wire w @ rs)"

lemma grows_refl [simp]: "grows w w"
  by (simp add: grows_def)

lemma grows_trans: "grows w v \<Longrightarrow> grows v x \<Longrightarrow> grows w x"
  by (auto simp: grows_def)

lemma grows_acked: "grows w v \<Longrightarrow> acked E e k (wire w) p \<Longrightarrow> acked E e k (wire v) p"
  unfolding grows_def using acked_more by metis

lemma grows_acked_from: "grows w v \<Longrightarrow> acked E e (length (wire v)) ws p \<Longrightarrow> acked E e (length (wire w)) ws p"
  unfolding grows_def using acked_earlier by (metis length_append le_add1)

lemma holds_page_append: "holds_page f w \<Longrightarrow> queued v = queued w @ xs \<Longrightarrow> holds_page f v"
  by (auto simp: holds_page_def split: flush_state.splits)

text \<open>A turn of the flush: nothing leaves the queue but an acknowledged payload.\<close>

lemma flush_turn_safe:
  assumes "queue_inv w" and "holds_page f w" and "unremoved_acked (ev w) e k f w" and "k \<le> length (wire w)"
    and "run_state (flush_turn e f) w = (f', w')"
  shows "queue_inv w' \<and> holds_page f' w' \<and> unremoved_acked (ev w) e k f' w' \<and> grows w w'
    \<and> (\<forall>p\<in>set (payloads w). p \<in> set (payloads w') \<or> acked (ev w) e k (wire w') p)"
proof (cases f)
  case Idle
  then have "w' = snd (run_state (Pending 100) w)"
    "f' = (case fst (run_state (Pending 100) w) of Inl err \<Rightarrow> Returned 0 (Some err) | Inr its \<Rightarrow> Page its 0)"
    using assms(5) by auto
  moreover have "holds_page (Page its 0) (snd (run_state (Pending 100) w))"
    if "fst (run_state (Pending 100) w) = Inr its" for its
    using Pending_result [OF that] assms(1) unfolding holds_page_def queue_inv_def
    by (auto intro!: exI [of _ "drop 100 (queued w)"])
  ultimately show ?thesis
    using assms(1) by (auto simp: queue_inv_def payloads_def grows_def unremoved_acked_def holds_page_def split: sum.split)
next
  case (Returned n err)
  then show ?thesis using assms by (simp add: holds_page_def unremoved_acked_def)
next
  case (Page its n)
  show ?thesis
  proof (cases its)
    case Nil
    then show ?thesis using assms by (auto simp: Page holds_page_def unremoved_acked_def)
  next
    case (Cons it its')
    obtain rest where rest: "queued w = map item_row (it # its') @ rest" using assms(2) by (auto simp: holds_page_def Page Cons)
    have route: "routeForType (Type it) \<noteq> []"
      using queue_inv_routable [OF assms(1)] rest by (simp add: routable_def item_row_def)
    define s where "s = run_state (send e (routeForType (Type it)) (Type it) (Payload it) False) w"
    have s: "w' = snd s" "f' = (case snd (fst s) of Some err \<Rightarrow> Returned n (Some err) | None \<Rightarrow> Unremoved it its' n)"
      using assms(5) route by (simp_all add: Page Cons s_def)
    have frame: "queue_tab (snd s) = queue_tab w" "ev (snd s) = ev w" by (simp_all add: s_def)
    have r: "rand_ok w" using assms(1) by (simp add: queue_inv_def)
    obtain rs where wire: "wire (snd s) = wire w @ rs"
      using send_wire [OF r, of e "routeForType (Type it)" "Type it" "Payload it" False] unfolding s_def by metis
    have "acked (ev w) e k (wire (snd s)) (Type it, Payload it)" if none: "snd (fst s) = None"
    proof -
      obtain ss q token where q: "wire (snd s) = (wire w @ ss) @ [q]"
        "carries (ev w) e token (routeForType (Type it)) (Payload it) q" "portal_ok (o_net (ev w) (length (wire w @ ss)) q)"
        using iffD1 [OF conjunct2 [OF send_report [OF r, of e "routeForType (Type it)" "Type it" "Payload it" False]]
            none [unfolded s_def]] unfolding s_def by auto
      show ?thesis unfolding q(1) using acked_last [OF q(2,3)] assms(4) by simp
    qed
    moreover have "holds_page f' w'"
      using frame rest by (auto simp: s holds_page_def split: option.split)
    ultimately show ?thesis
      using assms(1) frame wire
      by (auto simp: s queue_inv_def payloads_def grows_def unremoved_acked_def split: option.split)
  qed
next
  case (Unremoved it its n)
  obtain rest where rest: "queued w = (ID it, Type it, Payload it) # map item_row its @ rest"
    using assms(2) by (auto simp: holds_page_def Unremoved item_row_def)
  define d where "d = run_state (DeleteQueueItem (ID it)) w"
  have d: "w' = snd d" "f' = (case fst d of Some err \<Rightarrow> Returned n (Some err) | None \<Rightarrow> Page its (n + 1))"
    using assms(5) by (simp_all add: Unremoved d_def)
  have wf: "queue_wf w" using assms(1) by (simp add: queue_inv_def)
  have frame: "ev (snd d) = ev w" "wire (snd d) = wire w" by (simp_all add: d_def)
  have "queued (snd d) = (if fst d = None then map item_row its @ rest else queued w)"
    using queue.del_head [OF wf rest] queue.del_fails [OF wf] unfolding d_def by simp
  moreover have "queue_wf (snd d)" using DeleteQueueItem_wf [OF wf] by (simp add: d_def)
  moreover have "acked (ev w) e k (wire w) (Type it, Payload it)" using assms(3) by (simp add: unremoved_acked_def Unremoved)
  ultimately show ?thesis
    using assms(1) frame rest
    by (auto simp: d queue_inv_def payloads_def grows_def unremoved_acked_def holds_page_def split: option.split)
qed

text \<open>A payload handed over goes to the end of the queue or to the Portal, and disturbs no page.\<close>

lemma handed_safe:
  assumes "queue_inv w" and "t \<in> payload_types"
    and "run_state (SendJSON e (routeForType t) t (Inr data)) w = ((res, err), w')"
  shows "queue_inv w' \<and> grows w w' \<and> (\<exists>xs. queued w' = queued w @ xs)
    \<and> (is_queued err \<longrightarrow> (t, data) \<in> set (payloads w')) \<and> (err = None \<longrightarrow> acked (ev w) e (length (wire w)) (wire w') (t, data))"
proof -
  have r: "rand_ok w" using assms(1) by (simp add: queue_inv_def)
  have "agent_step e w (Sent t data err) w'" by (rule agent_step.send [OF assms(2,3)])
  then have "queue_inv w'" "ev w' = ev w" using step_accounts [OF _ assms(1)] step_ev by blast+
  moreover have "\<exists>xs. queued w' = queued w @ xs"
    using send_report [OF r, of e "routeForType t" t data True] assms(3) by (simp add: SendJSON_def)
  ultimately show ?thesis using send_accounts [OF r assms(3)] by (auto simp: grows_def)
qed

text \<open>What holds along a run in which only process \<open>p\<close> flushes.\<close>

definition given_over :: "world \<Rightarrow> event list \<Rightarrow> payload set" where
  "given_over w ls = set (payloads w) \<union> {(t, data). \<exists>i err. Handed i t data err \<in> set ls \<and> (err = None \<or> is_queued err)}"

definition one_flusher :: "(nat \<Rightarrow> engine) \<Rightarrow> nat \<Rightarrow> world \<Rightarrow> event list \<Rightarrow> system \<Rightarrow> bool" where
  "one_flusher es p w ls s \<longleftrightarrow>
    (let (fs, v) = s
     in queue_inv v \<and> grows w v \<and> holds_page (fs p) v \<and> unremoved_acked (ev w) (es p) (length (wire w)) (fs p) v
        \<and> (\<forall>q\<in>given_over w ls. q \<in> set (payloads v) \<or> (\<exists>j. acked (ev w) (es j) (length (wire w)) (wire v) q)))"

lemma one_flusher_step:
  assumes "one_flusher es p w ls s" and "sys_step es s l u" and "\<forall>i. l = FlushTurn i \<longrightarrow> i = p"
  shows "one_flusher es p w (ls @ [l]) u"
proof -
  obtain fs v where s: "s = (fs, v)" by (cases s)
  have inv: "queue_inv v" "grows w v" "holds_page (fs p) v" "unremoved_acked (ev w) (es p) (length (wire w)) (fs p) v"
    and safe: "\<And>q. q \<in> given_over w ls \<Longrightarrow> q \<in> set (payloads v) \<or> (\<exists>j. acked (ev w) (es j) (length (wire w)) (wire v) q)"
    using assms(1) by (auto simp: one_flusher_def s)
  have ev: "ev v = ev w" and len: "length (wire w) \<le> length (wire v)" using inv(2) by (auto simp: grows_def)
  show ?thesis
  proof (cases l)
    case (Elsewhere x)
    then have u: "u = (fs, run_local x v)" using assms(2) by (auto simp: s elim: elsewhereE)
    have "given_over w (ls @ [l]) = given_over w ls" by (auto simp: given_over_def Elsewhere)
    then show ?thesis
      using inv safe by (auto simp: one_flusher_def u queue_inv_def payloads_def grows_def holds_page_def unremoved_acked_def
          split: flush_state.splits)
  next
    case (Handed i t data err)
    then obtain res v' where u: "u = (fs, v')" and t: "t \<in> payload_types"
      and run: "run_state (SendJSON (es i) (routeForType t) t (Inr data)) v = ((res, err), v')"
      using assms(2) by (auto simp: s elim: handedE)
    note h = handed_safe [OF inv(1) t run]
    then obtain xs where xs: "queued v' = queued v @ xs" by blast
    have new: "given_over w (ls @ [l]) \<subseteq> given_over w ls \<union> (if err = None \<or> is_queued err then {(t, data)} else {})"
      by (auto simp: given_over_def Handed)
    have "set (payloads v) \<subseteq> set (payloads v')" using xs by (simp add: payloads_def)
    then have old: "q \<in> set (payloads v') \<or> (\<exists>j. acked (ev w) (es j) (length (wire w)) (wire v') q)" if "q \<in> given_over w ls" for q
      using safe [OF that] grows_acked h by blast
    have "err = None \<Longrightarrow> acked (ev w) (es i) (length (wire w)) (wire v') (t, data)"
      using h grows_acked_from [OF inv(2)] ev by metis
    then have all: "\<forall>q\<in>given_over w (ls @ [l]). q \<in> set (payloads v') \<or> (\<exists>j. acked (ev w) (es j) (length (wire w)) (wire v') q)"
      using new old h by (auto split: if_splits)
    have "unremoved_acked (ev w) (es p) (length (wire w)) (fs p) v'"
      using inv(4) grows_acked h by (auto simp: unremoved_acked_def split: flush_state.splits)
    then show ?thesis
      unfolding one_flusher_def u Let_def prod.case
      using all h grows_trans [OF inv(2)] holds_page_append [OF inv(3) xs] by blast
  next
    case (FlushTurn i)
    then obtain f v' where u: "u = (fs(p := f), v')" and run: "run_state (flush_turn (es p) (fs p)) v = (f, v')"
      using assms(2,3) by (auto simp: s elim!: flushE)
    note t = flush_turn_safe [OF inv(1,3) inv(4) [folded ev] len run]
    have "given_over w (ls @ [l]) = given_over w ls" by (auto simp: given_over_def FlushTurn)
    moreover have "q \<in> set (payloads v') \<or> (\<exists>j. acked (ev w) (es j) (length (wire w)) (wire v') q)" if "q \<in> given_over w ls" for q
      using safe [OF that] t grows_acked ev by metis
    moreover have "grows w v'" using grows_trans [OF inv(2)] t by blast
    ultimately show ?thesis using t ev by (simp add: one_flusher_def u)
  qed
qed

lemma one_flusher_path:
  assumes "sys_path es (fs, w) ls u" and "fs p = Idle" and "queue_inv w" and "\<forall>i. FlushTurn i \<in> set ls \<longrightarrow> i = p"
  shows "one_flusher es p w ls u"
  using assms(1,4)
proof (induction "(fs, w)" ls u rule: sys_path.induct)
  case here
  then show ?case using assms(2,3) by (auto simp: one_flusher_def holds_page_def unremoved_acked_def given_over_def)
next
  case (more ls u l v)
  then show ?case using one_flusher_step by (metis in_set_conv_decomp UnCI set_append)
qed

section \<open>Two processes that flush\<close>

text \<open>The turns of a flush of a registered process, with a database that works.\<close>

definition same_but_queue :: "world \<Rightarrow> world \<Rightarrow> bool" where
  "same_but_queue v w \<longleftrightarrow> ev v = ev w \<and> config_tab v = config_tab w"

lemma page_turn:
  assumes "sql_ok w" and "queue_wf w"
  obtains its v where "run_state (flush_turn e Idle) w = (Page its 0, v)" "map item_row its = take 100 (queued w)"
    "same_but_queue v w" "queue_tab v = queue_tab w" "wire v = wire w"
proof -
  obtain its where its: "fst (run_state (Pending 100) w) = Inr its" using Pending_ok [OF assms(1)] by blast
  then have "run_state (flush_turn e Idle) w = (Page its 0, snd (run_state (Pending 100) w))" by simp
  then show thesis using that Pending_result [OF its assms(2)] by (simp add: same_but_queue_def)
qed

lemma send_turn:
  assumes "ready e token w" and "e_Compression e = []" and "routeForType (Type it) \<noteq> []"
    and "\<And>n q. rq_body q = Body (Payload it) None None \<Longrightarrow> portal_ok (o_net (ev w) n q)"
  obtains v where "run_state (flush_turn e (Page [it] 0)) w = (Unremoved it [] 0, v)" "same_but_queue v w" "queue_tab v = queue_tab w"
proof -
  define s where "s = run_state (send e (routeForType (Type it)) (Type it) (Payload it) False) w"
  obtain rs where rs: "rs \<noteq> []" "\<forall>r\<in>set rs. carries (ev w) e token (routeForType (Type it)) (Payload it) r"
    "snd (fst s) = None \<longleftrightarrow> portal_ok (o_net (ev w) (length (wire w) + (length rs - 1)) (List.last rs))"
    unfolding s_def by (rule send_ready [OF assms(1)])
  have "carries (ev w) e token (routeForType (Type it)) (Payload it) (List.last rs)" using rs(1,2) by simp
  then have "rq_body (List.last rs) = Body (Payload it) None None"
    using assms(2) by (simp add: carries_def encodePayload_def)
  then have "snd (fst s) = None" using rs(3) assms(4) by simp
  then show thesis using that [of "snd s"] assms(3) by (simp add: s_def same_but_queue_def)
qed

lemma delete_turn:
  assumes "sql_ok w" and "queue_wf w"
  obtains v where "run_state (flush_turn e (Unremoved it [] 0)) w = (Page [] 1, v)" "same_but_queue v w" "queue_wf v"
    "queued v = filter (\<lambda>x. fst x \<noteq> ID it) (queued w)" "wire v = wire w"
proof -
  have ok: "fst (run_state (DeleteQueueItem (ID it)) w) = None"
    using assms(1) by (simp add: DeleteQueueItem_def run_simps)
  show thesis
    by (rule that [of "snd (run_state (DeleteQueueItem (ID it)) w)"])
      (use ok queue.del_removes [OF assms(2)] DeleteQueueItem_wf [OF assms(2)] in \<open>simp_all add: same_but_queue_def\<close>)
qed

lemma refused_is_queued:
  assumes "ready e token w" and "never_cancelled w" and "e_Compression e = []" and "queue_wf w" and "queued w = []"
    and "\<And>n q. rq_body q = Body data None None \<Longrightarrow> \<not> portal_ok (o_net (ev w) n q)"
  obtains res err v where "run_state (SendJSON e (routeForType t) t (Inr data)) w = ((res, err), v)" "is_queued err"
    "queued v = [(1, t, data)]" "same_but_queue v w" "queue_wf v"
proof -
  define s where "s = run_state (send e (routeForType t) t data True) w"
  have run: "run_state (SendJSON e (routeForType t) t (Inr data)) w = ((fst (fst s), snd (fst s)), snd s)"
    by (simp add: SendJSON_def s_def)
  obtain rs where rs: "rs \<noteq> []" "\<forall>r\<in>set rs. carries (ev w) e token (routeForType t) data r"
    "snd (fst s) = None \<longleftrightarrow> portal_ok (o_net (ev w) (length (wire w) + (length rs - 1)) (List.last rs))"
    unfolding s_def by (rule send_ready [OF assms(1)])
  have "carries (ev w) e token (routeForType t) data (List.last rs)" using rs(1,2) by simp
  then have "rq_body (List.last rs) = Body data None None" using assms(3) by (simp add: carries_def encodePayload_def)
  then have "snd (fst s) \<noteq> None" using rs(3) assms(6) by simp
  then have q: "is_queued (snd (fst s))" using send_ready_queues [OF assms(1,2)] by (simp add: s_def)
  have "queue_tab w = []" using queued_ids [OF assms(4)] assms(5) by simp
  then have "queued (snd s) = [(1, t, data)]"
    using send_queue_effect [of e "routeForType t" t data True w] q assms(5) by (simp add: s_def next_rowid_def)
  then show thesis using that [OF run q] send_wf [OF assms(4)] by (simp add: s_def same_but_queue_def)
qed

lemma path_turn:
  "sys_path es s ls (fs, w) \<Longrightarrow> run_state (flush_turn (es i) (fs i)) w = (f, v) \<Longrightarrow>
    sys_path es s (ls @ [FlushTurn i]) (fs(i := f), v)"
  by (rule sys_path.more [OF _ sys_step.flush])

lemma never_acked:
  assumes "\<And>n q. rq_body q = Body data None None \<Longrightarrow> \<not> portal_ok (o_net E n q)" and "e_Compression e = []"
  shows "\<not> acked E e k ws (t, data)"
  using assms by (auto simp: acked_def carries_def encodePayload_def)

text \<open>
  Registered processes whose Portal acknowledges everything but one payload, and two of them that flush: while the first has
  read the only payload of the queue, the second delivers and removes it.
\<close>

definition racing :: "(nat \<Rightarrow> engine) \<Rightarrow> string \<Rightarrow> string \<Rightarrow> world \<Rightarrow> bool" where
  "racing es token data w \<longleftrightarrow>
    (\<forall>i. ready (es i) token w \<and> e_Compression (es i) = []) \<and> never_cancelled w
    \<and> (\<forall>n q. portal_ok (o_net (ev w) n q) \<longleftrightarrow> rq_body q \<noteq> Body data None None)"

lemma racing_keep: "racing es token data w \<Longrightarrow> same_but_queue v w \<Longrightarrow> racing es token data v"
  using ready_cong [of v w] by (simp add: racing_def same_but_queue_def)

lemma racing_facts:
  assumes "racing es token data w"
  shows "ready (es i) token w" "e_Compression (es i) = []" "sql_ok w" "never_cancelled w"
    "portal_ok (o_net (ev w) n q) \<longleftrightarrow> rq_body q \<noteq> Body data None None"
  using assms by (auto simp: racing_def ready_def)

lemma page_of_one:
  assumes "racing es token data w" and "queue_wf w" and "queued w = [row]"
  obtains it v where "run_state (flush_turn e Idle) w = (Page [it] 0, v)" "item_row it = row" "racing es token data v"
    "same_but_queue v w" "queue_tab v = queue_tab w"
proof -
  obtain its v where page: "run_state (flush_turn e Idle) w = (Page its 0, v)" "map item_row its = take 100 (queued w)"
    "same_but_queue v w" "queue_tab v = queue_tab w" "wire v = wire w"
    by (rule page_turn [OF racing_facts(3) [OF assms(1)] assms(2)])
  then obtain it where "its = [it]" "item_row it = row" using assms(3) by auto
  then show thesis using that page racing_keep [OF assms(1)] by simp
qed

lemma deliver_one:
  assumes "racing es token data w" and "queue_wf w" and "routeForType (Type it) \<noteq> []" and "Payload it \<noteq> data"
  obtains v x where "run_state (flush_turn (es i) (Page [it] 0)) w = (Unremoved it [] 0, v)"
    "run_state (flush_turn (es i) (Unremoved it [] 0)) v = (Page [] 1, x)" "same_but_queue x w" "racing es token data x"
    "queue_wf x" "queued x = filter (\<lambda>r. fst r \<noteq> ID it) (queued w)"
proof -
  note facts = racing_facts [OF assms(1)]
  obtain v where v: "run_state (flush_turn (es i) (Page [it] 0)) w = (Unremoved it [] 0, v)" "same_but_queue v w"
    "queue_tab v = queue_tab w"
    by (rule send_turn [OF facts(1,2) assms(3)]) (use facts(5) assms(4) in auto)
  have wf: "queue_wf v" "sql_ok v" using assms(2) v(3) racing_facts(3) [OF racing_keep [OF assms(1) v(2)]] by simp_all
  obtain x where x: "run_state (flush_turn (es i) (Unremoved it [] 0)) v = (Page [] 1, x)" "same_but_queue x v" "queue_wf x"
    "queued x = filter (\<lambda>r. fst r \<noteq> ID it) (queued v)" "wire x = wire v"
    by (rule delete_turn [OF wf(2,1)])
  have "same_but_queue x w" using x(2) v(2) by (simp add: same_but_queue_def)
  then show thesis using that v x racing_keep [OF assms(1)] by simp
qed

lemma stale_page:
  assumes "racing es token data w" and "queue_wf w" and "queued w = [(1, t, d)]" and "routeForType t \<noteq> []" and "d \<noteq> data"
  obtains ls it x where "sys_path es (\<lambda>_. Idle, w) ls ((\<lambda>_. Idle) (0 := Page [it] 0, 1 := Page [] 1), x)"
    "item_row it = (1, t, d)" "same_but_queue x w" "racing es token data x" "queue_wf x" "queued x = []"
proof -
  let ?f = "\<lambda>_::nat. Idle"
  obtain a w1 where a: "run_state (flush_turn (es 0) Idle) w = (Page [a] 0, w1)" "item_row a = (1, t, d)"
    "racing es token data w1" "same_but_queue w1 w" "queue_tab w1 = queue_tab w"
    by (rule page_of_one [OF assms(1-3)])
  have w1: "queue_wf w1" "queued w1 = [(1, t, d)]" using a(5) assms(2,3) by simp_all
  obtain b w2 where b: "run_state (flush_turn (es 1) Idle) w1 = (Page [b] 0, w2)" "item_row b = (1, t, d)"
    "racing es token data w2" "same_but_queue w2 w1" "queue_tab w2 = queue_tab w1"
    by (rule page_of_one [OF a(3) w1])
  have w2: "queue_wf w2" "queued w2 = [(1, t, d)]" using b(5) w1 by simp_all
  have it: "ID b = 1" "Type b = t" "Payload b = d" using b(2) by (simp_all add: item_row_def)
  obtain w3 w4 where c: "run_state (flush_turn (es 1) (Page [b] 0)) w2 = (Unremoved b [] 0, w3)"
    "run_state (flush_turn (es 1) (Unremoved b [] 0)) w3 = (Page [] 1, w4)" "same_but_queue w4 w2" "racing es token data w4"
    "queue_wf w4" "queued w4 = filter (\<lambda>r. fst r \<noteq> ID b) (queued w2)"
    by (rule deliver_one [OF b(3) w2(1)]) (use it assms(4,5) in auto)
  have "sys_path es (?f, w) [FlushTurn 0] (?f(0 := Page [a] 0), w1)"
    using path_turn [OF sys_path.here, of es 0 ?f w] a(1) by simp
  from path_turn [OF this, of 1] b(1)
  have "sys_path es (?f, w) [FlushTurn 0, FlushTurn 1] (?f(0 := Page [a] 0, 1 := Page [b] 0), w2)" by simp
  from path_turn [OF this, of 1] c(1)
  have "sys_path es (?f, w) [FlushTurn 0, FlushTurn 1, FlushTurn 1] (?f(0 := Page [a] 0, 1 := Unremoved b [] 0), w3)" by simp
  from path_turn [OF this, of 1] c(2)
  have "sys_path es (?f, w) [FlushTurn 0, FlushTurn 1, FlushTurn 1, FlushTurn 1] (?f(0 := Page [a] 0, 1 := Page [] 1), w4)"
    by simp
  then show thesis using that a(2,4) b(4) c(3-6) it(1) w2(2) by (simp add: same_but_queue_def)
qed

text \<open>Two processes of a registered agent, with a Portal that cannot be reached for one of the payloads.\<close>

definition world_race :: world where
  "world_race = world1\<lparr>queue_tab := [queue_row1 1 ''inventory'' ''{}''],
    ev := (ev world1)\<lparr>o_net := \<lambda>n q. if rq_body q = Body ''[2]'' None None then Inl ''down'' else o_net (ev world1) n q\<rparr>\<rparr>"

section \<open>Properties\<close>

text \<open>
  C11. One process that flushes is enough for the others to be safe, even though their statements fall between those of its flush: if
  no other process flushes, whatever was queued at the beginning, or handed over by any process since and reported as sent
  or queued, is still in the queue or was carried by a request that the Portal acknowledged.
\<close>

theorem one_flusher_is_safe:
  assumes "sys_path es (\<lambda>_. Idle, w) ls (fs, v)" and "queue_inv w" and "\<forall>i. FlushTurn i \<in> set ls \<longrightarrow> i = p"
    and "(t, data) \<in> given_over w ls"
  shows "(t, data) \<in> set (payloads v) \<or> (\<exists>j. acked (ev w) (es j) (length (wire w)) (wire v) (t, data))"
  using one_flusher_path [OF assms(1) _ assms(2,3)] assms(4) by (auto simp: one_flusher_def)


theorem one_flusher_is_safe_witness:
  "\<exists>v. sys_path (\<lambda>_. engine1) (\<lambda>_. Idle, world1) [FlushTurn 0] v
    \<and> ((''inventory'', ''{}'') \<in> set (payloads (snd v))
      \<or> (\<exists>j. acked (ev world1) engine1 (length (wire world1)) (wire (snd v)) (''inventory'', ''{}'')))"
proof -
  obtain f v where "run_state (flush_turn engine1 Idle) world1 = (f, v)" by (metis surj_pair)
  then have path: "sys_path (\<lambda>_. engine1) (\<lambda>_. Idle, world1) [FlushTurn 0] ((\<lambda>_. Idle) (0 := f), v)"
    using path_turn [OF sys_path.here, of "\<lambda>_. engine1" 0 "\<lambda>_. Idle" world1] by simp
  have "(''inventory'', ''{}'') \<in> given_over world1 [FlushTurn 0]" by (simp add: given_over_def payloads_def world1_facts(5))
  from one_flusher_is_safe [OF path world1_inv _ this] path show ?thesis by auto
qed

text \<open>
  C14. Two processes that flush at the same time can lose a payload. SQLite gives out the id of a deleted row again: both read
  the only payload of the queue, one delivers and removes it, a payload handed over meanwhile is queued under the same id, and
  the other, which delivers the old payload a second time, removes the new one by that id. It was reported as queued,
  is not in the queue, and was never acknowledged.
\<close>

theorem two_flushers_lose:
  assumes "racing es token data w" and "queue_wf w" and "queued w = [(1, t, d)]" and "t \<in> payload_types"
    and "t' \<in> payload_types" and "d \<noteq> data"
  shows "\<exists>ls fs v err. sys_path es (\<lambda>_. Idle, w) ls (fs, v) \<and> Handed 2 t' data err \<in> set ls \<and> is_queued err
    \<and> (t', data) \<notin> set (payloads v) \<and> (\<forall>j k. \<not> acked (ev w) (es j) k (wire v) (t', data))"
proof -
  have route: "routeForType t \<noteq> []" using payload_routes(7) [OF assms(4)] .
  obtain ls a x where a: "sys_path es (\<lambda>_. Idle, w) ls ((\<lambda>_. Idle) (0 := Page [a] 0, 1 := Page [] 1), x)"
    "item_row a = (1, t, d)" "same_but_queue x w" "racing es token data x" "queue_wf x" "queued x = []"
    by (rule stale_page [OF assms(1-3) route assms(6)])
  note facts = racing_facts [OF a(4)]
  obtain res err y where y: "run_state (SendJSON (es 2) (routeForType t') t' (Inr data)) x = ((res, err), y)" "is_queued err"
    "queued y = [(1, t', data)]" "same_but_queue y x" "queue_wf y"
    by (rule refused_is_queued [OF facts(1,4,2) a(5,6)]) (use facts(5) in auto)
  obtain u v where v: "run_state (flush_turn (es 0) (Page [a] 0)) y = (Unremoved a [] 0, u)"
    "run_state (flush_turn (es 0) (Unremoved a [] 0)) u = (Page [] 1, v)" "same_but_queue v y" "racing es token data v"
    "queue_wf v" "queued v = filter (\<lambda>r. fst r \<noteq> ID a) (queued y)"
    by (rule deliver_one [OF racing_keep [OF a(4) y(4)] y(5)]) (use a(2) route assms(6) in \<open>auto simp: item_row_def\<close>)
  from sys_path.more [OF a(1) sys_step.handed [of _ 2 t' es data x res err y]] y(1) assms(5)
  have "sys_path es (\<lambda>_. Idle, w) (ls @ [Handed 2 t' data err]) ((\<lambda>_. Idle) (0 := Page [a] 0, 1 := Page [] 1), y)" by simp
  from path_turn [OF this, of 0] v(1)
  have "sys_path es (\<lambda>_. Idle, w) (ls @ [Handed 2 t' data err, FlushTurn 0])
      ((\<lambda>_. Idle) (0 := Unremoved a [] 0, 1 := Page [] 1), u)" by (simp add: fun_upd_twist)
  from path_turn [OF this, of 0] v(2)
  have "sys_path es (\<lambda>_. Idle, w) (ls @ [Handed 2 t' data err, FlushTurn 0, FlushTurn 0])
      ((\<lambda>_. Idle) (0 := Page [] 1, 1 := Page [] 1), v)" by (simp add: fun_upd_twist)
  moreover have "\<not> acked (ev w) (es j) k (wire v) (t', data)" for j k
    using never_acked racing_facts(2,5) [OF assms(1)] by simp
  moreover have "payloads v = []" using v(6) y(3) a(2) by (simp add: payloads_def item_row_def)
  ultimately show ?thesis using y(2) by (intro exI conjI) (assumption, simp_all)
qed

theorem two_flushers_lose_witness:
  "\<exists>ls fs v err. sys_path (\<lambda>_. engine1) (\<lambda>_. Idle, world_race) ls (fs, v) \<and> Handed 2 HeartbeatType ''[2]'' err \<in> set ls
    \<and> is_queued err \<and> (HeartbeatType, ''[2]'') \<notin> set (payloads v)"
proof -
  have q: "queue_wf world_race" "queued world_race = [(1, InventoryType, ''{}'')]"
    by (simp_all add: world_race_def rows_wf_def pending_rows_def queue_row1_def InventoryType_def)
  have "ready engine1 ''tok'' world_race"
    using world1_ready by (simp add: ready_def world_race_def env_sql_ok_def env_rand_ok_def env_holds_secret_def)
  moreover have "e_Compression engine1 = []" by (simp add: engine1_def New_engine_def ToLower_def is_ascii_def)
  moreover have "never_cancelled world_race" using world1_facts(4) by (simp add: world_race_def env_background_def)
  ultimately have "racing (\<lambda>_. engine1) ''tok'' ''[2]'' world_race"
    using world1_facts(6) by (auto simp: racing_def) (simp_all add: world_race_def portal_ok_def)
  from two_flushers_lose [OF this q payload_routes(2,1)] show ?thesis by auto
qed

end
