(* ===== verification/Spec2Isabelle.thy ===== *)
theory Spec2Isabelle
  imports Conformance EntryPoint FirstStart Freshness InvDelivery InvRuns Processes Unchanged
begin

text \<open>
  Verification library of the IT Portal agent (Go, \<open>src/\<close>), a Windows service that registers a machine with a
  Portal, reports heartbeats, hardware and software to it and keeps what it cannot deliver in an offline queue.

  \<^bold>\<open>The program and its model.\<close> Every operation with effects is a \<open>State_Monad\<close> computation over one \<open>world\<close>: the three
  tables of the SQLite database, the configuration file, and logs of the requests sent, the waits, the lines
  printed and the programs run. What is not under \<open>src/\<close> is a parameter: the record \<open>env\<close> of \<open>World\<close> gives the outcome
  of every interaction (failures of the SQLite driver and the file system, clock, cancellation of the context, random
  source, data protection calls, network and Portal, registry, WMI rows, programs), indexed by counters, so that two calls
  may differ; \<open>platform\<close> of \<open>WindowsService\<close> gives what the operating system decides for the service. Theorems quantify over
  both; documented behaviour they rely on is a named hypothesis (\<open>sql_ok\<close>, \<open>rand_ok\<close>, \<open>dpapi_ok\<close>, \<open>ready\<close> and so on).
  Errors are values of \<open>error\<close>, fallible calls return \<open>error + 'a\<close>.

  \<^bold>\<open>Theories\<close>, from the bottom.
  \<^item> \<open>Prelude\<close> (effects, errors, list lemmas), \<open>GoStrings\<close> (bytes, UTF-8, the functions of \<open>strings\<close>), \<open>GoCodec\<close> (hex,
    base64, SHA-256, HMAC), \<open>GoJson\<close> (parser and printer of \<open>encoding/json\<close>), \<open>GoTime\<close>, \<open>GoSort\<close>, \<open>GoFloat\<close> (binary64 with
    rounding to nearest even), \<open>GoNumText\<close> (numbers and durations as text), \<open>GoUnmarshal\<close> (decoding into maps and structs): what
    the source uses of the Go library, as executable definitions.
  \<^item> \<open>WmiRows\<close> and \<open>World\<close>: the rows of the hardware queries, the environment and the state.
  \<^item> \<open>Security\<close> (\<open>internal/security\<close>): request signing and secrets. \<open>Storage\<close> (\<open>internal/storage\<close>): key/value pairs, secrets, the
    queue and the history, with the locales \<open>kv_store\<close> and \<open>queue\<close>, interpreted on the tables. \<open>HttpClient\<close>
    (\<open>internal/httpclient\<close>): the retry loop.
  \<^item> \<open>Sync\<close> (\<open>internal/sync\<close>): \<open>SendJSON\<close>, \<open>Flush\<close> and delivery through the queue.
  \<^item> \<open>Config\<close> (\<open>internal/config\<close>) and \<open>Bootstrap\<close> (\<open>internal/bootstrap\<close>): the configuration file, registration, reload, status.
  \<^item> \<open>Heartbeat\<close> (\<open>internal/heartbeat\<close>): readings, health classification, one beat, the interval and the loop.
  \<^item> \<open>SoftNormalize\<close>, \<open>SoftCollect\<close>, \<open>SoftEngine\<close> (\<open>internal/software\<close>): canonical form and deduplication, the registry
    enumeration, one pass and the loop.
  \<^item> \<open>InvTypes\<close>, \<open>InvJson\<close>, \<open>InvNormal\<close>, \<open>InvCollect\<close>, \<open>InvEngine\<close> (\<open>internal/inventory\<close>): the records, their JSON, normal
    form, fingerprint, differences and Health Engine V2, the snapshot computed from the query rows, one pass and the loop.
  \<^item> \<open>WindowsService\<close> (\<open>internal/windowsservice\<close>, \<open>internal/logger\<close> and the paths): the handler and the service commands.
    \<open>App\<close> (\<open>internal/app\<close>): the command line, the bootstrap loop, the status report and the workers the service starts.
    \<open>EntryPoint\<close> (\<open>cmd/itportal-agent\<close>): the process, its error line and its exit status.
  \<^item> \<open>JsonText\<close> (what the printer writes the parser reads), \<open>NumRound\<close> (the shortest decimal text of a float reads back as that
    float), \<open>TimeRound\<close> (so do the layouts of the times the agent writes) and \<open>JsonDecode\<close> (the members of a printed struct fill the
    record they came from): round trips of the library functions, which the components share.
  \<^item> \<open>InvRound\<close> and \<open>InvHistory\<close>: the inventory types through \<open>json.Marshal\<close> and \<open>json.Unmarshal\<close>, the stored snapshot and the
    stored timeline over several passes. \<open>InvDelivery\<close>: the payload of a pass, read from the request or the queue. \<open>Freshness\<close>: what
    the status command and the inventory assessment read of the last delivered beat. \<open>FirstStart\<close>: the service from its first
    start to its first beat. \<open>Unchanged\<close>: what a pass of either inventory that skips says about the machine, and which
    differences the fingerprint and the change report see.
  \<^item> \<open>Agent\<close>: the running service, as a labelled step relation that interleaves the atomic operations of the three workers;
    lemmas \<open>turn_hb_send\<close>, \<open>turn_sw_RunOnce\<close> and \<open>turn_inv_RunOnce\<close> show that their turns are made of such operations, and
    that a beat and a software pass leave the keys of the hardware inventory alone (\<open>foreign\<close>).
    \<open>InvRuns\<close>: runs of the service (\<open>service_run\<close>), any sequence of passes of the hardware inventory, each as a whole, and of
    steps of the other workers between them.
    \<open>Processes\<close>: several processes on one database, with \<open>Flush\<close> cut at its statements (\<open>flush_turn\<close>, whose turns in
    sequence are \<open>Flush\<close> by \<open>flush_turns_Flush\<close>).
  \<^item> \<open>Conformance\<close>: the unit tests of the repository (\<open>*_test.go\<close>), run on the model.

  \<^bold>\<open>What the lemmas show.\<close> Each theory proves, for every operation, which components of the world it leaves alone (frames,
  rewrite rules over \<open>only_counters\<close>, \<open>only_config\<close> and the like), then its results under given outcomes
  (\<open>run_simps\<close>), then its properties. The properties that span components are in \<open>Agent\<close>: the queue is
  conserved along every path, what was handed over is acknowledged or still queued, a backlog drains, and no worker stops
  unless its context is cancelled; and in \<open>InvRuns\<close>: in every run the fingerprint that uploads are skipped by is that of a
  snapshot whose payload is queued or acknowledged, and what a queued snapshot leaves out of the records stays out. Those that follow a value from the
  component that stores it to the one that reads it are in \<open>FirstStart\<close> (the identity and the token of the registration in the first
  beat), \<open>InvHistory\<close> (the snapshot of one pass in the differences of the next, the newest 50 events in the timeline), \<open>InvDelivery\<close> (the snapshot
  of the machine in the acknowledged request) and
  \<open>Freshness\<close> (the time and the readings of a beat in the status report and in the assessment), and in \<open>Unchanged\<close> equal
  fingerprints are traced back to equal hardware and equal software, up to a collision of SHA-256. \<open>EntryPoint\<close> relates the exit
  status of the inventory command to what it leaves in the database. Those of a component
  say what a call leaves behind for each of its errors (\<open>SendJSON\<close>, \<open>Flush\<close>, a beat, a pass, a
  registration), that computed values stay in range and agree with a specification (health scores, percentages, intervals,
  the timeline), and that the deduplication does not depend on the enumeration order, nor the fingerprints on volatile
  values and, where the sort keys tell the items apart (\<open>told_apart\<close>), on the order.
  Several properties state behaviour that is probably not intended: a half registration is final, a change delivered through
  the queue is never recorded, two processes that flush at once can lose a payload, an interval below one second becomes
  zero, a machine that cannot be measured is reported healthy, changed volumes are not reported as changes, monitors of one
  name that are enumerated in the other order are reported as a change (\<open>swapped_monitors\<close>), and volumes are never matched
  with their drives.

  \<^bold>\<open>Bounds and fuel.\<close> The endless loops (\<open>hb_Run\<close>, \<open>sw_Run\<close>, \<open>inv_Run\<close>, \<open>retry\<close>) take fuel, one unit for each turn, and return
  whether they ended; the theorems hold for every amount of fuel, and state that a loop does not end, or how. The other
  recursions are structural or have a measure; the JSON parser and the duration parser take the length of their
  input as fuel, which suffices since every step consumes a character. A flush takes at most 202 turns (\<open>flush_turns_Flush\<close>):
  a page holds at most 100 payloads. Durations are 64-bit: \<open>wrap64\<close> is written where Go
  multiplies a configured number, the differences of two clock readings taken within one call are left unbounded. WMI numbers are
  \<open>32 word\<close> and \<open>64 word\<close>.

  \<^bold>\<open>Concurrency.\<close> \<open>SendJSON\<close> and \<open>Flush\<close> hold the mutex of the transport, and so are atomic for the other workers; a statement of
  SQL is atomic by the database. A command of the command line is a process with a transport of its own, for which only the
  statements are: \<open>Processes\<close> shows that with one process that flushes nothing is lost, and with two a payload can be.

  \<^bold>\<open>Not modelled.\<close> \<open>internal/contracts\<close> (interfaces without
  code), the stubs for other platforms, log messages, closing of the database, the log and response bodies, timeouts
  of single requests and statements, and the texts of errors of \<open>encoding/json\<close>. \<open>sort.Slice\<close> is exact for keys that tell
  the elements apart and for up to twelve elements, where Go sorts by insertion. Float expressions are rounded after every
  operation, as Go does on amd64, which fuses none. Layouts of \<open>time.Parse\<close> other than the strict one the agent writes are errors.
\<close>

end
